(* ===== verification/Khipu_Prelude.thy ===== *)
theory Khipu_Prelude
  imports Main "HOL-Library.Word"
begin

unbundle bit_operations_syntax

text \<open>
  Shared vocabulary of the development: bytes and machine words, C++ exceptions and undefined
  behaviour as values of a result type, the conversions between \<open>std::string\<close> and byte
  vectors, and the big-endian integer encodings that every prototype writes by hand.
  The collection \<open>result_simps\<close> holds the rules that push a computation through the result
  type.
\<close>

named_theorems result_simps \<open>unfolding a computation in the result type\<close>

section \<open>Types\<close>

type_synonym byte = "8 word"
type_synonym bytes = "byte list"
type_synonym u32 = "32 word"
type_synonym u64 = "64 word"

text \<open>
  An exception carries the text its \<open>what()\<close> returns, because the servers copy that text into
  their error responses. \<open>Ub\<close> is not an exception: it marks a run whose next step the C++
  standard leaves undefined (a read outside a buffer), which no handler can catch.
\<close>

datatype exn =
    Runtime_error string
  | Invalid_argument string
  | Length_error string
  | Out_of_range string
  | Bad_alloc
  | Json_error string
  | Lib_error string

datatype fault = Throw exn | Ub string

type_synonym 'a result = "fault + 'a"

fun what :: "exn \<Rightarrow> string" where
  "what (Runtime_error m) = m"
| "what (Invalid_argument m) = m"
| "what (Length_error m) = m"
| "what (Out_of_range m) = m"
| "what Bad_alloc = ''std::bad_alloc''"
| "what (Json_error m) = m"
| "what (Lib_error m) = m"

abbreviation throw :: "exn \<Rightarrow> 'a result" where
  "throw e \<equiv> Inl (Throw e)"

section \<open>Sequencing, catching and mapping in the result type\<close>

definition bind_r :: "'a result \<Rightarrow> ('a \<Rightarrow> 'b result) \<Rightarrow> 'b result" where
  "bind_r r f = (case r of Inl e \<Rightarrow> Inl e | Inr x \<Rightarrow> f x)"

definition catch_r :: "'a result \<Rightarrow> (exn \<Rightarrow> 'a result) \<Rightarrow> 'a result" where
  "catch_r r h = (case r of
      Inl (Throw e) \<Rightarrow> h e
    | Inl (Ub s) \<Rightarrow> Inl (Ub s)
    | Inr x \<Rightarrow> Inr x)"

fun map_r :: "('a \<Rightarrow> 'b result) \<Rightarrow> 'a list \<Rightarrow> 'b list result" where
  "map_r f [] = Inr []"
| "map_r f (x # xs) = bind_r (f x) (\<lambda>y. bind_r (map_r f xs) (\<lambda>ys. Inr (y # ys)))"

definition no_ub :: "'a result \<Rightarrow> bool" where
  "no_ub r \<longleftrightarrow> (case r of Inl (Ub _) \<Rightarrow> False | _ \<Rightarrow> True)"

lemma bind_r_simps [simp, result_simps]:
  "bind_r (Inr x) f = f x"
  "bind_r (Inl e) f = Inl e"
  by (simp_all add: bind_r_def)

lemma catch_r_simps [simp, result_simps]:
  "catch_r (Inr x) h = Inr x"
  "catch_r (Inl (Throw e)) h = h e"
  "catch_r (Inl (Ub s)) h = Inl (Ub s)"
  by (simp_all add: catch_r_def)

lemma no_ub_simps [simp, result_simps]:
  "no_ub (Inr x)"
  "no_ub (Inl (Throw e))"
  "\<not> no_ub (Inl (Ub s))"
  by (simp_all add: no_ub_def)

lemma bind_r_eq_Inr [simp]:
  "bind_r r f = Inr y \<longleftrightarrow> (\<exists>x. r = Inr x \<and> f x = Inr y)"
  by (cases r) auto

lemma bind_r_eq_Inl:
  "bind_r r f = Inl e \<longleftrightarrow> r = Inl e \<or> (\<exists>x. r = Inr x \<and> f x = Inl e)"
  by (cases r) auto

lemma bind_r_assoc: "bind_r (bind_r r f) g = bind_r r (\<lambda>x. bind_r (f x) g)"
  by (cases r) auto

lemma bind_r_cong [fundef_cong]:
  "r = r' \<Longrightarrow> (\<And>x. r' = Inr x \<Longrightarrow> f x = g x) \<Longrightarrow> bind_r r f = bind_r r' g"
  by (cases r') auto

lemma no_ub_bind:
  "no_ub r \<Longrightarrow> (\<And>x. r = Inr x \<Longrightarrow> no_ub (f x)) \<Longrightarrow> no_ub (bind_r r f)"
  by (cases r) (auto simp: no_ub_def)

lemma map_r_cong [fundef_cong]:
  "xs = ys \<Longrightarrow> (\<And>x. x \<in> set ys \<Longrightarrow> f x = g x) \<Longrightarrow> map_r f xs = map_r g ys"
  by (induction ys arbitrary: xs) auto

lemma map_r_Inr:
  "(\<And>x. x \<in> set xs \<Longrightarrow> f x = Inr (g x)) \<Longrightarrow> map_r f xs = Inr (map g xs)"
  by (induction xs) auto

lemma map_r_eq_Inr_length: "map_r f xs = Inr ys \<Longrightarrow> length ys = length xs"
  by (induction xs arbitrary: ys) auto

lemma map_r_eq_Inr_nth:
  "map_r f xs = Inr ys \<Longrightarrow> i < length xs \<Longrightarrow> f (xs ! i) = Inr (ys ! i)"
proof (induction xs arbitrary: ys i)
  case Nil
  then show ?case by simp
next
  case (Cons x xs)
  then show ?case by (cases i) auto
qed

section \<open>\<open>std::string\<close> and byte vectors\<close>

text \<open>
  A \<open>std::string\<close> is a sequence of 8-bit \<open>char\<close>s and is modelled as \<^typ>\<open>string\<close>; the code
  converts in both directions with iterator constructors, which copy the bytes.
\<close>

definition char_of_byte :: "byte \<Rightarrow> char" where
  "char_of_byte b = char_of (unat b)"

definition byte_of_char :: "char \<Rightarrow> byte" where
  "byte_of_char c = of_nat (of_char c)"

definition to_string :: "bytes \<Rightarrow> string" where
  "to_string bs = map char_of_byte bs"

definition to_bytes :: "string \<Rightarrow> bytes" where
  "to_bytes s = map byte_of_char s"

lemma of_char_nat_less: "(of_char c :: nat) < 256"
  by (cases c) (simp add: of_char_def horner_sum_simps)

lemma byte_of_char_of_byte [simp]: "byte_of_char (char_of_byte b) = b"
proof -
  have "unat b < 256"
    using unsigned_less [of b] by simp
  then show ?thesis
    by (simp add: byte_of_char_def char_of_byte_def)
qed

lemma char_of_byte_of_char [simp]: "char_of_byte (byte_of_char c) = c"
proof -
  have "unat (of_nat (of_char c) :: byte) = of_char c"
    using of_char_nat_less [of c] by (simp add: unat_of_nat)
  then show ?thesis
    by (simp add: byte_of_char_def char_of_byte_def)
qed

lemma to_bytes_to_string [simp]: "to_bytes (to_string bs) = bs"
  by (induction bs) (simp_all add: to_bytes_def to_string_def)

lemma to_string_to_bytes [simp]: "to_string (to_bytes s) = s"
  by (induction s) (simp_all add: to_bytes_def to_string_def)

lemma length_to_bytes [simp]: "length (to_bytes s) = length s"
  by (simp add: to_bytes_def)

lemma length_to_string [simp]: "length (to_string bs) = length bs"
  by (simp add: to_string_def)

lemma to_bytes_inject [simp]: "to_bytes s = to_bytes t \<longleftrightarrow> s = t"
  by (metis to_string_to_bytes)

lemma to_string_inject [simp]: "to_string a = to_string b \<longleftrightarrow> a = b"
  by (metis to_bytes_to_string)

lemma to_string_Nil [simp]: "to_string [] = []" and to_bytes_Nil [simp]: "to_bytes [] = []"
  by (simp_all add: to_string_def to_bytes_def)

lemma to_string_eq_Nil [simp]: "to_string b = [] \<longleftrightarrow> b = []"
  by (simp add: to_string_def)

lemma to_bytes_eq_Nil [simp]: "to_bytes s = [] \<longleftrightarrow> s = []"
  by (simp add: to_bytes_def)

section \<open>Big-endian integers\<close>

text \<open>
  The loops of the sources: the writer fills an array of \<open>k\<close> bytes from the last index to the
  first, taking the low byte and shifting right; the reader shifts the accumulator left and ors
  the next byte in.
\<close>

fun put_be :: "nat \<Rightarrow> u64 \<Rightarrow> bytes" where
  "put_be 0 w = []"
| "put_be (Suc k) w = put_be k (drop_bit 8 w) @ [ucast (w AND 0xFF)]"

definition get_be :: "bytes \<Rightarrow> u64" where
  "get_be bs = foldl (\<lambda>n b. push_bit 8 n OR ucast b) 0 bs"

lemma length_put_be [simp]: "length (put_be k w) = k"
  by (induction k arbitrary: w) auto

lemma get_be_snoc: "get_be (bs @ [b]) = push_bit 8 (get_be bs) OR ucast b"
  by (simp add: get_be_def)

lemma and_0xFF: "(w :: u64) AND 0xFF = take_bit 8 w"
  by (simp add: take_bit_eq_mask mask_eq_exp_minus_1)

lemma join_low_byte:
  "push_bit 8 (take_bit n (drop_bit 8 w)) OR ucast (ucast (w AND 0xFF) :: byte) =
    take_bit (n + 8) (w :: u64)"
  unfolding and_0xFF
  by (rule bit_word_eqI)
    (auto simp: bit_push_bit_iff bit_take_bit_iff bit_drop_bit_eq bit_or_iff bit_unsigned_iff)

lemma get_be_put_be_take: "get_be (put_be k w) = take_bit (8 * k) w"
proof (induction k arbitrary: w)
  case 0
  then show ?case by (simp add: get_be_def)
next
  case (Suc k)
  then show ?case
    using join_low_byte [of "8 * k" w] by (simp add: get_be_snoc add.commute)
qed

lemma get_be_put_be [simp]: "get_be (put_be 8 w) = w"
  using get_be_put_be_take [of 8 w] by (simp add: take_bit_word_eq_self)

lemma put_be_get_be: "put_be (length bs) (get_be bs) = bs" if "length bs \<le> 8"
  using that
proof (induction bs rule: rev_induct)
  case Nil
  then show ?case by simp
next
  case (snoc b bs)
  have len: "length bs \<le> 7"
    using snoc.prems by simp
  let ?n = "get_be bs"
  have small: "?n = take_bit 56 ?n"
  proof -
    have "?n = get_be (put_be (length bs) ?n)"
      using snoc by simp
    then have "?n = take_bit (8 * length bs) ?n"
      by (metis get_be_put_be_take)
    then have "take_bit 56 ?n = take_bit (min 56 (8 * length bs)) ?n"
      by (metis take_bit_take_bit)
    also have "min 56 (8 * length bs) = 8 * length bs"
      using len by simp
    finally show ?thesis
      using \<open>?n = take_bit (8 * length bs) ?n\<close> by simp
  qed
  have hi: "drop_bit 8 (push_bit 8 ?n OR ucast b) = ?n"
  proof (rule bit_word_eqI)
    fix i
    assume "i < LENGTH(64)"
    have "bit ?n i \<Longrightarrow> i < 56"
      by (subst (asm) small) (simp add: bit_take_bit_iff)
    moreover have "\<not> bit b (8 + i)"
      using bit_imp_le_length [of b "8 + i"] by auto
    ultimately show "bit (drop_bit 8 (push_bit 8 ?n OR ucast b)) i \<longleftrightarrow> bit ?n i"
      by (auto simp: bit_drop_bit_eq bit_or_iff bit_push_bit_iff bit_unsigned_iff)
  qed
  have lo: "ucast ((push_bit 8 ?n OR ucast b) AND 0xFF) = b"
    unfolding and_0xFF
    by (rule bit_word_eqI)
      (auto simp: bit_or_iff bit_take_bit_iff bit_push_bit_iff bit_unsigned_iff)
  show ?case
    using snoc hi lo by (simp add: get_be_snoc)
qed

lemma put_be_get_be_8: "length bs = 8 \<Longrightarrow> put_be 8 (get_be bs) = bs"
  using put_be_get_be [of bs] by simp

section \<open>Decimal text\<close>

text \<open>\<open>std::to_string\<close> on an unsigned integer.\<close>

definition digit_char :: "nat \<Rightarrow> char" where
  "digit_char d = char_of (48 + d)"

fun dec_str :: "nat \<Rightarrow> string" where
  "dec_str n = (if n < 10 then [digit_char n] else dec_str (n div 10) @ [digit_char (n mod 10)])"

declare dec_str.simps [simp del]

definition digit_val :: "char \<Rightarrow> nat" where
  "digit_val c = of_char c - 48"

definition is_digit :: "char \<Rightarrow> bool" where
  "is_digit c \<longleftrightarrow> 48 \<le> (of_char c :: nat) \<and> (of_char c :: nat) \<le> 57"

definition dec_val :: "string \<Rightarrow> nat" where
  "dec_val s = foldl (\<lambda>n c. 10 * n + digit_val c) 0 s"

lemma of_char_digit [simp]: "d < 10 \<Longrightarrow> of_char (digit_char d) = 48 + d"
  by (simp add: digit_char_def)

lemma digit_val_digit [simp]: "d < 10 \<Longrightarrow> digit_val (digit_char d) = d"
  by (simp add: digit_val_def)

lemma is_digit_digit [simp]: "d < 10 \<Longrightarrow> is_digit (digit_char d)"
  by (simp add: is_digit_def)

lemma dec_val_dec_str [simp]: "dec_val (dec_str n) = n"
proof (induction n rule: dec_str.induct)
  case (1 n)
  then show ?case
    by (subst dec_str.simps) (auto simp: dec_val_def)
qed

lemma dec_str_digits: "list_all is_digit (dec_str n)"
proof (induction n rule: dec_str.induct)
  case (1 n)
  then show ?case
    by (subst dec_str.simps) auto
qed

lemma dec_str_nonempty [simp]: "dec_str n \<noteq> []"
  by (subst dec_str.simps) simp

lemma dec_str_no_leading_zero: "n \<noteq> 0 \<Longrightarrow> hd (dec_str n) \<noteq> digit_char 0"
proof (induction n rule: dec_str.induct)
  case (1 n)
  show ?case
  proof (cases "n < 10")
    case True
    with 1(2) have "digit_char n \<noteq> digit_char 0"
      by (metis digit_val_digit zero_less_numeral)
    with True show ?thesis
      by (subst dec_str.simps) auto
  next
    case False
    with 1 show ?thesis
      by (subst dec_str.simps) simp
  qed
qed

lemma dec_str_0 [simp]: "dec_str 0 = [digit_char 0]"
  by (subst dec_str.simps) simp

end
