(* ===== verification/Wire_Format.thy ===== *)
theory Wire_Format
  imports Khipu_Prelude
begin

text \<open>
  The length-prefixed wire format of requests and responses: the classes \<open>BufReader\<close> and
  \<open>BufWriter\<close> that every server and client declares. The reader keeps a position that is a
  \<open>size_t\<close>, so \<open>pos_ + n\<close> wraps; \<open>read_blob\<close> copies its eight length bytes without asking
  whether they are there. Both are modelled as written: an unchecked read past the end of the
  buffer is the value \<open>Ub\<close>.

  The locale \<open>wire_field\<close> is the contract between a writer and a reader of one field; it is
  interpreted for the integer, blob, string and counted-list fields, and a request or response is
  a sequence of such fields.
\<close>

section \<open>The reader\<close>

text \<open>\<open>rd_trunc\<close> is the text the reader throws: the programs' copies differ in it only.\<close>

record buf_reader =
  rd_buf :: bytes
  rd_pos :: u64
  rd_trunc :: string

definition reader_new :: "string \<Rightarrow> bytes \<Rightarrow> buf_reader" where
  "reader_new trunc buf = \<lparr>rd_buf = buf, rd_pos = 0, rd_trunc = trunc\<rparr>"

definition deref :: "bytes \<Rightarrow> u64 \<Rightarrow> u64 \<Rightarrow> bytes result" where
  "deref buf p n =
     (if unat p + unat n \<le> length buf
      then Inr (take (unat n) (drop (unat p) buf))
      else Inl (Ub ''read past the end of the buffer''))"

definition read_n :: "u64 \<Rightarrow> buf_reader \<Rightarrow> (u64 \<times> buf_reader) result" where
  "read_n n r =
     (if unat (rd_pos r + n) > length (rd_buf r)
      then throw (Runtime_error (rd_trunc r))
      else Inr (rd_pos r, r\<lparr>rd_pos := rd_pos r + n\<rparr>))"

fun be32 :: "bytes \<Rightarrow> u32" where
  "be32 [b0, b1, b2, b3] =
     push_bit 24 (ucast b0) OR push_bit 16 (ucast b1) OR push_bit 8 (ucast b2) OR ucast b3"
| "be32 _ = 0"

definition read_u32_be :: "buf_reader \<Rightarrow> (u32 \<times> buf_reader) result" where
  "read_u32_be r =
     bind_r (read_n 4 r) (\<lambda>(p, r').
     bind_r (deref (rd_buf r) p 4) (\<lambda>bs. Inr (be32 bs, r')))"

definition read_blob :: "buf_reader \<Rightarrow> (bytes \<times> buf_reader) result" where
  "read_blob r =
     bind_r (deref (rd_buf r) (rd_pos r) 8) (\<lambda>len_bytes.
     let r1 = r\<lparr>rd_pos := rd_pos r + 8\<rparr>; n = get_be len_bytes in
     bind_r (read_n n r1) (\<lambda>(p, r2).
     bind_r (deref (rd_buf r) p n) (\<lambda>bs. Inr (bs, r2))))"

definition read_string :: "buf_reader \<Rightarrow> (string \<times> buf_reader) result" where
  "read_string r = bind_r (read_blob r) (\<lambda>(v, r'). Inr (to_string v, r'))"

definition remaining :: "buf_reader \<Rightarrow> u64" where
  "remaining r = of_nat (length (rd_buf r)) - rd_pos r"

text \<open>The loops \<open>for (i = 0; i < num; ++i) v.push_back(r.read_blob())\<close>.\<close>

fun read_many :: "(buf_reader \<Rightarrow> ('a \<times> buf_reader) result) \<Rightarrow> nat \<Rightarrow> buf_reader \<Rightarrow>
    ('a list \<times> buf_reader) result" where
  "read_many rd 0 r = Inr ([], r)"
| "read_many rd (Suc n) r =
     bind_r (rd r) (\<lambda>(x, r'). bind_r (read_many rd n r') (\<lambda>(xs, r''). Inr (x # xs, r'')))"

text \<open>
  \<open>v.reserve(num)\<close> on a vector of vectors (24 bytes each) asks the allocator for \<open>24 * num\<close>
  bytes at once; \<open>alloc\<close> is the allocator's answer.
\<close>

definition reserve :: "(nat \<Rightarrow> bool) \<Rightarrow> nat \<Rightarrow> unit result" where
  "reserve alloc num = (if alloc (24 * num) then Inr () else throw Bad_alloc)"

definition read_counted :: "(nat \<Rightarrow> bool) \<Rightarrow> buf_reader \<Rightarrow> (bytes list \<times> buf_reader) result" where
  "read_counted alloc r =
     bind_r (read_u32_be r) (\<lambda>(num, r1).
     bind_r (reserve alloc (unat num)) (\<lambda>_.
     read_many read_blob (unat num) r1))"

section \<open>The writer\<close>

record buf_writer =
  wr_buf :: bytes

definition writer_new :: buf_writer where
  "writer_new = \<lparr>wr_buf = []\<rparr>"

definition u32_bytes :: "u32 \<Rightarrow> bytes" where
  "u32_bytes v =
     [ucast (drop_bit 24 v AND 0xFF), ucast (drop_bit 16 v AND 0xFF),
      ucast (drop_bit 8 v AND 0xFF), ucast (v AND 0xFF)]"

definition blob_bytes :: "bytes \<Rightarrow> bytes" where
  "blob_bytes d = put_be 8 (of_nat (length d)) @ d"

definition write_u32_be :: "u32 \<Rightarrow> buf_writer \<Rightarrow> buf_writer" where
  "write_u32_be v w = w\<lparr>wr_buf := wr_buf w @ u32_bytes v\<rparr>"

definition write_blob :: "bytes \<Rightarrow> buf_writer \<Rightarrow> buf_writer" where
  "write_blob d w = w\<lparr>wr_buf := wr_buf w @ put_be 8 (of_nat (length d)) @ d\<rparr>"

definition write_string :: "string \<Rightarrow> buf_writer \<Rightarrow> buf_writer" where
  "write_string s w = write_blob (to_bytes s) w"

definition string_bytes :: "string \<Rightarrow> bytes" where
  "string_bytes s = blob_bytes (to_bytes s)"

definition counted_bytes :: "bytes list \<Rightarrow> bytes" where
  "counted_bytes bs = u32_bytes (of_nat (length bs)) @ concat (map blob_bytes bs)"

lemma wr_buf_write [simp]:
  "wr_buf (write_u32_be v w) = wr_buf w @ u32_bytes v"
  "wr_buf (write_blob d w) = wr_buf w @ blob_bytes d"
  "wr_buf (write_string s w) = wr_buf w @ string_bytes s"
  "wr_buf writer_new = []"
  by (simp_all add: write_u32_be_def write_blob_def write_string_def writer_new_def
      blob_bytes_def string_bytes_def)

lemma wr_buf_fold_write_blob [simp]:
  "wr_buf (fold write_blob bs w) = wr_buf w @ concat (map blob_bytes bs)"
  by (induction bs arbitrary: w) simp_all

lemma length_u32_bytes [simp]: "length (u32_bytes v) = 4"
  by (simp add: u32_bytes_def)

lemma length_blob_bytes [simp]: "length (blob_bytes d) = 8 + length d"
  by (simp add: blob_bytes_def)

section \<open>The unread suffix of a reader\<close>

definition wf_reader :: "buf_reader \<Rightarrow> bool" where
  "wf_reader r \<longleftrightarrow> length (rd_buf r) < 2 ^ 64 \<and> unat (rd_pos r) \<le> length (rd_buf r)"

definition unread :: "buf_reader \<Rightarrow> bytes" where
  "unread r = drop (unat (rd_pos r)) (rd_buf r)"

definition advance :: "nat \<Rightarrow> buf_reader \<Rightarrow> buf_reader" where
  "advance k r = r\<lparr>rd_pos := rd_pos r + of_nat k\<rparr>"

lemma wf_reader_new [simp]: "wf_reader (reader_new m buf) \<longleftrightarrow> length buf < 2 ^ 64"
  by (simp add: wf_reader_def reader_new_def)

lemma unread_reader_new [simp]: "unread (reader_new m buf) = buf"
  by (simp add: unread_def reader_new_def)

lemma advance_sel [simp]:
  "rd_buf (advance k r) = rd_buf r" "rd_trunc (advance k r) = rd_trunc r"
  by (simp_all add: advance_def)

lemma advance_0 [simp]: "advance 0 r = r"
  by (simp add: advance_def)

lemma advance_advance [simp]: "advance j (advance k r) = advance (k + j) r"
  by (simp add: advance_def add.assoc)

lemma unat_pos_advance:
  assumes "wf_reader r" and "k \<le> length (unread r)"
  shows "unat (rd_pos (advance k r)) = unat (rd_pos r) + k"
proof -
  have "unat (rd_pos r) + k \<le> length (rd_buf r)"
    using assms by (simp add: wf_reader_def unread_def le_diff_conv2 add.commute)
  then have "unat (rd_pos r) + k < 2 ^ 64"
    using assms by (simp add: wf_reader_def)
  moreover from this have "unat (of_nat k :: u64) = k"
    by (simp add: unat_of_nat)
  ultimately show ?thesis
    by (simp add: advance_def unat_word_ariths)
qed

lemma wf_reader_advance:
  "wf_reader r \<Longrightarrow> k \<le> length (unread r) \<Longrightarrow> wf_reader (advance k r)"
  using unat_pos_advance [of r k] by (auto simp: wf_reader_def unread_def)

lemma unread_advance:
  "wf_reader r \<Longrightarrow> k \<le> length (unread r) \<Longrightarrow> unread (advance k r) = drop k (unread r)"
  using unat_pos_advance [of r k] by (simp add: unread_def add.commute)

lemma unread_advance_append:
  assumes "wf_reader r" and "unread r = a @ b"
  shows "unread (advance (length a) r) = b" "wf_reader (advance (length a) r)"
  using assms unread_advance [of r "length a"] wf_reader_advance [of r "length a"] by simp_all

lemma length_unread_less: "wf_reader r \<Longrightarrow> length (unread r) < 2 ^ 64"
  by (auto simp: wf_reader_def unread_def intro: le_less_trans [OF diff_le_self])

lemma remaining_eq_0: "wf_reader r \<Longrightarrow> remaining r = 0 \<longleftrightarrow> unread r = []"
proof -
  assume wf: "wf_reader r"
  have len: "unat (of_nat (length (rd_buf r)) :: u64) = length (rd_buf r)"
    using wf by (simp add: wf_reader_def unat_of_nat)
  have "remaining r = 0 \<longleftrightarrow> of_nat (length (rd_buf r)) = rd_pos r"
    by (simp add: remaining_def)
  also have "\<dots> \<longleftrightarrow> length (rd_buf r) = unat (rd_pos r)"
    using len by (metis word_unat_eq_iff)
  also have "\<dots> \<longleftrightarrow> unread r = []"
    using wf by (auto simp: unread_def wf_reader_def)
  finally show ?thesis .
qed

lemma deref_unread:
  "unat n \<le> length (unread r) \<Longrightarrow> wf_reader r \<Longrightarrow>
    deref (rd_buf r) (rd_pos r) n = Inr (take (unat n) (unread r))"
  by (auto simp: deref_def unread_def wf_reader_def)

lemma deref_short:
  "wf_reader r \<Longrightarrow> length (unread r) < unat n \<Longrightarrow>
    \<exists>m. deref (rd_buf r) (rd_pos r) n = Inl (Ub m)"
  by (auto simp: deref_def unread_def wf_reader_def)

lemma read_n_ok:
  assumes "wf_reader r" and "unat n \<le> length (unread r)"
  shows "read_n n r = Inr (rd_pos r, advance (unat n) r)"
  using unat_pos_advance [OF assms] assms
  by (auto simp: read_n_def advance_def wf_reader_def unread_def)

text \<open>Within the buffer the check rejects; only a wrapping sum lets a too long read pass.\<close>

lemma read_n_short:
  assumes "wf_reader r" and "length (unread r) < unat n"
  shows "read_n n r = throw (Runtime_error (rd_trunc r)) \<or> 2 ^ 64 \<le> unat (rd_pos r) + unat n"
proof (cases "unat (rd_pos r) + unat n < 2 ^ 64")
  case True
  then have "unat (rd_pos r + n) = unat (rd_pos r) + unat n"
    by (simp add: unat_word_ariths)
  with assms show ?thesis
    by (auto simp: read_n_def unread_def wf_reader_def)
qed simp

lemma be32_u32_bytes [simp]: "be32 (u32_bytes v) = v"
proof -
  have ff: "(w :: u32) AND 0xFF = take_bit 8 w" for w
    by (simp add: take_bit_eq_mask mask_eq_exp_minus_1)
  show ?thesis
    unfolding u32_bytes_def be32.simps ff
  proof (rule bit_word_eqI)
    fix i
    assume "i < LENGTH(32)"
    then consider "i < 8" | "8 \<le> i" "i < 16" | "16 \<le> i" "i < 24" | "24 \<le> i" "i < 32"
      by force
    then show "bit (push_bit 24 (ucast (ucast (take_bit 8 (drop_bit 24 v)) :: byte)) OR
        push_bit 16 (ucast (ucast (take_bit 8 (drop_bit 16 v)) :: byte)) OR
        push_bit 8 (ucast (ucast (take_bit 8 (drop_bit 8 v)) :: byte)) OR
        ucast (ucast (take_bit 8 v) :: byte) :: u32) i \<longleftrightarrow> bit v i"
      by cases
        (auto simp: bit_or_iff bit_push_bit_iff bit_take_bit_iff bit_drop_bit_eq bit_unsigned_iff)
  qed
qed

lemma u32_bytes_be32: "length bs = 4 \<Longrightarrow> u32_bytes (be32 bs) = bs"
proof -
  assume "length bs = 4"
  then obtain b0 b1 b2 b3 where bs: "bs = [b0, b1, b2, b3]"
    by (auto simp: numeral_eq_Suc length_Suc_conv)
  have ff: "(w :: u32) AND 0xFF = take_bit 8 w" for w
    by (simp add: take_bit_eq_mask mask_eq_exp_minus_1)
  have big: "\<not> bit (b :: byte) (8 + i)" for b i
    using bit_imp_le_length [of b "8 + i"] by auto
  show ?thesis
    unfolding u32_bytes_def bs be32.simps ff
    by (intro arg_cong2 [of _ _ _ _ Cons] refl; rule bit_word_eqI)
      (auto simp: bit_or_iff bit_push_bit_iff bit_take_bit_iff bit_drop_bit_eq bit_unsigned_iff
        dest: bit_imp_le_length)
qed

section \<open>The contract of a field\<close>

text \<open>
  \<open>wr\<close> is what the writer appends for a value, \<open>rd\<close> the reader's operation, \<open>ok\<close> the values
  that the format can carry. \<open>rd_wr\<close> is the round trip; \<open>wr_rd\<close> is its converse: what a reader
  accepts is exactly the encoding of what it returns, so the format is unambiguous.
\<close>

locale wire_field =
  fixes wr :: "'a \<Rightarrow> bytes"
    and rd :: "buf_reader \<Rightarrow> ('a \<times> buf_reader) result"
    and ok :: "'a \<Rightarrow> bool"
  assumes rd_wr: "wf_reader r \<Longrightarrow> unread r = wr x @ rest \<Longrightarrow> ok x \<Longrightarrow>
      rd r = Inr (x, advance (length (wr x)) r)"
    and wr_rd: "wf_reader r \<Longrightarrow> rd r = Inr (x, r') \<Longrightarrow>
      ok x \<and> (\<exists>rest. unread r = wr x @ rest) \<and> r' = advance (length (wr x)) r"
begin

lemma field_many_rd_wr:
  "wf_reader r \<Longrightarrow> unread r = concat (map wr xs) @ rest \<Longrightarrow> list_all ok xs \<Longrightarrow>
    read_many rd (length xs) r = Inr (xs, advance (length (concat (map wr xs))) r)"
proof (induction xs arbitrary: r)
  case Nil
  then show ?case by simp
next
  case (Cons x xs)
  let ?r = "advance (length (wr x)) r"
  have "rd r = Inr (x, ?r)"
    using Cons.prems by (intro rd_wr) auto
  moreover have "read_many rd (length xs) ?r =
      Inr (xs, advance (length (concat (map wr xs))) ?r)"
    using Cons.prems unread_advance_append [of r "wr x" "concat (map wr xs) @ rest"]
    by (intro Cons.IH) auto
  ultimately show ?case by simp
qed

lemma field_many_wr_rd:
  "wf_reader r \<Longrightarrow> read_many rd n r = Inr (xs, r') \<Longrightarrow>
    length xs = n \<and> list_all ok xs \<and> (\<exists>rest. unread r = concat (map wr xs) @ rest) \<and>
    r' = advance (length (concat (map wr xs))) r"
proof (induction n arbitrary: r xs)
  case 0
  then show ?case by simp
next
  case (Suc n)
  from Suc.prems(2) obtain x r1 ys where *: "rd r = Inr (x, r1)"
    "read_many rd n r1 = Inr (ys, r')" "xs = x # ys"
    by (auto split: prod.splits)
  from wr_rd [OF Suc.prems(1) *(1)] obtain rest where x: "ok x" "unread r = wr x @ rest"
    "r1 = advance (length (wr x)) r" by auto
  have "wf_reader r1" "unread r1 = rest"
    using unread_advance_append [OF Suc.prems(1) x(2)] x(3) by auto
  with Suc.IH [OF _ *(2)] x * show ?case by auto
qed

lemma field_wf_rd: "wf_reader r \<Longrightarrow> rd r = Inr (x, r') \<Longrightarrow> wf_reader r'"
  using wr_rd [of r x r'] unread_advance_append [of r "wr x"] by auto

end

section \<open>The fields of the format\<close>

lemma length_4E: "length bs = 4 \<Longrightarrow> (\<And>a b c d. bs = [a, b, c, d] \<Longrightarrow> P) \<Longrightarrow> P"
  by (auto simp: numeral_eq_Suc length_Suc_conv)

interpretation u32_field: wire_field u32_bytes read_u32_be "\<lambda>_. True"
proof
  fix r x rest
  assume "wf_reader r" "unread r = u32_bytes x @ rest"
  then show "read_u32_be r = Inr (x, advance (length (u32_bytes x)) r)"
    using read_n_ok [of r 4] deref_unread [of 4 r]
    by (simp add: read_u32_be_def)
next
  fix r x r'
  assume wf: "wf_reader r" and rd: "read_u32_be r = Inr (x, r')"
  have len: "4 \<le> length (unread r)"
  proof (rule ccontr)
    assume "\<not> 4 \<le> length (unread r)"
    then obtain m where "deref (rd_buf r) (rd_pos r) 4 = Inl (Ub m)"
      using deref_short [of r 4] wf by auto
    with rd show False
      by (auto simp: read_u32_be_def read_n_def split: if_splits)
  qed
  let ?bs = "take 4 (unread r)"
  have "x = be32 ?bs" "r' = advance 4 r"
    using rd len wf read_n_ok [of r 4] deref_unread [of 4 r]
    by (simp_all add: read_u32_be_def)
  moreover have "length ?bs = 4" using len by simp
  ultimately have "u32_bytes x = ?bs" by (simp add: u32_bytes_be32)
  then show "True \<and> (\<exists>rest. unread r = u32_bytes x @ rest) \<and>
      r' = advance (length (u32_bytes x)) r"
    using \<open>r' = advance 4 r\<close> by (metis append_take_drop_id length_u32_bytes)
qed

lemma blob_rd_wr:
  assumes wf: "wf_reader r" and un: "unread r = blob_bytes x @ rest"
  shows "read_blob r = Inr (x, advance (length (blob_bytes x)) r)"
proof -
  have len: "8 + length x \<le> length (unread r)"
    using un by simp
  then have small: "length x < 2 ^ 64"
    using wf length_unread_less [OF wf] by linarith
  then have n: "unat (of_nat (length x) :: u64) = length x"
    by (simp add: unat_of_nat)
  let ?r1 = "advance 8 r"
  have r1: "wf_reader ?r1" "unread ?r1 = x @ rest"
    using wf un unread_advance [of r 8] wf_reader_advance [of r 8] len
    by (auto simp: blob_bytes_def)
  have "deref (rd_buf r) (rd_pos r) 8 = Inr (put_be 8 (of_nat (length x)))"
    using deref_unread [of 8 r] wf un len by (simp add: blob_bytes_def)
  moreover have "read_n (of_nat (length x)) ?r1 = Inr (rd_pos ?r1, advance (length x) ?r1)"
    using read_n_ok [OF r1(1), of "of_nat (length x)"] r1 n by simp
  moreover have "deref (rd_buf r) (rd_pos ?r1) (of_nat (length x)) = Inr x"
    using deref_unread [OF _ r1(1), of "of_nat (length x)"] r1 n by simp
  moreover have "r\<lparr>rd_pos := rd_pos r + 8\<rparr> = ?r1"
    by (simp add: advance_def)
  ultimately show ?thesis
    by (simp add: read_blob_def Let_def)
qed

lemma blob_wr_rd:
  assumes wf: "wf_reader r" and rd: "read_blob r = Inr (x, r')"
  shows "(\<exists>rest. unread r = blob_bytes x @ rest) \<and> r' = advance (length (blob_bytes x)) r"
proof -
  have len: "8 \<le> length (unread r)"
  proof (rule ccontr)
    assume "\<not> 8 \<le> length (unread r)"
    then obtain m where "deref (rd_buf r) (rd_pos r) 8 = Inl (Ub m)"
      using deref_short [of r 8] wf by auto
    with rd show False by (simp add: read_blob_def)
  qed
  let ?lb = "take 8 (unread r)" and ?r1 = "advance 8 r"
  let ?n = "get_be ?lb"
  have r1: "wf_reader ?r1" "unread ?r1 = drop 8 (unread r)"
    using wf len wf_reader_advance [of r 8] unread_advance [of r 8] by auto
  have d8: "deref (rd_buf r) (rd_pos r) 8 = Inr ?lb"
    using deref_unread [of 8 r] wf len by simp
  have up: "r\<lparr>rd_pos := rd_pos r + 8\<rparr> = ?r1"
    by (simp add: advance_def)
  from rd d8 up obtain p r2 bs where *: "read_n ?n ?r1 = Inr (p, r2)"
    "deref (rd_buf r) p ?n = Inr bs" "x = bs" "r' = r2"
    by (auto simp: read_blob_def Let_def split: prod.splits)
  have p: "p = rd_pos ?r1"
    using *(1) by (simp add: read_n_def split: if_splits)
  have fits: "unat ?n \<le> length (unread ?r1)"
  proof (rule ccontr)
    assume "\<not> ?thesis"
    then show False
      using deref_short [OF r1(1), of ?n] *(2) p by auto
  qed
  have x: "x = take (unat ?n) (unread ?r1)" and r': "r' = advance (unat ?n) ?r1"
    using * p deref_unread [OF fits r1(1)] read_n_ok [OF r1(1) fits] by auto
  have lx: "length x = unat ?n"
    using x fits by simp
  have "put_be 8 (of_nat (length x)) = ?lb"
    using lx len put_be_get_be_8 [of ?lb] by simp
  then have "blob_bytes x = ?lb @ take (unat ?n) (unread ?r1)"
    using x by (simp only: blob_bytes_def)
  then have "unread r = blob_bytes x @ drop (unat ?n) (unread ?r1)"
    using r1(2) by (metis append_assoc append_take_drop_id)
  then show ?thesis
    using r' lx by auto
qed

interpretation blob_field: wire_field blob_bytes read_blob "\<lambda>_. True"
  by unfold_locales (use blob_rd_wr blob_wr_rd in blast)+

interpretation string_field: wire_field string_bytes read_string "\<lambda>_. True"
proof
  fix r x rest
  assume "wf_reader r" "unread r = string_bytes x @ rest"
  then show "read_string r = Inr (x, advance (length (string_bytes x)) r)"
    by (simp add: read_string_def string_bytes_def blob_rd_wr)
next
  fix r x r'
  assume "wf_reader r" "read_string r = Inr (x, r')"
  then show "True \<and> (\<exists>rest. unread r = string_bytes x @ rest) \<and>
      r' = advance (length (string_bytes x)) r"
    by (auto simp: read_string_def string_bytes_def split: prod.splits dest: blob_wr_rd)
qed

definition counted_ok :: "(nat \<Rightarrow> bool) \<Rightarrow> bytes list \<Rightarrow> bool" where
  "counted_ok alloc xs \<longleftrightarrow> length xs < 2 ^ 32 \<and> alloc (24 * length xs)"

text \<open>A counted list: its count, the reservation, then that many blobs.\<close>

interpretation counted_field: wire_field counted_bytes "read_counted alloc" "counted_ok alloc"
  for alloc
proof
  fix r xs rest
  assume wf: "wf_reader r" and un: "unread r = counted_bytes xs @ rest" and ok: "counted_ok alloc xs"
  have n: "unat (of_nat (length xs) :: u32) = length xs"
    using ok by (simp add: counted_ok_def unat_of_nat)
  let ?c = "u32_bytes (of_nat (length xs))" and ?bs = "concat (map blob_bytes xs)"
  have un': "unread r = ?c @ ?bs @ rest"
    using un by (simp add: counted_bytes_def)
  have "read_u32_be r = Inr (of_nat (length xs), advance (length ?c) r)"
    using u32_field.rd_wr [OF wf un'] by simp
  moreover have "read_many read_blob (length xs) (advance (length ?c) r) =
      Inr (xs, advance (length ?bs) (advance (length ?c) r))"
    using unread_advance_append [OF wf un']
    by (intro blob_field.field_many_rd_wr) (auto simp: list_all_iff)
  ultimately show "read_counted alloc r = Inr (xs, advance (length (counted_bytes xs)) r)"
    using ok n by (simp add: read_counted_def reserve_def counted_ok_def counted_bytes_def)
next
  fix r xs r'
  assume wf: "wf_reader r" and rd: "read_counted alloc r = Inr (xs, r')"
  from rd obtain num r1 where *: "read_u32_be r = Inr (num, r1)" "alloc (24 * unat num)"
    "read_many read_blob (unat num) r1 = Inr (xs, r')"
    by (auto simp: read_counted_def reserve_def split: prod.splits if_splits)
  from u32_field.wr_rd [OF wf *(1)] obtain rest where c: "unread r = u32_bytes num @ rest"
    "r1 = advance (length (u32_bytes num)) r" by auto
  have r1: "wf_reader r1" "unread r1 = rest"
    using unread_advance_append [OF wf c(1)] c(2) by auto
  from blob_field.field_many_wr_rd [OF r1(1) *(3)] obtain rest' where
    b: "length xs = unat num" "unread r1 = concat (map blob_bytes xs) @ rest'"
    "r' = advance (length (concat (map blob_bytes xs))) r1" by auto
  have "unat num < 2 ^ 32"
    using unsigned_less [of num] by simp
  with *(2) b have "counted_ok alloc xs"
    by (simp add: counted_ok_def)
  moreover have "of_nat (length xs) = num"
    using b by simp
  ultimately show "counted_ok alloc xs \<and> (\<exists>rest. unread r = counted_bytes xs @ rest) \<and>
      r' = advance (length (counted_bytes xs)) r"
    using c b r1 by (auto simp: counted_bytes_def intro!: exI [of _ rest'])
qed

end
