(* ===== verification/Tcp_Framing.thy ===== *)
theory Tcp_Framing
  imports Wire_Format "HOL-Library.Multiset"
begin

text \<open>
  \<open>tcp_transport.cpp\<close>: the loops around \<open>send\<close> and \<open>recv\<close>, the 8-byte length prefix of a
  message, and the ownership of file descriptors by \<open>Socket\<close>, \<open>TCPServer\<close> and \<open>TCPClient\<close>.

  The kernel is the environment: a script of the results its calls return. A script that runs out
  while a loop still wants a result is a call that blocks, and the loop's value is \<open>None\<close>.
\<close>

section \<open>Sending\<close>

datatype send_res = Sent nat | Send_intr | Send_fail string

text \<open>
  \<open>write_all buf len\<close>: \<open>sent\<close> is the loop variable, the second component of the result is what
  the kernel has accepted. \<open>Sent n\<close> is a call of \<open>send\<close> for which the kernel has room for \<open>n\<close>
  bytes: it takes that many of the bytes offered, at most all of them, and returns their number.
\<close>

fun write_all :: "bytes \<Rightarrow> nat \<Rightarrow> bytes \<Rightarrow> send_res list \<Rightarrow>
    (unit result \<times> bytes \<times> send_res list) option" where
  "write_all buf sent wire evs =
     (if sent < length buf then
        (case evs of
           [] \<Rightarrow> None
         | Sent n # evs' \<Rightarrow>
             (if n = 0
              then Some (throw (Runtime_error ''send failed: peer closed connection during write''),
                wire, evs')
              else write_all buf (sent + min n (length buf - sent))
                (wire @ take n (drop sent buf)) evs')
         | Send_intr # evs' \<Rightarrow> write_all buf sent wire evs'
         | Send_fail m # evs' \<Rightarrow>
             Some (throw (Runtime_error (''send failed: '' @ m)), wire, evs'))
      else Some (Inr (), wire, evs))"

declare write_all.simps [simp del]

definition length_prefix :: "bytes \<Rightarrow> bytes" where
  "length_prefix payload = put_be 8 (of_nat (length payload))"

definition send_message :: "bytes \<Rightarrow> bytes \<Rightarrow> send_res list \<Rightarrow>
    (unit result \<times> bytes \<times> send_res list) option" where
  "send_message payload wire evs =
     (case write_all (length_prefix payload) 0 wire evs of
        None \<Rightarrow> None
      | Some (Inl e, wire', evs') \<Rightarrow> Some (Inl e, wire', evs')
      | Some (Inr _, wire', evs') \<Rightarrow>
          (if length payload > 0 then write_all payload 0 wire' evs'
           else Some (Inr (), wire', evs')))"

definition frame :: "bytes \<Rightarrow> bytes" where
  "frame payload = length_prefix payload @ payload"

lemma length_frame [simp]: "length (frame m) = 8 + length m"
  by (simp add: frame_def length_prefix_def)

text \<open>A return without exception means that every byte was handed over, in order.\<close>

lemma drop_segment: "take n (drop s xs) @ drop (s + min n (length xs - s)) xs = drop s xs"
proof -
  have "drop (s + min n (length xs - s)) xs = drop n (drop s xs)"
    by (simp add: min_def add.commute)
  then show ?thesis by (simp only: append_take_drop_id)
qed

lemma take_segment:
  "take n (drop s xs) @ take k (drop (s + min n (length xs - s)) xs) = take (n + k) (drop s xs)"
proof -
  have "drop (s + min n (length xs - s)) xs = drop n (drop s xs)"
    by (simp add: min_def add.commute)
  then show ?thesis by (simp only: take_add)
qed

lemma write_all_ok:
  "write_all buf sent wire evs = Some (Inr (), wire', evs') \<Longrightarrow> wire' = wire @ drop sent buf"
proof (induction evs arbitrary: sent wire)
  case Nil
  then show ?case by (subst (asm) write_all.simps) (simp split: if_splits)
next
  case (Cons e evs)
  from Cons.prems show ?case
    by (subst (asm) write_all.simps)
      (auto split: if_splits send_res.splits dest!: Cons.IH simp: drop_segment simp del: drop_drop)
qed

text \<open>On any outcome the kernel holds a prefix of what was to be sent.\<close>

lemma write_all_prefix:
  "write_all buf sent wire evs = Some (r, wire', evs') \<Longrightarrow>
    \<exists>k. wire' = wire @ take k (drop sent buf)"
proof (induction evs arbitrary: sent wire)
  case Nil
  then show ?case by (subst (asm) write_all.simps) (auto split: if_splits intro: exI [of _ 0])
next
  case (Cons e evs)
  have stop: "\<exists>k. wire = wire @ take k (drop sent buf)"
    by (rule exI [of _ 0]) simp
  show ?case
  proof (cases "\<exists>n>0. e = Sent n \<and> sent < length buf")
    case True
    then obtain n where n: "0 < n" "e = Sent n" "sent < length buf" by auto
    with Cons.prems have
      "write_all buf (sent + min n (length buf - sent)) (wire @ take n (drop sent buf)) evs =
        Some (r, wire', evs')"
      by (subst (asm) write_all.simps) simp
    from Cons.IH [OF this] show ?thesis
      by (metis append_assoc take_segment)
  next
    case False
    with Cons.prems Cons.IH stop show ?thesis
      by (subst (asm) write_all.simps) (auto split: if_splits send_res.splits)
  qed
qed

text \<open>
  A script that makes progress: positive counts and interruptions only. Every call of \<open>send\<close>
  then moves at least one byte, so that many calls are enough.
\<close>

fun progress :: "send_res list \<Rightarrow> bool" where
  "progress [] = True"
| "progress (Sent n # evs) = (0 < n \<and> progress evs)"
| "progress (Send_intr # evs) = progress evs"
| "progress (Send_fail m # evs) = False"

fun sends :: "send_res list \<Rightarrow> nat" where
  "sends [] = 0"
| "sends (Sent n # evs) = Suc (sends evs)"
| "sends (_ # evs) = sends evs"

lemma write_all_progress:
  "progress evs \<Longrightarrow> length buf - sent \<le> sends evs \<Longrightarrow>
    \<exists>evs'. write_all buf sent wire evs = Some (Inr (), wire @ drop sent buf, evs') \<and>
      progress evs' \<and> sends evs \<le> sends evs' + (length buf - sent)"
proof (induction evs arbitrary: sent wire)
  case Nil
  then show ?case by (subst write_all.simps) simp
next
  case (Cons e evs)
  show ?case
  proof (cases "sent < length buf")
    case False
    with Cons.prems show ?thesis by (subst write_all.simps) simp
  next
    case True
    show ?thesis
    proof (cases e)
      case (Sent n)
      let ?s = "sent + min n (length buf - sent)" and ?w = "wire @ take n (drop sent buf)"
      from Sent Cons.prems True have n: "0 < n" "progress evs" "length buf - ?s \<le> sends evs"
        by auto
      from Cons.IH [OF n(2,3), of ?w] obtain evs' where
        1: "write_all buf ?s ?w evs = Some (Inr (), ?w @ drop ?s buf, evs')"
        and 2: "progress evs'" "sends evs \<le> sends evs' + (length buf - ?s)" by auto
      have "write_all buf sent wire (e # evs) = Some (Inr (), wire @ drop sent buf, evs')"
        using 1 True Sent n(1) by (subst write_all.simps) (simp add: drop_segment del: drop_drop)
      with 2 n(1) True Sent show ?thesis by (intro exI [of _ evs']) auto
    next
      case Send_intr
      with Cons.IH [of sent wire] Cons.prems obtain evs' where
        "write_all buf sent wire evs = Some (Inr (), wire @ drop sent buf, evs')"
        "progress evs'" "sends evs \<le> sends evs' + (length buf - sent)" by auto
      with True Send_intr show ?thesis
        by (intro exI [of _ evs']) (subst write_all.simps; simp)
    next
      case (Send_fail m)
      with Cons.prems show ?thesis by simp
    qed
  qed
qed

lemma send_message_progress:
  assumes "progress evs" and "8 + length payload \<le> sends evs"
  shows "\<exists>evs'. send_message payload wire evs = Some (Inr (), wire @ frame payload, evs')"
proof -
  have "length (length_prefix payload) - 0 \<le> sends evs"
    using assms(2) by (simp add: length_prefix_def)
  from write_all_progress [OF assms(1) this] obtain evs1 where
    1: "write_all (length_prefix payload) 0 wire evs =
      Some (Inr (), wire @ length_prefix payload, evs1)"
    and "progress evs1" "sends evs \<le> sends evs1 + 8" by (auto simp: length_prefix_def)
  with assms(2) have "length payload - 0 \<le> sends evs1" by simp
  from write_all_progress [OF \<open>progress evs1\<close> this, of "wire @ length_prefix payload"]
  obtain evs2 where "write_all payload 0 (wire @ length_prefix payload) evs1 =
      Some (Inr (), (wire @ length_prefix payload) @ payload, evs2)" by auto
  with 1 show ?thesis by (simp add: send_message_def frame_def)
qed

lemma send_message_frame:
  assumes "send_message payload wire evs = Some (Inr (), wire', evs')"
  shows "wire' = wire @ frame payload"
  using assms
  by (auto simp: send_message_def frame_def split: option.splits sum.splits if_splits
      dest!: write_all_ok)

section \<open>Receiving\<close>

text \<open>
  \<open>Data bs\<close> is a segment that has arrived; \<open>recv\<close> takes at most the bytes asked for and leaves
  the rest. \<open>Data []\<close> is the return value 0, the peer's orderly shutdown.
\<close>

datatype recv_ev = Data bytes | Recv_intr | Recv_fail string

function read_all :: "nat \<Rightarrow> bool \<Rightarrow> bytes \<Rightarrow> recv_ev list \<Rightarrow>
    (bytes result \<times> recv_ev list) option" where
  "read_all len throw_on_eof_mid got evs =
     (if length got < len then
        (case evs of
           [] \<Rightarrow> None
         | Data bs # evs' \<Rightarrow>
             (if bs = [] then
                (if got = [] \<and> \<not> throw_on_eof_mid then Some (Inr [], evs')
                 else Some (throw (Runtime_error
                   ''recv failed: unexpected EOF from peer (truncated message)''), evs'))
              else if length bs \<le> len - length got
              then read_all len throw_on_eof_mid (got @ bs) evs'
              else read_all len throw_on_eof_mid (got @ take (len - length got) bs)
                (Data (drop (len - length got) bs) # evs'))
         | Recv_intr # evs' \<Rightarrow> read_all len throw_on_eof_mid got evs'
         | Recv_fail m # evs' \<Rightarrow> Some (throw (Runtime_error (''recv failed: '' @ m)), evs'))
      else Some (Inr got, evs))"
  by pat_completeness auto
termination
  by (relation "measure (\<lambda>(len, _, got, evs). (len - length got) + length evs)") auto

declare read_all.simps [simp del]

text \<open>
  \<open>std::vector<uint8_t> buf(len)\<close> rejects a length above \<open>max_size()\<close> (\<open>2^63 - 1\<close> bytes) and
  otherwise asks the allocator.
\<close>

definition alloc_buf :: "(nat \<Rightarrow> bool) \<Rightarrow> nat \<Rightarrow> unit result" where
  "alloc_buf alloc n =
     (if n > 2 ^ 63 - 1
      then throw (Length_error ''cannot create std::vector larger than max_size()'')
      else if alloc n then Inr () else throw Bad_alloc)"

definition recv_message :: "(nat \<Rightarrow> bool) \<Rightarrow> recv_ev list \<Rightarrow>
    (bytes result \<times> recv_ev list) option" where
  "recv_message alloc evs =
     (case read_all 8 True [] evs of
        None \<Rightarrow> None
      | Some (Inl e, evs1) \<Rightarrow> Some (Inl e, evs1)
      | Some (Inr net_len, evs1) \<Rightarrow>
          (if net_len = [] then Some (Inr [], evs1)
           else let len = unat (get_be net_len) in
             (case alloc_buf alloc len of
                Inl e \<Rightarrow> Some (Inl e, evs1)
              | Inr _ \<Rightarrow> (if len > 0 then read_all len True [] evs1 else Some (Inr [], evs1)))))"

fun content :: "recv_ev list \<Rightarrow> bytes" where
  "content [] = []"
| "content (Data bs # evs) = bs @ content evs"
| "content (_ # evs) = content evs"

fun live :: "recv_ev list \<Rightarrow> bool" where
  "live [] = True"
| "live (Data bs # evs) = (bs \<noteq> [] \<and> live evs)"
| "live (Recv_intr # evs) = live evs"
| "live (Recv_fail m # evs) = False"

lemma read_all_live:
  "live evs \<Longrightarrow> len - length got \<le> length (content evs) \<Longrightarrow> length got \<le> len \<Longrightarrow>
    \<exists>evs'. read_all len t got evs = Some (Inr (got @ take (len - length got) (content evs)), evs') \<and>
      live evs' \<and> content evs' = drop (len - length got) (content evs)"
proof (induction len t got evs rule: read_all.induct)
  case (1 len t got evs)
  show ?case
  proof (cases "length got < len")
    case False
    with "1.prems" show ?thesis by (subst read_all.simps) simp
  next
    case True
    show ?thesis
    proof (cases evs)
      case Nil
      with True "1.prems" show ?thesis by simp
    next
      case (Cons e es)
      show ?thesis
      proof (cases e)
        case (Data bs)
        with Cons "1.prems" have bs: "bs \<noteq> []" by simp
        show ?thesis
        proof (cases "length bs \<le> len - length got")
          case le: True
          show ?thesis
            using "1.IH"(1) [OF True Cons Data bs le] "1.prems" True Cons Data bs le
            by (subst read_all.simps) simp
        next
          case gt: False
          let ?k = "len - length got"
          have "drop ?k bs \<noteq> []" using gt by simp
          then show ?thesis
            using "1.IH"(2) [OF True Cons Data bs gt] "1.prems" True Cons Data bs gt
            by (subst read_all.simps) simp
        qed
      next
        case Recv_intr
        with "1.IH"(3) [OF True Cons] "1.prems" True Cons show ?thesis
          by (subst read_all.simps) simp
      next
        case (Recv_fail m)
        with "1.prems" Cons show ?thesis by simp
      qed
    qed
  qed
qed

lemma read_all_eof:
  "live evs \<Longrightarrow> length (content evs) < len - length got \<Longrightarrow>
    read_all len True got (evs @ Data [] # es) =
      Some (throw (Runtime_error ''recv failed: unexpected EOF from peer (truncated message)''), es)"
proof (induction evs arbitrary: got)
  case Nil
  then show ?case by (subst read_all.simps) simp
next
  case (Cons e evs)
  then have True: "length got < len" by auto
  with Cons show ?case
    by (cases e) (subst read_all.simps; simp)+
qed

text \<open>A peer that closes the connection inside a message is reported, never a shorter message.\<close>

lemma read_all_append:
  "read_all len t got evs = Some (r, evs') \<Longrightarrow>
    read_all len t got (evs @ tail) = Some (r, evs' @ tail)"
proof (induction len t got evs rule: read_all.induct)
  case (1 len t got evs)
  show ?case
  proof (cases "length got < len \<and> evs \<noteq> []")
    case False
    with "1.prems" show ?thesis
      by (subst read_all.simps, subst (asm) read_all.simps) (auto split: if_splits)
  next
    case True
    then obtain e es where lt: "length got < len" and evs: "evs = e # es" by (cases evs) auto
    show ?thesis
    proof (cases e)
      case (Data bs)
      consider "bs = []" | "bs \<noteq> []" "length bs \<le> len - length got"
        | "bs \<noteq> []" "\<not> length bs \<le> len - length got" by blast
      then show ?thesis
      proof cases
        case 1
        with "1.prems" lt evs Data show ?thesis
          by (subst read_all.simps, subst (asm) read_all.simps) (auto split: if_splits)
      next
        case 2
        with "1.prems" lt evs Data have "read_all len t (got @ bs) es = Some (r, evs')"
          by (subst (asm) read_all.simps) simp
        from "1.IH"(1) [OF lt evs Data 2 this] show ?thesis
          using lt evs Data 2 by (subst read_all.simps) simp
      next
        case 3
        let ?k = "len - length got"
        from 3 "1.prems" lt evs Data have
          "read_all len t (got @ take ?k bs) (Data (drop ?k bs) # es) = Some (r, evs')"
          by (subst (asm) read_all.simps) simp
        from "1.IH"(2) [OF lt evs Data 3 this] show ?thesis
          using lt evs Data 3 by (subst read_all.simps) simp
      qed
    next
      case Recv_intr
      with "1.prems" lt evs have "read_all len t got es = Some (r, evs')"
        by (subst (asm) read_all.simps) simp
      from "1.IH"(3) [OF lt evs Recv_intr this] show ?thesis
        using lt evs Recv_intr by (subst read_all.simps) simp
    next
      case (Recv_fail m)
      with "1.prems" lt evs show ?thesis
        by (subst read_all.simps, subst (asm) read_all.simps) simp
    qed
  qed
qed

section \<open>A channel of messages\<close>

text \<open>
  What the client and the server rely on: however the bytes of a frame are cut into segments,
  one receive returns one message and leaves the bytes of the next.
\<close>

fun receive_many :: "('ev \<Rightarrow> (bytes result \<times> 'ev) option) \<Rightarrow> nat \<Rightarrow> 'ev \<Rightarrow>
    (bytes list \<times> 'ev) option" where
  "receive_many rcv 0 evs = Some ([], evs)"
| "receive_many rcv (Suc n) evs =
     (case rcv evs of
        Some (Inr m, evs') \<Rightarrow> map_option (\<lambda>(ms, evs''). (m # ms, evs'')) (receive_many rcv n evs')
      | _ \<Rightarrow> None)"

locale message_channel =
  fixes enframe :: "bytes \<Rightarrow> bytes"
    and rcv :: "'ev \<Rightarrow> (bytes result \<times> 'ev) option"
    and pending :: "'ev \<Rightarrow> bytes"
    and open_ch :: "'ev \<Rightarrow> bool"
    and deliverable :: "bytes \<Rightarrow> bool"
  assumes rcv_frame: "open_ch evs \<Longrightarrow> pending evs = enframe m @ rest \<Longrightarrow> deliverable m \<Longrightarrow>
    \<exists>evs'. rcv evs = Some (Inr m, evs') \<and> open_ch evs' \<and> pending evs' = rest"
begin

lemma rcv_frames:
  "open_ch evs \<Longrightarrow> pending evs = concat (map enframe ms) @ rest \<Longrightarrow> list_all deliverable ms \<Longrightarrow>
    \<exists>evs'. receive_many rcv (length ms) evs = Some (ms, evs') \<and> open_ch evs' \<and> pending evs' = rest"
proof (induction ms arbitrary: evs)
  case Nil
  then show ?case by simp
next
  case (Cons m ms)
  then obtain evs1 where 1: "rcv evs = Some (Inr m, evs1)" "open_ch evs1"
    "pending evs1 = concat (map enframe ms) @ rest"
    using rcv_frame [of evs m "concat (map enframe ms) @ rest"] by auto
  with Cons.IH [of evs1] Cons.prems show ?case by auto
qed

end

definition deliverable :: "(nat \<Rightarrow> bool) \<Rightarrow> bytes \<Rightarrow> bool" where
  "deliverable alloc m \<longleftrightarrow> length m < 2 ^ 63 \<and> alloc (length m)"

lemma unat_get_be_prefix:
  "length m < 2 ^ 64 \<Longrightarrow> unat (get_be (length_prefix m)) = length m"
  by (simp add: length_prefix_def unat_of_nat)

lemma recv_message_frame:
  assumes "live evs" and "content evs = frame m @ rest" and "deliverable alloc m"
  shows "\<exists>evs'. recv_message alloc evs = Some (Inr m, evs') \<and> live evs' \<and> content evs' = rest"
proof -
  have len: "unat (get_be (length_prefix m)) = length m"
    using assms(3) by (intro unat_get_be_prefix) (simp add: deliverable_def)
  have p8: "length (length_prefix m) = 8"
    by (simp add: length_prefix_def)
  then have nn: "length_prefix m \<noteq> []" by auto
  from read_all_live [OF assms(1), of 8 "[]" True] assms(2) obtain evs1 where
    1: "read_all 8 True [] evs = Some (Inr (length_prefix m), evs1)" "live evs1"
      "content evs1 = m @ rest"
    using p8 by (auto simp: frame_def)
  have al: "alloc_buf alloc (length m) = Inr ()"
    using assms(3) by (simp add: deliverable_def alloc_buf_def)
  show ?thesis
  proof (cases "m = []")
    case True
    with 1 al len nn show ?thesis by (simp add: recv_message_def Let_def)
  next
    case False
    from read_all_live [OF 1(2), of "length m" "[]" True] 1(3) obtain evs2 where
      "read_all (length m) True [] evs1 = Some (Inr m, evs2)" "live evs2" "content evs2 = rest"
      by auto
    with 1 al len nn False show ?thesis by (simp add: recv_message_def Let_def)
  qed
qed

interpretation tcp: message_channel frame "recv_message alloc" content live "deliverable alloc"
  for alloc
  by unfold_locales (rule recv_message_frame)

lemma recv_message_truncated:
  assumes "live evs" and "content evs = take k (frame m)" and "k < length (frame m)"
    and "deliverable alloc m"
  shows "recv_message alloc (evs @ Data [] # es) = Some (throw (Runtime_error
    ''recv failed: unexpected EOF from peer (truncated message)''), es)"
proof (cases "k < 8")
  case True
  then have "length (content evs) < 8 - length []"
    using assms(2) by simp
  from read_all_eof [OF assms(1) this] show ?thesis
    by (simp add: recv_message_def)
next
  case False
  have p8: "length (length_prefix m) = 8"
    by (simp add: length_prefix_def)
  have len: "unat (get_be (length_prefix m)) = length m"
    using assms(4) by (intro unat_get_be_prefix) (simp add: deliverable_def)
  have c: "content evs = length_prefix m @ take (k - 8) m" and k: "k - 8 < length m"
    using False assms(2,3) p8 by (simp_all add: frame_def)
  from read_all_live [OF assms(1), of 8 "[]" True] c p8 obtain evs1 where
    1: "read_all 8 True [] evs = Some (Inr (length_prefix m), evs1)" "live evs1"
      "content evs1 = take (k - 8) m" by auto
  have "length (content evs1) < length m - length []"
    using 1(3) k by simp
  from read_all_append [OF 1(1)] read_all_eof [OF 1(2) this] show ?thesis
    using p8 len k assms(4)
    by (auto simp: recv_message_def Let_def deliverable_def alloc_buf_def)
qed

end
