(* ===== verification/Sockets.thy ===== *)
theory Sockets
  imports Tcp_Framing
begin

text \<open>
  \<open>tcp_transport.cpp\<close>, \<open>server_main.cpp\<close>: who closes which file descriptor. The kernel is the
  list of open descriptors and a count of closes of descriptors that were not open; a new
  descriptor is the lowest free number, as POSIX prescribes. \<open>Socket\<close>, \<open>TCPServer\<close> and
  \<open>TCPClient\<close> own a descriptor each, the accept loop of a server hands one to a detached thread.
\<close>

section \<open>The kernel's descriptor table\<close>

record kernel =
  k_open :: "int list"
  k_bad :: nat

definition lowest_free :: "int list \<Rightarrow> int" where
  "lowest_free fds = int (hd (filter (\<lambda>n. int n \<notin> set fds) [0..<Suc (length fds)]))"

definition sys_open :: "kernel \<Rightarrow> int \<times> kernel" where
  "sys_open k = (let fd = lowest_free (k_open k) in (fd, k\<lparr>k_open := fd # k_open k\<rparr>))"

definition sys_close :: "int \<Rightarrow> kernel \<Rightarrow> kernel" where
  "sys_close fd k =
     (if fd \<in> set (k_open k) then k\<lparr>k_open := remove1 fd (k_open k)\<rparr>
      else k\<lparr>k_bad := Suc (k_bad k)\<rparr>)"

lemma lowest_free_fresh: "0 \<le> lowest_free fds" "lowest_free fds \<notin> set fds"
proof -
  let ?c = "filter (\<lambda>n. int n \<notin> set fds) [0..<Suc (length fds)]"
  have "?c \<noteq> []"
  proof
    assume "?c = []"
    then have "int ` set [0..<Suc (length fds)] \<subseteq> set fds"
      unfolding filter_empty_conv by blast
    then have "int ` {0..<Suc (length fds)} \<subseteq> set fds"
      by (simp only: set_upt)
    then have "card (int ` {0..<Suc (length fds)}) \<le> card (set fds)"
      by (intro card_mono) auto
    then show False
      using card_length [of fds] by (simp add: card_image)
  qed
  then have "hd ?c \<in> set ?c" by (rule hd_in_set)
  then have "int (hd ?c) \<notin> set fds" unfolding set_filter by blast
  then show "lowest_free fds \<notin> set fds" unfolding lowest_free_def .
qed (simp add: lowest_free_def)

lemma sys_open_fresh:
  assumes "sys_open k = (fd, k')"
  shows "0 \<le> fd" "fd \<notin> set (k_open k)" "k_open k' = fd # k_open k" "k_bad k' = k_bad k"
  using assms lowest_free_fresh [of "k_open k"] by (auto simp: sys_open_def Let_def)

lemma sys_close_open [simp]:
  "sys_open k = (fd, k') \<Longrightarrow> sys_close fd k' = k"
  by (auto simp: sys_close_def sys_open_def Let_def)

section \<open>\<open>Socket\<close>\<close>

text \<open>
  An object of the class is its field \<open>fd_\<close>. \<open>socket_move_assign this other\<close> returns both objects
  after \<open>this = std::move(other)\<close>, for two distinct objects; \<open>self\<close> tells that they are the same.
\<close>

definition socket_new :: int where
  "socket_new = -1"

definition socket_valid :: "int \<Rightarrow> bool" where
  "socket_valid fd \<longleftrightarrow> 0 \<le> fd"

definition socket_move :: "int \<Rightarrow> int \<times> int" where
  "socket_move other = (other, -1)"

definition socket_close :: "int \<Rightarrow> kernel \<Rightarrow> int \<times> kernel" where
  "socket_close fd k = (if fd \<ge> 0 then (-1, sys_close fd k) else (fd, k))"

definition socket_move_assign :: "bool \<Rightarrow> int \<Rightarrow> int \<Rightarrow> kernel \<Rightarrow> int \<times> int \<times> kernel" where
  "socket_move_assign self this other k =
     (if \<not> self then (let (_, k') = socket_close this k in (other, -1, k'))
      else (this, other, k))"

definition socket_release :: "int \<Rightarrow> int \<times> int" where
  "socket_release fd = (fd, -1)"

lemma socket_close_twice:
  "socket_close fd k = (fd', k') \<Longrightarrow> socket_close fd' k' = (fd', k')"
  by (auto simp: socket_close_def split: if_splits)

section \<open>\<open>TCPServer\<close> and \<open>TCPClient\<close>\<close>

text \<open>
  One candidate of \<open>getaddrinfo\<close>: whether \<open>socket\<close> succeeds on it and whether \<open>bind\<close>
  (\<open>connect\<close> in the client) then returns 0.
\<close>

record addr_try =
  at_socket :: bool
  at_done :: bool

datatype sockname = Inet byte byte | Inet6 byte byte | Other_family

record listen_env =
  le_gai :: "string option"
  le_addrs :: "addr_try list"
  le_listen :: "string option"
  le_sockname :: "sockname option"

record tcp_server =
  listen_fd :: int
  bound_port :: "16 word"

fun try_addrs :: "addr_try list \<Rightarrow> kernel \<Rightarrow> int \<times> kernel" where
  "try_addrs [] k = (-1, k)"
| "try_addrs (a # as) k =
     (if \<not> at_socket a then try_addrs as k
      else (let (fd, k1) = sys_open k in
        if at_done a then (fd, k1) else try_addrs as (sys_close fd k1)))"

definition ntohs :: "byte \<Rightarrow> byte \<Rightarrow> 16 word" where
  "ntohs hi lo = push_bit 8 (ucast hi) OR ucast lo"

definition port_of_sockname :: "sockname option \<Rightarrow> 16 word" where
  "port_of_sockname s = (case s of
      Some (Inet hi lo) \<Rightarrow> ntohs hi lo
    | Some (Inet6 hi lo) \<Rightarrow> ntohs hi lo
    | _ \<Rightarrow> 0)"

definition tcp_server_new :: "listen_env \<Rightarrow> string \<Rightarrow> 16 word \<Rightarrow> kernel \<Rightarrow>
    tcp_server result \<times> kernel" where
  "tcp_server_new env host port k =
     (case le_gai env of
        Some err \<Rightarrow> (throw (Runtime_error (''getaddrinfo failed: '' @ err)), k)
      | None \<Rightarrow>
          (let (fd, k1) = try_addrs (le_addrs env) k in
           if fd < 0
           then (throw (Runtime_error
             (''bind to '' @ host @ '':'' @ dec_str (unat port) @ '' failed'')), k1)
           else (case le_listen env of
               Some err \<Rightarrow> (throw (Runtime_error (''listen failed: '' @ err)), sys_close fd k1)
             | None \<Rightarrow>
                 (let p = port_of_sockname (le_sockname env);
                      p' = (if p = 0 then port else p)
                  in (Inr \<lparr>listen_fd = fd, bound_port = p'\<rparr>, k1)))))"

datatype accept_res = Accepted | Accept_intr | Accept_fail string

fun accept_loop :: "kernel \<Rightarrow> accept_res list \<Rightarrow>
    (int result \<times> kernel \<times> accept_res list) option" where
  "accept_loop k [] = None"
| "accept_loop k (Accept_intr # evs) = accept_loop k evs"
| "accept_loop k (Accept_fail err # evs) =
     Some (throw (Runtime_error (''accept failed: '' @ err)), k, evs)"
| "accept_loop k (Accepted # evs) = (let (fd, k') = sys_open k in Some (Inr fd, k', evs))"

definition server_accept :: "tcp_server \<Rightarrow> kernel \<Rightarrow> accept_res list \<Rightarrow>
    (int result \<times> kernel \<times> accept_res list) option" where
  "server_accept srv k evs =
     (if listen_fd srv < 0
      then Some (throw (Runtime_error ''accept called on closed server''), k, evs)
      else accept_loop k evs)"

definition server_close :: "tcp_server \<Rightarrow> kernel \<Rightarrow> tcp_server \<times> kernel" where
  "server_close srv k =
     (if listen_fd srv \<ge> 0 then (srv\<lparr>listen_fd := -1\<rparr>, sys_close (listen_fd srv) k)
      else (srv, k))"

text \<open>\<open>sock\<close> is the client's \<open>sock_\<close>; the fresh \<open>Socket(fd)\<close> is moved into it.\<close>

definition client_connect :: "string option \<Rightarrow> addr_try list \<Rightarrow> string \<Rightarrow> 16 word \<Rightarrow> int \<Rightarrow>
    kernel \<Rightarrow> int result \<times> kernel" where
  "client_connect gai addrs host port sock k =
     (if socket_valid sock
      then (throw (Runtime_error ''TCPClient::connect called while already connected''), k)
      else (case gai of
          Some err \<Rightarrow> (throw (Runtime_error (''getaddrinfo failed: '' @ err)), k)
        | None \<Rightarrow>
            (let (fd, k1) = try_addrs addrs k in
             if fd < 0
             then (throw (Runtime_error
               (''connect to '' @ host @ '':'' @ dec_str (unat port) @ '' failed'')), k1)
             else (let (sock', _, k2) = socket_move_assign False sock fd k1 in (Inr sock', k2)))))"

lemma try_addrs_owns:
  "try_addrs as k = (fd, k') \<Longrightarrow>
    (fd < 0 \<and> k' = k) \<or> (0 \<le> fd \<and> sys_open k = (fd, k'))"
proof (induction as arbitrary: k)
  case Nil
  then show ?case by simp
next
  case (Cons a as)
  obtain f k1 where o: "sys_open k = (f, k1)" by (cases "sys_open k")
  note fresh = sys_open_fresh(1) [OF o] and closed = sys_close_open [OF o]
  consider "\<not> at_socket a" | "at_socket a" "at_done a" | "at_socket a" "\<not> at_done a" by blast
  then show ?case
  proof cases
    case 1
    with Cons show ?thesis by simp
  next
    case 2
    with Cons.prems o fresh show ?thesis by simp
  next
    case 3
    with Cons.prems o closed have "try_addrs as k = (fd, k')" by simp
    from Cons.IH [OF this] show ?thesis .
  qed
qed

text \<open>A constructor that throws leaves the descriptor table as it found it.\<close>

lemma tcp_server_new_owns:
  assumes "tcp_server_new env host port k = (r, k')"
  shows "case r of
      Inl _ \<Rightarrow> k' = k
    | Inr srv \<Rightarrow> sys_open k = (listen_fd srv, k') \<and> (port \<noteq> 0 \<longrightarrow> bound_port srv \<noteq> 0)"
proof -
  obtain fd k1 where t: "try_addrs (le_addrs env) k = (fd, k1)"
    by (cases "try_addrs (le_addrs env) k")
  from assms try_addrs_owns [OF t] show ?thesis
    by (auto simp: tcp_server_new_def t Let_def split: option.splits if_splits)
qed

lemma client_connect_owns:
  assumes "client_connect gai addrs host port sock k = (r, k')"
  shows "case r of Inl _ \<Rightarrow> k' = k | Inr fd \<Rightarrow> sys_open k = (fd, k')"
proof -
  obtain fd k1 where t: "try_addrs addrs k = (fd, k1)"
    by (cases "try_addrs addrs k")
  from assms try_addrs_owns [OF t] show ?thesis
    by (auto simp: client_connect_def t Let_def socket_move_assign_def socket_close_def
        socket_valid_def split: option.splits if_splits)
qed

section \<open>The accept loop of a server\<close>

text \<open>
  \<open>main\<close> of every server: \<open>client = srv.accept()\<close>, \<open>release()\<close>, a detached thread that runs the
  handler and closes the descriptor. \<open>m_lost\<close> collects a descriptor that was released when the
  constructor of \<open>std::thread\<close> throws.
\<close>

record main_state =
  m_kernel :: kernel
  m_srv :: tcp_server
  m_threads :: "int list"
  m_lost :: "int list"
  m_running :: bool

definition accept_into :: "int \<Rightarrow> kernel \<Rightarrow> int \<times> kernel" where
  "accept_into fd k =
     (let client = socket_new;
          (client', tmp, k1) = socket_move_assign False client fd k;
          (_, k2) = socket_close tmp k1
      in (client', k2))"

inductive main_step :: "main_state \<Rightarrow> main_state \<Rightarrow> bool" where
  spawn: "m_running s \<Longrightarrow>
    server_accept (m_srv s) (m_kernel s) evs = Some (Inr fd, k, rest) \<Longrightarrow>
    accept_into fd k = (client, k') \<Longrightarrow> socket_release client = (fd', client') \<Longrightarrow>
    socket_close client' k' = (client'', k'') \<Longrightarrow>
    main_step s (s\<lparr>m_kernel := k'', m_threads := fd' # m_threads s\<rparr>)"
| spawn_fails: "m_running s \<Longrightarrow>
    server_accept (m_srv s) (m_kernel s) evs = Some (Inr fd, k, rest) \<Longrightarrow>
    accept_into fd k = (client, k') \<Longrightarrow> socket_release client = (fd', client') \<Longrightarrow>
    socket_close client' k' = (client'', k'') \<Longrightarrow>
    server_close (m_srv s) k'' = (srv', k3) \<Longrightarrow>
    main_step s (s\<lparr>m_kernel := k3, m_srv := srv', m_lost := fd' # m_lost s, m_running := False\<rparr>)"
| accept_fails: "m_running s \<Longrightarrow>
    server_accept (m_srv s) (m_kernel s) evs = Some (Inl (Throw e), k, rest) \<Longrightarrow>
    server_close (m_srv s) k = (srv', k') \<Longrightarrow>
    main_step s (s\<lparr>m_kernel := k', m_srv := srv', m_running := False\<rparr>)"
| handler_ends: "fd \<in> set (m_threads s) \<Longrightarrow>
    main_step s (s\<lparr>m_kernel := sys_close fd (m_kernel s), m_threads := remove1 fd (m_threads s)\<rparr>)"

inductive main_reach :: "main_state \<Rightarrow> main_state \<Rightarrow> bool" where
  main_start: "main_reach s s"
| main_next: "main_reach s t \<Longrightarrow> main_step t u \<Longrightarrow> main_reach s u"

definition main_init :: "tcp_server \<Rightarrow> kernel \<Rightarrow> main_state" where
  "main_init srv k =
     \<lparr>m_kernel = k, m_srv = srv, m_threads = [], m_lost = [], m_running = True\<rparr>"

text \<open>
  Every descriptor that the program has opened (\<open>base\<close> are those that were open before) has one
  owner, and no descriptor was closed that was not open.
\<close>

definition one_owner :: "int list \<Rightarrow> nat \<Rightarrow> main_state \<Rightarrow> bool" where
  "one_owner base bad s \<longleftrightarrow>
     mset (k_open (m_kernel s)) =
       mset base + mset (m_threads s) + mset (m_lost s) +
       (if listen_fd (m_srv s) \<ge> 0 then {#listen_fd (m_srv s)#} else {#}) \<and>
     distinct (k_open (m_kernel s)) \<and> k_bad (m_kernel s) = bad \<and>
     (m_running s \<longrightarrow> listen_fd (m_srv s) \<ge> 0 \<and> m_lost s = []) \<and>
     (\<not> m_running s \<longrightarrow> listen_fd (m_srv s) < 0)"

lemma accept_loop_opens:
  "accept_loop k evs = Some (r, k', rest) \<Longrightarrow>
    (case r of Inl _ \<Rightarrow> k' = k | Inr fd \<Rightarrow> sys_open k = (fd, k'))"
  by (induction k evs rule: accept_loop.induct) (auto split: prod.splits)

lemma server_accept_opens:
  "server_accept srv k evs = Some (r, k', rest) \<Longrightarrow>
    (case r of Inl _ \<Rightarrow> k' = k | Inr fd \<Rightarrow> sys_open k = (fd, k'))"
  by (auto simp: server_accept_def split: if_splits dest: accept_loop_opens)

lemma accept_iteration [simp]:
  "accept_into fd k = (fd, k)" "socket_release fd = (fd, -1)" "socket_close (-1) k = (-1, k)"
  by (simp_all add: accept_into_def socket_new_def socket_move_assign_def socket_close_def
      socket_release_def)

lemma mset_k_open_close:
  "fd \<in> set (k_open k) \<Longrightarrow> mset (k_open (sys_close fd k)) = mset (k_open k) - {#fd#} \<and>
    k_bad (sys_close fd k) = k_bad k \<and> (distinct (k_open k) \<longrightarrow> distinct (k_open (sys_close fd k)))"
  by (simp add: sys_close_def)

lemma one_owner_open:
  assumes "one_owner base bad s" and "sys_open (m_kernel s) = (fd, k')"
  shows "mset (k_open k') = add_mset fd (mset (k_open (m_kernel s)))" "distinct (k_open k')"
    "k_bad k' = bad"
  using assms sys_open_fresh [OF assms(2)] by (auto simp: one_owner_def)

lemma server_close_owned:
  assumes "listen_fd srv \<in># mset (k_open k)" and "0 \<le> listen_fd srv" and "distinct (k_open k)"
    and "server_close srv k = (srv', k')"
  shows "mset (k_open k') = mset (k_open k) - {#listen_fd srv#} \<and> k_bad k' = k_bad k \<and>
    distinct (k_open k') \<and> listen_fd srv' < 0"
  using assms mset_k_open_close [of "listen_fd srv" k] by (auto simp: server_close_def)

lemma one_owner_spawn:
  assumes "one_owner base bad s" "m_running s"
    and "server_accept (m_srv s) (m_kernel s) evs = Some (Inr fd, k, rest)"
  shows "one_owner base bad (s\<lparr>m_kernel := k, m_threads := fd # m_threads s\<rparr>)"
  using one_owner_open [OF assms(1)] server_accept_opens [OF assms(3)] assms(1,2)
  by (auto simp: one_owner_def)

lemma one_owner_step:
  assumes "main_step s t" and "one_owner base bad s"
  shows "one_owner base bad t"
  using assms(1)
proof (cases rule: main_step.cases)
  case (spawn evs fd k rest client k' fd' client' client'' k'')
  then have "k'' = k" "fd' = fd" by auto
  with spawn show ?thesis
    using one_owner_spawn [OF assms(2)] by simp
next
  case (spawn_fails evs fd k rest client k' fd' client' client'' k'' srv' k3)
  then have t: "t = s\<lparr>m_kernel := k3, m_srv := srv', m_lost := fd # m_lost s, m_running := False\<rparr>"
    and cl: "server_close (m_srv s) k = (srv', k3)" by auto
  have own: "one_owner base bad (s\<lparr>m_kernel := k, m_threads := fd # m_threads s\<rparr>)"
    using spawn_fails one_owner_spawn [OF assms(2)] by simp
  then have "0 \<le> listen_fd (m_srv s)" "listen_fd (m_srv s) \<in># mset (k_open k)" "distinct (k_open k)"
    using spawn_fails(2) by (auto simp: one_owner_def)
  from server_close_owned [OF this(2,1,3) cl] own this show ?thesis
    by (auto simp: one_owner_def t)
next
  case (accept_fails evs e k rest srv' k')
  then have k: "k = m_kernel s"
    using server_accept_opens by fastforce
  have "0 \<le> listen_fd (m_srv s)" "listen_fd (m_srv s) \<in># mset (k_open k)" "distinct (k_open k)"
    using accept_fails(2) assms(2) k by (auto simp: one_owner_def)
  from server_close_owned [OF this(2,1,3) accept_fails(4)] assms(2) this show ?thesis
    using accept_fails(1,2) k by (auto simp: one_owner_def)
next
  case (handler_ends fd)
  then have "fd \<in> set (k_open (m_kernel s))"
    using assms(2) by (metis (no_types, lifting) one_owner_def in_multiset_in_set union_iff)
  from mset_k_open_close [OF this] handler_ends assms(2) show ?thesis
    by (auto simp: one_owner_def)
qed

lemma one_owner_reach:
  "main_reach s t \<Longrightarrow> one_owner base bad s \<Longrightarrow> one_owner base bad t"
  by (induction rule: main_reach.induct) (use one_owner_step in blast)+

lemma one_owner_init:
  assumes "tcp_server_new env host port k = (Inr srv, k')" and "distinct (k_open k)"
  shows "one_owner (k_open k) (k_bad k) (main_init srv k')"
proof -
  have "sys_open k = (listen_fd srv, k')"
    using tcp_server_new_owns [OF assms(1)] by simp
  from sys_open_fresh [OF this] assms(2) show ?thesis
    by (auto simp: one_owner_def main_init_def)
qed

end
