(* ===== verification/Messages.thy ===== *)
theory Messages
  imports Tcp_Framing
begin

text \<open>
  The requests and responses of the four prototypes, as their clients and servers write and read
  them (\<open>client_main.cpp\<close>, \<open>server_main.cpp\<close>). A message is a sequence of the fields of
  \<open>Wire_Format\<close>; the locales below state what both ends rely on.
\<close>

section \<open>The contract of a message format\<close>

locale message_encoding =
  fixes build :: "'m \<Rightarrow> bytes"
    and parse :: "bytes \<Rightarrow> 'm result"
    and ok :: "'m \<Rightarrow> bool"
  assumes parse_build: "ok m \<Longrightarrow> length (build m) < 2 ^ 64 \<Longrightarrow> parse (build m) = Inr m"
begin

lemma build_inject:
  "ok m \<Longrightarrow> ok n \<Longrightarrow> length (build m) < 2 ^ 64 \<Longrightarrow> build m = build n \<Longrightarrow> m = n"
  by (metis parse_build sum.inject(2))

text \<open>One message over the transport, whatever way its bytes are cut into segments.\<close>

lemma delivered:
  assumes "live evs" and "content evs = frame (build m) @ rest" and "ok m"
    and "deliverable alloc (build m)"
  shows "\<exists>evs'. recv_message alloc evs = Some (Inr (build m), evs') \<and> parse (build m) = Inr m \<and>
    live evs' \<and> content evs' = rest"
proof -
  have "length (build m) < 2 ^ 64"
    using assms(4) by (simp add: deliverable_def)
  then show ?thesis
    using tcp.rcv_frame [OF assms(1,2,4)] parse_build [OF assms(3)] by blast
qed

end

text \<open>A canonical format accepts nothing but the encodings of what it can carry.\<close>

locale canonical_format = message_encoding +
  assumes build_parse: "length b < 2 ^ 64 \<Longrightarrow> parse b = Inr m \<Longrightarrow> ok m \<and> b = build m"
begin

lemma accepts_iff:
  "length b < 2 ^ 64 \<Longrightarrow> parse b = Inr m \<longleftrightarrow> ok m \<and> b = build m"
  using build_parse parse_build by blast

end

section \<open>Requests\<close>

record request =
  rq_nonce :: bytes
  rq_keys :: "bytes list"
  rq_cts :: "bytes list"
  rq_workload :: string

record gpu_request = request +
  rq_public_key :: bytes

definition build_request :: "request \<Rightarrow> bytes" where
  "build_request q = wr_buf
     (write_string (rq_workload q)
     (fold write_blob (rq_cts q)
     (write_u32_be (of_nat (length (rq_cts q)))
     (fold write_blob (rq_keys q)
     (write_u32_be (of_nat (length (rq_keys q)))
     (write_blob (rq_nonce q) writer_new))))))"

definition gpu_build_request :: "gpu_request \<Rightarrow> bytes" where
  "gpu_build_request q = wr_buf
     (write_string (rq_workload q)
     (fold write_blob (rq_cts q)
     (write_u32_be (of_nat (length (rq_cts q)))
     (fold write_blob (rq_keys q)
     (write_u32_be (of_nat (length (rq_keys q)))
     (write_blob (rq_public_key q)
     (write_blob (rq_nonce q) writer_new)))))))"

definition parse_request_with :: "string \<Rightarrow> string \<Rightarrow> (nat \<Rightarrow> bool) \<Rightarrow> bytes \<Rightarrow> request result" where
  "parse_request_with trunc trailing alloc req =
     bind_r (read_blob (reader_new trunc req)) (\<lambda>(nonce, r1).
     bind_r (read_counted alloc r1) (\<lambda>(keys, r2).
     bind_r (read_counted alloc r2) (\<lambda>(cts, r3).
     bind_r (read_string r3) (\<lambda>(wid, r4).
     if remaining r4 \<noteq> 0 then throw (Runtime_error trailing)
     else Inr \<lparr>rq_nonce = nonce, rq_keys = keys, rq_cts = cts, rq_workload = wid\<rparr>))))"

definition parse_request :: "(nat \<Rightarrow> bool) \<Rightarrow> bytes \<Rightarrow> request result" where
  "parse_request = parse_request_with ''request truncated'' ''trailing bytes in request''"

definition zk_parse_request :: "(nat \<Rightarrow> bool) \<Rightarrow> bytes \<Rightarrow> request result" where
  "zk_parse_request = parse_request_with ''truncated'' ''trailing bytes''"

definition gpu_parse_request :: "(nat \<Rightarrow> bool) \<Rightarrow> bytes \<Rightarrow> gpu_request result" where
  "gpu_parse_request alloc req =
     bind_r (read_blob (reader_new ''request truncated'' req)) (\<lambda>(nonce, r0).
     bind_r (read_blob r0) (\<lambda>(pk, r1).
     bind_r (read_counted alloc r1) (\<lambda>(keys, r2).
     bind_r (read_counted alloc r2) (\<lambda>(cts, r3).
     bind_r (read_string r3) (\<lambda>(wid, r4).
     if remaining r4 \<noteq> 0 then throw (Runtime_error ''trailing bytes in request'')
     else Inr \<lparr>rq_nonce = nonce, rq_keys = keys, rq_cts = cts, rq_workload = wid,
       rq_public_key = pk\<rparr>)))))"

definition request_ok :: "(nat \<Rightarrow> bool) \<Rightarrow> 'a request_scheme \<Rightarrow> bool" where
  "request_ok alloc q \<longleftrightarrow> counted_ok alloc (rq_keys q) \<and> counted_ok alloc (rq_cts q)"

section \<open>Responses\<close>

record response =
  rs_output :: bytes
  rs_transcript :: string
  rs_quote :: bytes

record gpu_response = response +
  rs_gpu_evidence :: bytes

record zk_response =
  zs_output :: bytes
  zs_transcript :: string
  zs_proof :: bytes
  zs_public_inputs :: bytes
  zs_vk :: bytes

definition build_response :: "response \<Rightarrow> bytes" where
  "build_response p = wr_buf
     (write_blob (rs_quote p) (write_string (rs_transcript p)
     (write_blob (rs_output p) writer_new)))"

definition gpu_build_response :: "gpu_response \<Rightarrow> bytes" where
  "gpu_build_response p = wr_buf
     (write_blob (rs_quote p) (write_blob (rs_gpu_evidence p) (write_string (rs_transcript p)
     (write_blob (rs_output p) writer_new))))"

definition zk_build_response :: "zk_response \<Rightarrow> bytes" where
  "zk_build_response p = wr_buf
     (write_blob (zs_vk p) (write_blob (zs_public_inputs p) (write_blob (zs_proof p)
     (write_string (zs_transcript p) (write_blob (zs_output p) writer_new)))))"

definition error_json :: "string \<Rightarrow> string" where
  "error_json msg = CHR ''{'' # CHR 0x22 # ''error'' @ [CHR 0x22, CHR '':'', CHR 0x22] @ msg @
     [CHR 0x22, CHR ''}'']"

definition build_error_response :: "string \<Rightarrow> bytes" where
  "build_error_response msg = wr_buf
     (write_blob [] (write_string (error_json msg) (write_blob [] writer_new)))"

definition zk_build_error_response :: "string \<Rightarrow> bytes" where
  "zk_build_error_response msg = wr_buf
     (write_blob [] (write_blob [] (write_blob [] (write_string (error_json msg)
     (write_blob [] writer_new)))))"

text \<open>
  The clients read the fields in order; \<open>tee-vfhe\<close>, \<open>tee-vfhe-bgvrns\<close> and \<open>zk-vfhe\<close> then refuse
  trailing bytes by returning 1, which is an exception of the client's own here.
\<close>

definition parse_response :: "bytes \<Rightarrow> response result" where
  "parse_response resp =
     bind_r (read_blob (reader_new ''response truncated'' resp)) (\<lambda>(out, r1).
     bind_r (read_string r1) (\<lambda>(tj, r2).
     bind_r (read_blob r2) (\<lambda>(quote, r3).
     if remaining r3 \<noteq> 0 then throw (Runtime_error ''trailing bytes in response'')
     else Inr \<lparr>rs_output = out, rs_transcript = tj, rs_quote = quote\<rparr>)))"

definition gpu_parse_response :: "bytes \<Rightarrow> gpu_response result" where
  "gpu_parse_response resp =
     bind_r (read_blob (reader_new ''response truncated'' resp)) (\<lambda>(out, r1).
     bind_r (read_string r1) (\<lambda>(tj, r2).
     bind_r (read_blob r2) (\<lambda>(ev, r3).
     bind_r (read_blob r3) (\<lambda>(quote, r4).
     Inr \<lparr>rs_output = out, rs_transcript = tj, rs_quote = quote, rs_gpu_evidence = ev\<rparr>))))"

definition zk_parse_response :: "bytes \<Rightarrow> zk_response result" where
  "zk_parse_response resp =
     bind_r (read_blob (reader_new ''truncated'' resp)) (\<lambda>(out, r1).
     bind_r (read_string r1) (\<lambda>(tj, r2).
     bind_r (read_blob r2) (\<lambda>(pf, r3).
     bind_r (read_blob r3) (\<lambda>(pi, r4).
     bind_r (read_blob r4) (\<lambda>(vk, r5).
     if remaining r5 \<noteq> 0 then throw (Runtime_error ''trailing bytes in response'')
     else Inr \<lparr>zs_output = out, zs_transcript = tj, zs_proof = pf, zs_public_inputs = pi,
       zs_vk = vk\<rparr>)))))"

section \<open>The bytes of a message\<close>

lemma build_bytes:
  "build_request q = blob_bytes (rq_nonce q) @ counted_bytes (rq_keys q) @
     counted_bytes (rq_cts q) @ string_bytes (rq_workload q)"
  "gpu_build_request g = blob_bytes (rq_nonce g) @ blob_bytes (rq_public_key g) @
     counted_bytes (rq_keys g) @ counted_bytes (rq_cts g) @ string_bytes (rq_workload g)"
  "build_response p = blob_bytes (rs_output p) @ string_bytes (rs_transcript p) @
     blob_bytes (rs_quote p)"
  "gpu_build_response h = blob_bytes (rs_output h) @ string_bytes (rs_transcript h) @
     blob_bytes (rs_gpu_evidence h) @ blob_bytes (rs_quote h)"
  "zk_build_response z = blob_bytes (zs_output z) @ string_bytes (zs_transcript z) @
     blob_bytes (zs_proof z) @ blob_bytes (zs_public_inputs z) @ blob_bytes (zs_vk z)"
  by (simp_all add: build_request_def gpu_build_request_def build_response_def
      gpu_build_response_def zk_build_response_def counted_bytes_def)

lemma error_response_is_response:
  "build_error_response msg =
     build_response \<lparr>rs_output = [], rs_transcript = error_json msg, rs_quote = []\<rparr>"
  "zk_build_error_response msg =
     zk_build_response \<lparr>zs_output = [], zs_transcript = error_json msg, zs_proof = [],
       zs_public_inputs = [], zs_vk = []\<rparr>"
  by (simp_all add: build_error_response_def build_response_def zk_build_error_response_def
      zk_build_response_def)

text \<open>
  Reading one field: \<open>step\<close> rules for the reader in front of an encoding. \<open>at r bs\<close> says that
  \<open>bs\<close> is what the reader has not read yet.
\<close>

definition at :: "buf_reader \<Rightarrow> bytes \<Rightarrow> bool" where
  "at r bs \<longleftrightarrow> wf_reader r \<and> unread r = bs"

lemma at_new: "length b < 2 ^ 64 \<Longrightarrow> at (reader_new m b) b"
  by (simp add: at_def)

lemma at_blob:
  assumes "at r (blob_bytes x @ rest)"
  obtains r' where "read_blob r = Inr (x, r')" "at r' rest"
proof -
  have r: "wf_reader r" "unread r = blob_bytes x @ rest"
    using assms(1) by (simp_all add: at_def)
  show ?thesis
    by (rule that [OF blob_field.rd_wr [OF r TrueI]])
      (simp only: at_def unread_advance_append [OF r] simp_thms)
qed

lemma at_string:
  assumes "at r (string_bytes x @ rest)"
  obtains r' where "read_string r = Inr (x, r')" "at r' rest"
proof -
  have r: "wf_reader r" "unread r = string_bytes x @ rest"
    using assms(1) by (simp_all add: at_def)
  show ?thesis
    by (rule that [OF string_field.rd_wr [OF r TrueI]])
      (simp only: at_def unread_advance_append [OF r] simp_thms)
qed

lemma at_counted:
  assumes "at r (counted_bytes xs @ rest)" and "counted_ok alloc xs"
  obtains r' where "read_counted alloc r = Inr (xs, r')" "at r' rest"
proof -
  have r: "wf_reader r" "unread r = counted_bytes xs @ rest"
    using assms(1) by (simp_all add: at_def)
  show ?thesis
    by (rule that [OF counted_field.rd_wr [OF r assms(2)]])
      (simp only: at_def unread_advance_append [OF r] simp_thms)
qed

lemma at_end: "at r bs \<Longrightarrow> remaining r = 0 \<longleftrightarrow> bs = []"
  by (auto simp: at_def remaining_eq_0)

text \<open>The converse: what a reader returned was the encoding in front of it.\<close>

lemma blob_at:
  assumes "at r bs" and "read_blob r = Inr (x, r')"
  obtains rest where "bs = blob_bytes x @ rest" "at r' rest"
proof -
  have r: "wf_reader r" "unread r = bs"
    using assms(1) by (simp_all add: at_def)
  from blob_field.wr_rd [OF r(1) assms(2)] obtain rest where
    w: "unread r = blob_bytes x @ rest" "r' = advance (length (blob_bytes x)) r" by blast
  show ?thesis
    by (rule that [of rest])
      (use w r unread_advance_append [OF r(1) w(1)] in \<open>simp_all add: at_def\<close>)
qed

lemma string_at:
  assumes "at r bs" and "read_string r = Inr (x, r')"
  obtains rest where "bs = string_bytes x @ rest" "at r' rest"
proof -
  have r: "wf_reader r" "unread r = bs"
    using assms(1) by (simp_all add: at_def)
  from string_field.wr_rd [OF r(1) assms(2)] obtain rest where
    w: "unread r = string_bytes x @ rest" "r' = advance (length (string_bytes x)) r" by blast
  show ?thesis
    by (rule that [of rest])
      (use w r unread_advance_append [OF r(1) w(1)] in \<open>simp_all add: at_def\<close>)
qed

lemma counted_at:
  assumes "at r bs" and "read_counted alloc r = Inr (xs, r')"
  obtains rest where "bs = counted_bytes xs @ rest" "at r' rest" "counted_ok alloc xs"
proof -
  have r: "wf_reader r" "unread r = bs"
    using assms(1) by (simp_all add: at_def)
  from counted_field.wr_rd [OF r(1) assms(2)] obtain rest where
    w: "counted_ok alloc xs" "unread r = counted_bytes xs @ rest" "r' = advance (length (counted_bytes xs)) r" by blast
  show ?thesis
    by (rule that [of rest])
      (use w r unread_advance_append [OF r(1) w(2)] in \<open>simp_all add: at_def\<close>)
qed

section \<open>Round trips and canonicity\<close>

lemma counted_okD: "request_ok alloc q \<Longrightarrow> counted_ok alloc (rq_keys q)"
  "request_ok alloc q \<Longrightarrow> counted_ok alloc (rq_cts q)"
  by (simp_all add: request_ok_def)

lemma parse_request_build:
  assumes "request_ok alloc q" and "length (build_request q) < 2 ^ 64"
  shows "parse_request_with m t alloc (build_request q) = Inr q"
proof -
  have "at (reader_new m (build_request q)) (blob_bytes (rq_nonce q) @ counted_bytes (rq_keys q) @
      counted_bytes (rq_cts q) @ string_bytes (rq_workload q) @ [])"
    using at_new [OF assms(2)] by (simp only: build_bytes append_Nil2)
  then obtain r1 where 1: "read_blob (reader_new m (build_request q)) = Inr (rq_nonce q, r1)"
    and a1: "at r1 (counted_bytes (rq_keys q) @ counted_bytes (rq_cts q) @
      string_bytes (rq_workload q) @ [])" by (rule at_blob)
  from a1 counted_okD(1) [OF assms(1)] obtain r2 where 2: "read_counted alloc r1 = Inr (rq_keys q, r2)"
    and a2: "at r2 (counted_bytes (rq_cts q) @ string_bytes (rq_workload q) @ [])"
    by (rule at_counted)
  from a2 counted_okD(2) [OF assms(1)] obtain r3 where 3: "read_counted alloc r2 = Inr (rq_cts q, r3)"
    and a3: "at r3 (string_bytes (rq_workload q) @ [])" by (rule at_counted)
  from a3 obtain r4 where 4: "read_string r3 = Inr (rq_workload q, r4)" and a4: "at r4 []"
    by (rule at_string)
  show ?thesis
    using at_end [OF a4] by (simp add: parse_request_with_def 1 2 3 4)
qed

lemma build_request_parse:
  assumes len: "length b < 2 ^ 64" and p: "parse_request_with m t alloc b = Inr q"
  shows "request_ok alloc q \<and> b = build_request q"
proof -
  from p obtain nonce r1 keys r2 cts r3 wid r4 where
    *: "read_blob (reader_new m b) = Inr (nonce, r1)" "read_counted alloc r1 = Inr (keys, r2)"
      "read_counted alloc r2 = Inr (cts, r3)" "read_string r3 = Inr (wid, r4)" "remaining r4 = 0"
    and q: "q = \<lparr>rq_nonce = nonce, rq_keys = keys, rq_cts = cts, rq_workload = wid\<rparr>"
    by (auto simp: parse_request_with_def split: prod.splits if_splits)
  from blob_at [OF at_new [OF len] *(1)] obtain b1 where
    1: "b = blob_bytes nonce @ b1" "at r1 b1" .
  from counted_at [OF 1(2) *(2)] obtain b2 where
    2: "b1 = counted_bytes keys @ b2" "at r2 b2" "counted_ok alloc keys" .
  from counted_at [OF 2(2) *(3)] obtain b3 where
    3: "b2 = counted_bytes cts @ b3" "at r3 b3" "counted_ok alloc cts" .
  from string_at [OF 3(2) *(4)] obtain b4 where
    4: "b3 = string_bytes wid @ b4" "at r4 b4" .
  have "b4 = []"
    using at_end [OF 4(2)] *(5) by simp
  then show ?thesis
    using 1(1) 2(1,3) 3(1,3) 4(1) by (simp add: build_bytes q request_ok_def)
qed

lemma gpu_parse_request_build:
  assumes "request_ok alloc q" and "length (gpu_build_request q) < 2 ^ 64"
  shows "gpu_parse_request alloc (gpu_build_request q) = Inr q"
proof -
  let ?r = "reader_new ''request truncated'' (gpu_build_request q)"
  have "at ?r (blob_bytes (rq_nonce q) @ blob_bytes (rq_public_key q) @
      counted_bytes (rq_keys q) @ counted_bytes (rq_cts q) @ string_bytes (rq_workload q) @ [])"
    using at_new [OF assms(2)] by (simp only: build_bytes append_Nil2)
  then obtain r0 where 0: "read_blob ?r = Inr (rq_nonce q, r0)"
    and a0: "at r0 (blob_bytes (rq_public_key q) @ counted_bytes (rq_keys q) @
      counted_bytes (rq_cts q) @ string_bytes (rq_workload q) @ [])" by (rule at_blob)
  from a0 obtain r1 where 1: "read_blob r0 = Inr (rq_public_key q, r1)"
    and a1: "at r1 (counted_bytes (rq_keys q) @ counted_bytes (rq_cts q) @
      string_bytes (rq_workload q) @ [])" by (rule at_blob)
  from a1 counted_okD(1) [OF assms(1)] obtain r2 where 2: "read_counted alloc r1 = Inr (rq_keys q, r2)"
    and a2: "at r2 (counted_bytes (rq_cts q) @ string_bytes (rq_workload q) @ [])"
    by (rule at_counted)
  from a2 counted_okD(2) [OF assms(1)] obtain r3 where 3: "read_counted alloc r2 = Inr (rq_cts q, r3)"
    and a3: "at r3 (string_bytes (rq_workload q) @ [])" by (rule at_counted)
  from a3 obtain r4 where 4: "read_string r3 = Inr (rq_workload q, r4)" and a4: "at r4 []"
    by (rule at_string)
  show ?thesis
    using at_end [OF a4] by (simp add: gpu_parse_request_def 0 1 2 3 4)
qed

lemma gpu_build_request_parse:
  assumes len: "length b < 2 ^ 64" and p: "gpu_parse_request alloc b = Inr q"
  shows "request_ok alloc q \<and> b = gpu_build_request q"
proof -
  from p obtain nonce r0 pk r1 keys r2 cts r3 wid r4 where
    *: "read_blob (reader_new ''request truncated'' b) = Inr (nonce, r0)"
      "read_blob r0 = Inr (pk, r1)" "read_counted alloc r1 = Inr (keys, r2)"
      "read_counted alloc r2 = Inr (cts, r3)" "read_string r3 = Inr (wid, r4)" "remaining r4 = 0"
    and q: "q = \<lparr>rq_nonce = nonce, rq_keys = keys, rq_cts = cts, rq_workload = wid,
      rq_public_key = pk\<rparr>"
    by (auto simp: gpu_parse_request_def split: prod.splits if_splits)
  from blob_at [OF at_new [OF len] *(1)] obtain b0 where
    0: "b = blob_bytes nonce @ b0" "at r0 b0" .
  from blob_at [OF 0(2) *(2)] obtain b1 where
    1: "b0 = blob_bytes pk @ b1" "at r1 b1" .
  from counted_at [OF 1(2) *(3)] obtain b2 where
    2: "b1 = counted_bytes keys @ b2" "at r2 b2" "counted_ok alloc keys" .
  from counted_at [OF 2(2) *(4)] obtain b3 where
    3: "b2 = counted_bytes cts @ b3" "at r3 b3" "counted_ok alloc cts" .
  from string_at [OF 3(2) *(5)] obtain b4 where
    4: "b3 = string_bytes wid @ b4" "at r4 b4" .
  have "b4 = []"
    using at_end [OF 4(2)] *(6) by simp
  then show ?thesis
    using 0(1) 1(1) 2(1,3) 3(1,3) 4(1) by (simp add: build_bytes q request_ok_def)
qed

lemma parse_response_build:
  assumes "length (build_response p) < 2 ^ 64"
  shows "parse_response (build_response p) = Inr p"
proof -
  let ?r = "reader_new ''response truncated'' (build_response p)"
  have "at ?r (blob_bytes (rs_output p) @ string_bytes (rs_transcript p) @
      blob_bytes (rs_quote p) @ [])"
    using at_new [OF assms] by (simp only: build_bytes append_Nil2)
  then obtain r1 where 1: "read_blob ?r = Inr (rs_output p, r1)"
    and a1: "at r1 (string_bytes (rs_transcript p) @ blob_bytes (rs_quote p) @ [])"
    by (rule at_blob)
  from a1 obtain r2 where 2: "read_string r1 = Inr (rs_transcript p, r2)"
    and a2: "at r2 (blob_bytes (rs_quote p) @ [])" by (rule at_string)
  from a2 obtain r3 where 3: "read_blob r2 = Inr (rs_quote p, r3)" and a3: "at r3 []"
    by (rule at_blob)
  show ?thesis
    using at_end [OF a3] by (simp add: parse_response_def 1 2 3)
qed

lemma build_response_parse:
  assumes len: "length b < 2 ^ 64" and p: "parse_response b = Inr p"
  shows "b = build_response p"
proof -
  from p obtain out r1 tj r2 quote r3 where
    *: "read_blob (reader_new ''response truncated'' b) = Inr (out, r1)"
      "read_string r1 = Inr (tj, r2)" "read_blob r2 = Inr (quote, r3)" "remaining r3 = 0"
    and p': "p = \<lparr>rs_output = out, rs_transcript = tj, rs_quote = quote\<rparr>"
    by (auto simp: parse_response_def split: prod.splits if_splits)
  from blob_at [OF at_new [OF len] *(1)] obtain b1 where 1: "b = blob_bytes out @ b1" "at r1 b1" .
  from string_at [OF 1(2) *(2)] obtain b2 where 2: "b1 = string_bytes tj @ b2" "at r2 b2" .
  from blob_at [OF 2(2) *(3)] obtain b3 where 3: "b2 = blob_bytes quote @ b3" "at r3 b3" .
  have "b3 = []"
    using at_end [OF 3(2)] *(4) by simp
  then show ?thesis
    using 1(1) 2(1) 3(1) by (simp add: build_bytes p')
qed

lemma gpu_parse_response_build:
  assumes "length (gpu_build_response p @ tail) < 2 ^ 64"
  shows "gpu_parse_response (gpu_build_response p @ tail) = Inr p"
proof -
  let ?r = "reader_new ''response truncated'' (gpu_build_response p @ tail)"
  have "at ?r (blob_bytes (rs_output p) @ string_bytes (rs_transcript p) @
      blob_bytes (rs_gpu_evidence p) @ blob_bytes (rs_quote p) @ tail)"
    using at_new [OF assms] by (simp only: build_bytes append_assoc)
  then obtain r1 where 1: "read_blob ?r = Inr (rs_output p, r1)"
    and a1: "at r1 (string_bytes (rs_transcript p) @
      blob_bytes (rs_gpu_evidence p) @ blob_bytes (rs_quote p) @ tail)" by (rule at_blob)
  from a1 obtain r2 where 2: "read_string r1 = Inr (rs_transcript p, r2)"
    and a2: "at r2 (blob_bytes (rs_gpu_evidence p) @ blob_bytes (rs_quote p) @ tail)"
    by (rule at_string)
  from a2 obtain r3 where 3: "read_blob r2 = Inr (rs_gpu_evidence p, r3)"
    and a3: "at r3 (blob_bytes (rs_quote p) @ tail)" by (rule at_blob)
  from a3 obtain r4 where 4: "read_blob r3 = Inr (rs_quote p, r4)" by (rule at_blob)
  show ?thesis
    by (simp add: gpu_parse_response_def 1 2 3 4)
qed

lemma zk_parse_response_build:
  assumes "length (zk_build_response p) < 2 ^ 64"
  shows "zk_parse_response (zk_build_response p) = Inr p"
proof -
  let ?r = "reader_new ''truncated'' (zk_build_response p)"
  have "at ?r (blob_bytes (zs_output p) @ string_bytes (zs_transcript p) @
      blob_bytes (zs_proof p) @ blob_bytes (zs_public_inputs p) @ blob_bytes (zs_vk p) @ [])"
    using at_new [OF assms] by (simp only: build_bytes append_Nil2)
  then obtain r1 where 1: "read_blob ?r = Inr (zs_output p, r1)"
    and a1: "at r1 (string_bytes (zs_transcript p) @ blob_bytes (zs_proof p) @
      blob_bytes (zs_public_inputs p) @ blob_bytes (zs_vk p) @ [])" by (rule at_blob)
  from a1 obtain r2 where 2: "read_string r1 = Inr (zs_transcript p, r2)"
    and a2: "at r2 (blob_bytes (zs_proof p) @ blob_bytes (zs_public_inputs p) @
      blob_bytes (zs_vk p) @ [])" by (rule at_string)
  from a2 obtain r3 where 3: "read_blob r2 = Inr (zs_proof p, r3)"
    and a3: "at r3 (blob_bytes (zs_public_inputs p) @ blob_bytes (zs_vk p) @ [])" by (rule at_blob)
  from a3 obtain r4 where 4: "read_blob r3 = Inr (zs_public_inputs p, r4)"
    and a4: "at r4 (blob_bytes (zs_vk p) @ [])" by (rule at_blob)
  from a4 obtain r5 where 5: "read_blob r4 = Inr (zs_vk p, r5)" and a5: "at r5 []" by (rule at_blob)
  show ?thesis
    using at_end [OF a5] by (simp add: zk_parse_response_def 1 2 3 4 5)
qed

lemma zk_build_response_parse:
  assumes len: "length b < 2 ^ 64" and p: "zk_parse_response b = Inr p"
  shows "b = zk_build_response p"
proof -
  from p obtain out r1 tj r2 pf r3 pi r4 vk r5 where
    *: "read_blob (reader_new ''truncated'' b) = Inr (out, r1)"
      "read_string r1 = Inr (tj, r2)" "read_blob r2 = Inr (pf, r3)"
      "read_blob r3 = Inr (pi, r4)" "read_blob r4 = Inr (vk, r5)" "remaining r5 = 0"
    and p': "p = \<lparr>zs_output = out, zs_transcript = tj, zs_proof = pf, zs_public_inputs = pi,
      zs_vk = vk\<rparr>"
    by (auto simp: zk_parse_response_def split: prod.splits if_splits)
  from blob_at [OF at_new [OF len] *(1)] obtain b1 where 1: "b = blob_bytes out @ b1" "at r1 b1" .
  from string_at [OF 1(2) *(2)] obtain b2 where 2: "b1 = string_bytes tj @ b2" "at r2 b2" .
  from blob_at [OF 2(2) *(3)] obtain b3 where 3: "b2 = blob_bytes pf @ b3" "at r3 b3" .
  from blob_at [OF 3(2) *(4)] obtain b4 where 4: "b3 = blob_bytes pi @ b4" "at r4 b4" .
  from blob_at [OF 4(2) *(5)] obtain b5 where 5: "b4 = blob_bytes vk @ b5" "at r5 b5" .
  have "b5 = []"
    using at_end [OF 5(2)] *(6) by simp
  then show ?thesis
    using 1(1) 2(1) 3(1) 4(1) 5(1) by (simp add: build_bytes p')
qed

section \<open>The formats meet the contract\<close>

interpretation tee_request: canonical_format build_request "parse_request alloc" "request_ok alloc"
  for alloc
  by unfold_locales (unfold parse_request_def, (rule parse_request_build build_request_parse; assumption)+)

interpretation zk_request: canonical_format build_request "zk_parse_request alloc" "request_ok alloc"
  for alloc
  by unfold_locales
    (unfold zk_parse_request_def, (rule parse_request_build build_request_parse; assumption)+)

interpretation gpu_request: canonical_format gpu_build_request "gpu_parse_request alloc"
  "request_ok alloc" for alloc
  by unfold_locales (rule gpu_parse_request_build gpu_build_request_parse; assumption)+

interpretation tee_response: canonical_format build_response parse_response "\<lambda>_. True"
  by unfold_locales (simp_all add: parse_response_build build_response_parse)

interpretation zk_response: canonical_format zk_build_response zk_parse_response "\<lambda>_. True"
  by unfold_locales (simp_all add: zk_parse_response_build zk_build_response_parse)

interpretation gpu_response: message_encoding gpu_build_response gpu_parse_response "\<lambda>_. True"
  by unfold_locales (use gpu_parse_response_build [of _ "[]"] in simp)

section \<open>Where the reader leaves its buffer\<close>

text \<open>A message that ends inside a length prefix is read past its end.\<close>

lemma read_blob_past_end:
  assumes "at r bs" and "length bs < 8"
  shows "\<exists>m. read_blob r = Inl (Ub m)"
  using deref_short [of r 8] assms by (auto simp: at_def read_blob_def)

lemma short_request_ub:
  assumes "length b < 8"
  shows "\<exists>m. parse_request alloc b = Inl (Ub m)"
proof -
  have "length b < 2 ^ 64" using assms by simp
  from read_blob_past_end [OF at_new [OF this] assms] obtain m where
    "read_blob (reader_new ''request truncated'' b) = Inl (Ub m)" by blast
  then show ?thesis by (simp add: parse_request_def parse_request_with_def)
qed

text \<open>
  The servers answer an error with the fields of the original protocol. The client of
  \<open>gpucc-vfhe\<close> expects one field more, and reads it past the end.
\<close>

lemma gpu_error_response_ub:
  assumes "length (build_error_response msg) < 2 ^ 64"
  shows "\<exists>m. gpu_parse_response (build_error_response msg) = Inl (Ub m)"
proof -
  let ?b = "build_error_response msg" and ?r = "reader_new ''response truncated'' (build_error_response msg)"
  have "at ?r (blob_bytes [] @ string_bytes (error_json msg) @ blob_bytes [] @ [])"
    using at_new [OF assms] by (simp only: error_response_is_response build_bytes append_Nil2
        response.select_convs)
  then obtain r1 where 1: "read_blob ?r = Inr ([], r1)"
    and a1: "at r1 (string_bytes (error_json msg) @ blob_bytes [] @ [])" by (rule at_blob)
  from a1 obtain r2 where 2: "read_string r1 = Inr (error_json msg, r2)"
    and a2: "at r2 (blob_bytes [] @ [])" by (rule at_string)
  from a2 obtain r3 where 3: "read_blob r2 = Inr ([], r3)" and a3: "at r3 []" by (rule at_blob)
  from read_blob_past_end [OF a3] obtain m where "read_blob r3 = Inl (Ub m)" by auto
  then show ?thesis
    by (simp add: gpu_parse_response_def 1 2 3)
qed

end
