(* ===== verification/Properties_Transport.thy ===== *)
theory Properties_Transport
  imports Sockets Messages
begin

text \<open>
  The properties of the transport and of the message formats: framing over any segmentation of
  the stream, the ownership of descriptors, canonicity of requests, and two inputs on which the
  readers leave their buffers.
\<close>

section \<open>Framing\<close>

text \<open>C8: However the network cuts the bytes of a sequence of framed messages into segments, and
  however often a call is interrupted, \<open>recv_message\<close> returns exactly the messages, in order, and
  leaves the bytes that follow them on the stream.\<close>

theorem framed_messages_arrive:
  assumes "live evs" and "content evs = concat (map frame ms) @ rest"
    and "list_all (deliverable alloc) ms"
  shows "\<exists>evs'. receive_many (recv_message alloc) (length ms) evs = Some (ms, evs') \<and>
    live evs' \<and> content evs' = rest"
  using tcp.rcv_frames [OF assms] .

theorem framed_messages_arrive_witness:
  "\<exists>evs'. receive_many (recv_message (\<lambda>n. n < 100)) (length [[7, 9], [] :: bytes])
      [Data [0, 0, 0, 0, 0], Recv_intr, Data [0, 0, 2, 7], Data [9, 0, 0, 0, 0, 0, 0, 0, 0, 5]] =
    Some ([[7, 9], []], evs') \<and> live evs' \<and> content evs' = [5]"
proof -
  have "content [Data [0, 0, 0, 0, 0], Recv_intr, Data [0, 0, 2, 7],
      Data [9, 0, 0, 0, 0, 0, 0, 0, 0, 5]] = concat (map frame [[7, 9], []]) @ [5]"
    by code_simp
  from framed_messages_arrive [OF _ this, of "\<lambda>n. n < 100"] show ?thesis
    by (simp add: deliverable_def del: receive_many.simps)
qed

text \<open>When the peer closes the connection anywhere inside a frame, \<open>recv_message\<close> throws; it
  never returns a shorter message.\<close>

theorem truncated_message_throws:
  assumes "live evs" and "content evs = take k (frame m)" and "k < length (frame m)"
    and "deliverable alloc m"
  shows "recv_message alloc (evs @ Data [] # es) = Some (throw (Runtime_error
    ''recv failed: unexpected EOF from peer (truncated message)''), es)"
  by (rule recv_message_truncated [OF assms])

theorem truncated_message_throws_witness:
  "recv_message (\<lambda>n. n < 100) ([Data [0, 0, 0, 0, 0, 0, 0, 2, 7]] @ Data [] # []) =
    Some (throw (Runtime_error
    ''recv failed: unexpected EOF from peer (truncated message)''), [])"
proof -
  have "content [Data [0, 0, 0, 0, 0, 0, 0, 2, 7]] = take 9 (frame [7, 9])"
    by code_simp
  from truncated_message_throws [OF _ this, of "\<lambda>n. n < 100" "[]"] show ?thesis
    by (simp add: deliverable_def)
qed

text \<open>C35: As long as every \<open>send\<close> makes progress, \<open>send_message\<close> returns, and what it has handed
  to the kernel is exactly the frame of its payload.\<close>

theorem send_message_sends_frame:
  assumes "progress evs" and "8 + length payload \<le> sends evs"
  shows "\<exists>evs'. send_message payload wire evs = Some (Inr (), wire @ frame payload, evs')"
  by (rule send_message_progress [OF assms])

theorem send_message_sends_frame_witness:
  "\<exists>evs'. send_message [5, 6] [1]
    (Send_intr # Sent 3 # Send_intr # replicate 9 (Sent 1)) = Some (Inr (), [1] @ frame [5, 6], evs')"
  by (rule send_message_sends_frame) (simp_all add: numeral_eq_Suc)

section \<open>Descriptors\<close>

definition example_listen :: listen_env where
  "example_listen = \<lparr>le_gai = None,
     le_addrs = [\<lparr>at_socket = True, at_done = False\<rparr>, \<lparr>at_socket = True, at_done = True\<rparr>],
     le_listen = None, le_sockname = Some (Inet 0x1F 0x90)\<rparr>"

text \<open>The constructor of \<open>TCPServer\<close> opens exactly one descriptor and owns it; when it throws,
  at whichever call, the descriptor table is as before. A requested port is never lost.\<close>

theorem tcp_server_constructor_owns:
  "case tcp_server_new env host port k of
     (Inl _, k') \<Rightarrow> k' = k
   | (Inr srv, k') \<Rightarrow> listen_fd srv \<notin> set (k_open k) \<and> 0 \<le> listen_fd srv \<and>
       k_open k' = listen_fd srv # k_open k \<and> (port = 0 \<or> bound_port srv \<noteq> 0)"
proof -
  obtain r k' where n: "tcp_server_new env host port k = (r, k')"
    by (cases "tcp_server_new env host port k")
  show ?thesis
  proof (cases r)
    case (Inl e)
    then show ?thesis using tcp_server_new_owns [OF n] by (simp add: n)
  next
    case (Inr srv)
    then have "sys_open k = (listen_fd srv, k')" "port \<noteq> 0 \<longrightarrow> bound_port srv \<noteq> 0"
      using tcp_server_new_owns [OF n] by simp_all
    with sys_open_fresh [OF this(1)] Inr show ?thesis by (auto simp: n)
  qed
qed

theorem tcp_server_constructor_owns_witness:
  "case tcp_server_new example_listen ''0.0.0.0'' 8080 \<lparr>k_open = [0, 1], k_bad = 0\<rparr> of
     (Inl _, k') \<Rightarrow> False
   | (Inr srv, k') \<Rightarrow> k_open k' = listen_fd srv # [0, 1] \<and> bound_port srv \<noteq> 0"
proof -
  have new: "tcp_server_new example_listen ''0.0.0.0'' 8080 \<lparr>k_open = [0, 1], k_bad = 0\<rparr> =
      (Inr \<lparr>listen_fd = 2, bound_port = 8080\<rparr>, \<lparr>k_open = [2, 0, 1], k_bad = 0\<rparr>)"
    by code_simp
  with tcp_server_constructor_owns [where env = example_listen and host = "''0.0.0.0''" and
      port = 8080 and k = "\<lparr>k_open = [0, 1], k_bad = 0\<rparr>"] show ?thesis
    by simp
qed

text \<open>C9: In every state that a server's \<open>main\<close> can reach, in any interleaving of accepts and of
  handlers that end, each open descriptor has exactly one owner (the listening socket, a handler
  thread, or a thread that could not be started), and no descriptor was closed that was not
  open.\<close>

theorem descriptors_have_one_owner:
  assumes "tcp_server_new env host port k = (Inr srv, k')" and "distinct (k_open k)"
    and "main_reach (main_init srv k') s"
  shows "one_owner (k_open k) (k_bad k) s"
  using one_owner_reach [OF assms(3) one_owner_init [OF assms(1,2)]] .

theorem descriptors_have_one_owner_witness:
  "\<exists>s. main_reach (main_init \<lparr>listen_fd = 2, bound_port = 8080\<rparr> \<lparr>k_open = [2, 0, 1], k_bad = 0\<rparr>) s \<and>
    m_threads s = [3] \<and> one_owner [0, 1] 0 s"
proof -
  have new: "tcp_server_new example_listen ''0.0.0.0'' 8080 \<lparr>k_open = [0, 1], k_bad = 0\<rparr> =
      (Inr \<lparr>listen_fd = 2, bound_port = 8080\<rparr>, \<lparr>k_open = [2, 0, 1], k_bad = 0\<rparr>)"
    by code_simp
  let ?i = "main_init \<lparr>listen_fd = 2, bound_port = 8080\<rparr> \<lparr>k_open = [2, 0, 1], k_bad = 0\<rparr>"
  have acc: "server_accept (m_srv ?i) (m_kernel ?i) [Accept_intr, Accepted] =
      Some (Inr 3, \<lparr>k_open = [3, 2, 0, 1], k_bad = 0\<rparr>, [])"
    by code_simp
  have "main_reach ?i (?i\<lparr>m_kernel := \<lparr>k_open = [3, 2, 0, 1], k_bad = 0\<rparr>,
      m_threads := 3 # m_threads ?i\<rparr>)" (is "main_reach ?i ?s")
    by (rule main_next [OF main_start], rule spawn [OF _ acc accept_iteration])
      (simp add: main_init_def)
  moreover have "m_threads ?s = [3]"
    by (simp add: main_init_def)
  moreover have "one_owner [0, 1] 0 ?s"
    using descriptors_have_one_owner [OF new _ \<open>main_reach ?i ?s\<close>] by simp
  ultimately show ?thesis by blast
qed

section \<open>Message formats\<close>

text \<open>C20: The request format is canonical: the server accepts a byte vector exactly when it is the
  encoding of a request whose counts fit, and returns that request. No two requests share an
  encoding, and nothing is ignored.\<close>

theorem request_format_canonical:
  assumes "length b < 2 ^ 64"
  shows "parse_request alloc b = Inr q \<longleftrightarrow> request_ok alloc q \<and> b = build_request q"
  by (rule tee_request.accepts_iff [OF assms])

definition example_request :: request where
  "example_request = \<lparr>rq_nonce = [1, 2], rq_keys = [[3]], rq_cts = [[4], []],
     rq_workload = ''toy''\<rparr>"

theorem request_format_canonical_witness:
  "parse_request (\<lambda>n. n < 1000) (build_request example_request) = Inr example_request"
  by (subst request_format_canonical)
    (simp_all add: build_bytes example_request_def request_ok_def counted_ok_def counted_bytes_def
      string_bytes_def)

text \<open>The request of \<open>gpucc-vfhe\<close>, with its public key blob, is canonical as well.\<close>

theorem gpu_request_format_canonical:
  assumes "length b < 2 ^ 64"
  shows "gpu_parse_request alloc b = Inr q \<longleftrightarrow> request_ok alloc q \<and> b = gpu_build_request q"
  by (rule gpu_request.accepts_iff [OF assms])

definition example_gpu_request :: gpu_request where
  "example_gpu_request = \<lparr>rq_nonce = [1, 2], rq_keys = [[3]], rq_cts = [[4], []],
     rq_workload = ''toy'', rq_public_key = [9, 9]\<rparr>"

theorem gpu_request_format_canonical_witness:
  "gpu_parse_request (\<lambda>n. n < 1000) (gpu_build_request example_gpu_request) =
    Inr example_gpu_request"
  by (subst gpu_request_format_canonical)
    (simp_all add: build_bytes example_gpu_request_def request_ok_def counted_ok_def
      counted_bytes_def string_bytes_def)

text \<open>C31: A request shorter than one length prefix (an empty message is one) makes the server read
  past the end of its buffer before any check: undefined behaviour, not an error response.\<close>

theorem short_request_is_undefined:
  assumes "length b < 8"
  shows "\<exists>m. parse_request alloc b = Inl (Ub m)"
  by (rule short_request_ub [OF assms])

theorem short_request_is_undefined_witness:
  "\<exists>m. parse_request (\<lambda>_. True) [] = Inl (Ub m)"
  by (rule short_request_is_undefined) simp

text \<open>C29: Every error response of the \<open>gpucc-vfhe\<close> server makes its own client read past the end of
  the response: the server sends three fields, the client reads four.\<close>

theorem gpu_error_response_is_undefined:
  assumes "length (build_error_response msg) < 2 ^ 64"
  shows "\<exists>m. gpu_parse_response (build_error_response msg) = Inl (Ub m)"
  by (rule gpu_error_response_ub [OF assms])

theorem gpu_error_response_is_undefined_witness:
  "\<exists>m. gpu_parse_response (build_error_response ''eval failed'') = Inl (Ub m)"
  by (rule gpu_error_response_is_undefined)
    (simp add: build_error_response_def string_bytes_def error_json_def)

end
