(* ===== verification/Effects.thy ===== *)
theory Effects
  imports Khipu_Prelude
begin

text \<open>
  Programs with exceptions over a global state: what OpenFHE keeps in static maps, what the
  prototypes keep in static variables. A C++ exception does not undo the effects that happened
  before it, so the state comes back on every outcome.
\<close>

named_theorems prog_simps \<open>running a program\<close>

type_synonym ('g, 'a) prog = "'g \<Rightarrow> 'a result \<times> 'g"

definition ret :: "'a \<Rightarrow> ('g, 'a) prog" where
  "ret x = (\<lambda>g. (Inr x, g))"

definition raise :: "fault \<Rightarrow> ('g, 'a) prog" where
  "raise e = (\<lambda>g. (Inl e, g))"

definition lift_p :: "'a result \<Rightarrow> ('g, 'a) prog" where
  "lift_p r = (\<lambda>g. (r, g))"

definition bind_p :: "('g, 'a) prog \<Rightarrow> ('a \<Rightarrow> ('g, 'b) prog) \<Rightarrow> ('g, 'b) prog" where
  "bind_p p f = (\<lambda>g. case p g of (Inl e, g1) \<Rightarrow> (Inl e, g1) | (Inr x, g1) \<Rightarrow> f x g1)"

text \<open>\<open>try { p } catch (const std::exception& e) { h(e) }\<close>.\<close>

definition try_p :: "('g, 'a) prog \<Rightarrow> (exn \<Rightarrow> ('g, 'a) prog) \<Rightarrow> ('g, 'a) prog" where
  "try_p p h = (\<lambda>g. case p g of
      (Inl (Throw e), g1) \<Rightarrow> h e g1
    | (Inl (Ub u), g1) \<Rightarrow> (Inl (Ub u), g1)
    | (Inr x, g1) \<Rightarrow> (Inr x, g1))"

text \<open>The same with a continuation that runs outside of the \<open>try\<close> block.\<close>

definition try_then :: "('g, 'a) prog \<Rightarrow> (exn \<Rightarrow> 'b) \<Rightarrow> ('a \<Rightarrow> ('g, 'b) prog) \<Rightarrow> ('g, 'b) prog" where
  "try_then p h k = (\<lambda>g. case p g of
      (Inl (Throw e), g1) \<Rightarrow> (Inr (h e), g1)
    | (Inl (Ub u), g1) \<Rightarrow> (Inl (Ub u), g1)
    | (Inr x, g1) \<Rightarrow> k x g1)"

fun for_p :: "('a \<Rightarrow> ('g, 'b) prog) \<Rightarrow> 'a list \<Rightarrow> ('g, 'b list) prog" where
  "for_p f [] = ret []"
| "for_p f (x # xs) = bind_p (f x) (\<lambda>y. bind_p (for_p f xs) (\<lambda>ys. ret (y # ys)))"

text \<open>A program on a component of a larger state.\<close>

definition on_field :: "('s \<Rightarrow> 'g) \<Rightarrow> (('g \<Rightarrow> 'g) \<Rightarrow> 's \<Rightarrow> 's) \<Rightarrow> ('g, 'a) prog \<Rightarrow> ('s, 'a) prog" where
  "on_field get upd p = (\<lambda>s. let (r, g) = p (get s) in (r, upd (\<lambda>_. g) s))"

lemma prog_run [simp, prog_simps]:
  "ret x g = (Inr x, g)" "raise e g = (Inl e, g)" "lift_p r g = (r, g)"
  by (simp_all add: ret_def raise_def lift_p_def)

lemma bind_p_run [prog_simps]:
  "p g = (Inr x, g1) \<Longrightarrow> bind_p p f g = f x g1"
  "p g = (Inl e, g1) \<Longrightarrow> bind_p p f g = (Inl e, g1)"
  by (simp_all add: bind_p_def)

lemma try_p_run [prog_simps]:
  "p g = (Inr x, g1) \<Longrightarrow> try_p p h g = (Inr x, g1)"
  "p g = (Inl (Throw e), g1) \<Longrightarrow> try_p p h g = h e g1"
  "p g = (Inl (Ub u), g1) \<Longrightarrow> try_p p h g = (Inl (Ub u), g1)"
  by (simp_all add: try_p_def)

lemma try_then_run [prog_simps]:
  "p g = (Inr x, g1) \<Longrightarrow> try_then p h k g = k x g1"
  "p g = (Inl (Throw e), g1) \<Longrightarrow> try_then p h k g = (Inr (h e), g1)"
  "p g = (Inl (Ub u), g1) \<Longrightarrow> try_then p h k g = (Inl (Ub u), g1)"
  by (simp_all add: try_then_def)

lemma bind_p_assoc: "bind_p (bind_p p f) h = bind_p p (\<lambda>x. bind_p (f x) h)"
  by (rule ext) (simp add: bind_p_def split: prod.split sum.split)

lemma bind_p_cases:
  assumes "bind_p p f g = (r, g')"
  obtains (stop) e where "p g = (Inl e, g')" "r = Inl e"
    | (go) x g1 where "p g = (Inr x, g1)" "f x g1 = (r, g')"
  using assms by (cases "p g") (auto simp: bind_p_def split: sum.splits)

lemma try_then_cases:
  assumes "try_then p h k g = (r, g')"
  obtains (caught) e where "p g = (Inl (Throw e), g')" "r = Inr (h e)"
    | (undefined_behaviour) u where "p g = (Inl (Ub u), g')" "r = Inl (Ub u)"
    | (go) x g1 where "p g = (Inr x, g1)" "k x g1 = (r, g')"
  using assms by (cases "p g") (auto simp: try_then_def split: sum.splits fault.splits)

lemma for_p_length: "for_p f xs g = (Inr ys, g') \<Longrightarrow> length ys = length xs"
  by (induction xs arbitrary: g ys) (auto elim!: bind_p_cases)

text \<open>\<open>never p P\<close>: from any state, \<open>p\<close> does not end in a fault that satisfies \<open>P\<close>.\<close>

definition never :: "('g, 'a) prog \<Rightarrow> (fault \<Rightarrow> bool) \<Rightarrow> bool" where
  "never p P \<longleftrightarrow> (\<forall>g e g'. p g = (Inl e, g') \<longrightarrow> \<not> P e)"

lemma neverD: "never p P \<Longrightarrow> p g = (Inl e, g') \<Longrightarrow> \<not> P e"
  unfolding never_def by blast

lemma neverI: "(\<And>g e g'. p g = (Inl e, g') \<Longrightarrow> \<not> P e) \<Longrightarrow> never p P"
  unfolding never_def by blast

lemma never_ret [simp]: "never (ret x) P"
  by (simp add: never_def)

lemma never_bind: "never p P \<Longrightarrow> (\<And>x. never (f x) P) \<Longrightarrow> never (bind_p p f) P"
  by (intro neverI) (auto elim!: bind_p_cases dest: neverD)

lemma never_for: "(\<And>x. never (f x) P) \<Longrightarrow> never (for_p f xs) P"
  by (induction xs) (auto intro!: never_bind)

text \<open>Behind a \<open>try_then\<close> only undefined behaviour of the guarded program can get out.\<close>

lemma never_try_then:
  assumes "never p Q" and "\<And>x. never (k x) P" and "\<And>u. P (Ub u) \<Longrightarrow> Q (Ub u)"
  shows "never (try_then p h k) P"
proof (rule neverI)
  fix g e g'
  assume "try_then p h k g = (Inl e, g')"
  then show "\<not> P e"
    by (cases rule: try_then_cases) (use assms in \<open>auto dest: neverD\<close>)
qed

section \<open>Loops and results\<close>

text \<open>A loop over a list that changes one variable.\<close>

fun fold_p :: "('a \<Rightarrow> 's \<Rightarrow> ('g, 's) prog) \<Rightarrow> 'a list \<Rightarrow> 's \<Rightarrow> ('g, 's) prog" where
  "fold_p f [] s = ret s"
| "fold_p f (x # xs) s = bind_p (f x s) (fold_p f xs)"

text \<open>
  \<open>runs p g Q\<close>: from the state \<open>g\<close>, \<open>p\<close> returns, with a result and a state that satisfy \<open>Q\<close>;
  \<open>yields p g P\<close>: it returns and leaves the state as it is.
\<close>

definition runs :: "('g, 'a) prog \<Rightarrow> 'g \<Rightarrow> ('a \<Rightarrow> 'g \<Rightarrow> bool) \<Rightarrow> bool" where
  "runs p g Q \<longleftrightarrow> (case p g of (Inr x, g') \<Rightarrow> Q x g' | _ \<Rightarrow> False)"

definition yields :: "('g, 'a) prog \<Rightarrow> 'g \<Rightarrow> ('a \<Rightarrow> bool) \<Rightarrow> bool" where
  "yields p g P \<longleftrightarrow> (\<exists>x. p g = (Inr x, g) \<and> P x)"

lemma yieldsE:
  assumes "yields p g P"
  obtains x where "p g = (Inr x, g)" "P x"
  using assms by (auto simp: yields_def)

lemma yields_ret [simp]: "yields (ret x) g P \<longleftrightarrow> P x"
  by (simp add: yields_def)

lemma yields_bind:
  assumes "yields p g P" and "\<And>x. P x \<Longrightarrow> yields (f x) g Q"
  shows "yields (bind_p p f) g Q"
  using assms(1)
proof (rule yieldsE)
  fix x
  assume "p g = (Inr x, g)" "P x"
  with assms(2) [of x] show ?thesis by (auto simp: yields_def bind_p_def)
qed

lemma yields_mono: "yields p g P \<Longrightarrow> (\<And>x. P x \<Longrightarrow> Q x) \<Longrightarrow> yields p g Q"
  by (auto simp: yields_def)

lemma yields_fold:
  assumes "\<And>ys x zs s. xs = ys @ x # zs \<Longrightarrow> I ys s \<Longrightarrow> yields (f x s) g (I (ys @ [x]))"
    and "I [] s"
  shows "yields (fold_p f xs s) g (I xs)"
proof -
  have "yields (fold_p f zs s) g (I xs)" if "xs = ys @ zs" "I ys s" for ys zs s
    using that
  proof (induction zs arbitrary: ys s)
    case (Cons z zs)
    then show ?case
      by (auto intro!: yields_bind [OF assms(1)])
  qed simp
  from this [of "[]" xs s] assms(2) show ?thesis by simp
qed

lemma runs_ret [simp]: "runs (ret x) g Q \<longleftrightarrow> Q x g"
  by (simp add: runs_def)

lemma runsE:
  assumes "runs p g Q"
  obtains x g' where "p g = (Inr x, g')" "Q x g'"
  using assms by (auto simp: runs_def split: prod.splits sum.splits)

lemma runs_bind:
  assumes "runs p g P" and "\<And>x g'. P x g' \<Longrightarrow> runs (f x) g' Q"
  shows "runs (bind_p p f) g Q"
  using assms(1)
proof (rule runsE)
  fix x g'
  assume "p g = (Inr x, g')" "P x g'"
  with assms(2) [of x g'] show ?thesis by (simp add: runs_def bind_p_def)
qed

lemma runs_mono: "runs p g P \<Longrightarrow> (\<And>x g'. P x g' \<Longrightarrow> Q x g') \<Longrightarrow> runs p g Q"
  by (auto simp: runs_def split: prod.splits sum.splits)

lemma yields_runs: "yields p g P \<longleftrightarrow> runs p g (\<lambda>x g'. g' = g \<and> P x)"
  by (auto simp: yields_def runs_def split: prod.splits sum.splits)

lemma runs_fold:
  assumes "\<And>ys x zs s g. xs = ys @ x # zs \<Longrightarrow> I ys s g \<Longrightarrow> runs (f x s) g (I (ys @ [x]))"
    and "I [] s g"
  shows "runs (fold_p f xs s) g (I xs)"
proof -
  have "runs (fold_p f zs s) g (I xs)" if "xs = ys @ zs" "I ys s g" for ys zs s g
    using that
  proof (induction zs arbitrary: ys s g)
    case (Cons z zs)
    then show ?case by (auto intro!: runs_bind [OF assms(1)])
  qed simp
  from this [of "[]" xs s] assms(2) show ?thesis by simp
qed

lemma runs_for:
  assumes "\<And>ys x zs g. xs = ys @ x # zs \<Longrightarrow> I ys g \<Longrightarrow> runs (f x) g (\<lambda>_. I (ys @ [x]))"
    and "I [] g"
  shows "runs (for_p f xs) g (\<lambda>_. I xs)"
proof -
  have "runs (for_p f zs) g (\<lambda>_. I xs)" if "xs = ys @ zs" "I ys g" for ys zs g
    using that
  proof (induction zs arbitrary: ys g)
    case (Cons z zs)
    show ?case
      using Cons.prems
      by (auto intro!: runs_bind [OF assms(1)] runs_bind [OF Cons.IH])
  qed simp
  from this [of "[]" xs g] assms(2) show ?thesis by simp
qed


lemma yields_for:
  "(\<And>x. x \<in> set xs \<Longrightarrow> yields (f x) g (P x)) \<Longrightarrow> yields (for_p f xs) g (list_all2 P xs)"
proof (induction xs)
  case (Cons x xs)
  then show ?case
    by (auto intro!: yields_bind [where P = "P x"] yields_bind [where P = "list_all2 P xs"])
qed simp

lemma yields_runsD: "yields p g P \<Longrightarrow> runs p g (\<lambda>x g'. g' = g \<and> P x)"
  by (simp add: yields_runs)

end
