(* ===== verification/Proof_System.thy ===== *)
theory Proof_System
  imports Effects
begin

text \<open>
  \<open>proof_generation.cpp\<close> of \<open>zk-vfhe\<close>: the proof of a constraint system, the key pair that
  \<open>setup\<close> caches in static variables for \<open>prove\<close>, and the byte format of the public inputs.
  libsnark and libff are parameters; their generator and prover draw randomness, which is the
  first argument of both.
\<close>

section \<open>libsnark\<close>

record ('r, 'cs, 'pk, 'vk, 'x, 'w, 'p) snark =
  sn_generate :: "'r \<Rightarrow> 'cs \<Rightarrow> 'pk \<times> 'vk"
  sn_prove :: "'r \<Rightarrow> 'pk \<Rightarrow> 'x \<Rightarrow> 'w \<Rightarrow> 'p"
  sn_verify :: "'vk \<Rightarrow> 'x \<Rightarrow> 'p \<Rightarrow> bool"
  sn_satisfied :: "'cs \<Rightarrow> 'x \<Rightarrow> 'w \<Rightarrow> bool"
  sn_pk0 :: 'pk
  sn_vk0 :: 'vk

text \<open>Completeness of the proof system, on the given constraint system and assignment.\<close>

definition snark_complete :: "('r, 'cs, 'pk, 'vk, 'x, 'w, 'p) snark \<Rightarrow> 'cs \<Rightarrow> 'x \<Rightarrow> 'w \<Rightarrow> bool" where
  "snark_complete S cs x w \<longleftrightarrow> (sn_satisfied S cs x w \<longrightarrow>
     (\<forall>r r'. case sn_generate S r cs of (pk, vk) \<Rightarrow> sn_verify S vk x (sn_prove S r' pk x w)))"

lemma snark_completeD:
  "snark_complete S cs x w \<Longrightarrow> sn_satisfied S cs x w \<Longrightarrow> sn_generate S r cs = (pk, vk) \<Longrightarrow>
    sn_verify S vk x (sn_prove S r' pk x w)"
  by (auto simp: snark_complete_def split: prod.splits)

section \<open>Generating a proof\<close>

record ('p, 'x, 'vk) proof_bundle =
  pb_proof :: 'p
  pb_public_inputs :: 'x
  pb_vk :: 'vk

definition generate_proof :: "('r, 'cs, 'pk, 'vk, 'x, 'w, 'p) snark \<Rightarrow> 'r \<Rightarrow> 'r \<Rightarrow> 'cs \<Rightarrow> 'x \<Rightarrow> 'w \<Rightarrow>
    ('p, 'x, 'vk) proof_bundle result" where
  "generate_proof S r r' cs primary_input auxiliary_input =
     (if \<not> sn_satisfied S cs primary_input auxiliary_input
      then throw (Runtime_error ''Constraint system is not satisfied'')
      else let (pk, vk) = sn_generate S r cs
           in Inr \<lparr>pb_proof = sn_prove S r' pk primary_input auxiliary_input,
                   pb_public_inputs = primary_input, pb_vk = vk\<rparr>)"

record ('pk, 'vk) key_cache =
  kc_pk :: 'pk
  kc_vk :: 'vk
  kc_valid :: bool

definition key_cache_init :: "('r, 'cs, 'pk, 'vk, 'x, 'w, 'p) snark \<Rightarrow> ('pk, 'vk) key_cache" where
  "key_cache_init S = \<lparr>kc_pk = sn_pk0 S, kc_vk = sn_vk0 S, kc_valid = False\<rparr>"

definition setup_keys :: "('r, 'cs, 'pk, 'vk, 'x, 'w, 'p) snark \<Rightarrow> 'r \<Rightarrow> 'cs \<Rightarrow>
    (('pk, 'vk) key_cache, 'vk) prog" where
  "setup_keys S r cs = (\<lambda>k. let (pk, vk) = sn_generate S r cs;
       k' = k\<lparr>kc_vk := vk, kc_pk := pk, kc_valid := True\<rparr>
     in (Inr (kc_vk k'), k'))"

definition prove :: "('r, 'cs, 'pk, 'vk, 'x, 'w, 'p) snark \<Rightarrow> 'r \<Rightarrow> 'x \<Rightarrow> 'w \<Rightarrow>
    (('pk, 'vk) key_cache, 'p) prog" where
  "prove S r primary_input auxiliary_input = (\<lambda>k.
     (if \<not> kc_valid k
      then (throw (Runtime_error ''Keypair not set up. Call setup() first.''), k)
      else (Inr (sn_prove S r (kc_pk k) primary_input auxiliary_input), k)))"

definition clear_cached_keypair :: "('r, 'cs, 'pk, 'vk, 'x, 'w, 'p) snark \<Rightarrow>
    (('pk, 'vk) key_cache, unit) prog" where
  "clear_cached_keypair S = (\<lambda>k.
     (Inr (), k\<lparr>kc_pk := sn_pk0 S, kc_vk := sn_vk0 S, kc_valid := False\<rparr>))"

definition verify_proof :: "('r, 'cs, 'pk, 'vk, 'x, 'w, 'p) snark \<Rightarrow> 'vk \<Rightarrow> 'x \<Rightarrow> 'p \<Rightarrow> bool" where
  "verify_proof S vk public_inputs pf = sn_verify S vk public_inputs pf"

lemma generate_proof_verifies:
  assumes "generate_proof S r r' cs x w = Inr b" and "snark_complete S cs x w"
  shows "verify_proof S (pb_vk b) (pb_public_inputs b) (pb_proof b)" "sn_satisfied S cs x w"
  using assms(1) snark_completeD [OF assms(2)]
  by (auto simp: generate_proof_def verify_proof_def split: prod.splits if_splits)

lemma setup_then_prove:
  assumes "snark_complete S cs x w" and "sn_satisfied S cs x w"
    and "setup_keys S r cs k = (Inr vk, k1)" and "prove S r' x w k1 = (pr, k2)"
  shows "\<exists>pf. pr = Inr pf \<and> verify_proof S vk x pf \<and> k2 = k1"
  using assms(3,4) snark_completeD [OF assms(1,2), of r]
  by (auto simp: setup_keys_def prove_def verify_proof_def Let_def split: prod.splits)

lemma prove_after_clear:
  "clear_cached_keypair S k = (u, k1) \<Longrightarrow>
    prove S r x w k1 = (throw (Runtime_error ''Keypair not set up. Call setup() first.''), k1)"
  by (auto simp: clear_cached_keypair_def prove_def)

lemma prove_keeps_cache: "prove S r x w k = (p, k') \<Longrightarrow> k' = k"
  by (auto simp: prove_def split: if_splits)

lemma clear_is_init:
  "clear_cached_keypair S k = (Inr (), key_cache_init S)"
  by (cases k) (simp add: clear_cached_keypair_def key_cache_init_def)

section \<open>Public inputs\<close>

text \<open>
  \<open>'f\<close> is the field of the curve. \<open>fe_write\<close> is the text that \<open>operator<<\<close> of libff's \<open>bigint\<close>
  writes, \<open>fe_read\<close> reads one back from 32 bytes.
\<close>

record 'f field_io =
  fe_write :: "'f \<Rightarrow> bytes"
  fe_read :: "bytes \<Rightarrow> 'f"

definition elem_bytes :: nat where
  "elem_bytes = 32"

definition count_bytes :: "u32 \<Rightarrow> bytes" where
  "count_bytes n =
     [ucast (n AND 0xFF), ucast (drop_bit 8 n AND 0xFF), ucast (drop_bit 16 n AND 0xFF),
      ucast (drop_bit 24 n AND 0xFF)]"

fun count_of :: "bytes \<Rightarrow> u32" where
  "count_of (b0 # b1 # b2 # b3 # _) =
     ucast b0 OR push_bit 8 (ucast b1) OR push_bit 16 (ucast b2) OR push_bit 24 (ucast b3)"
| "count_of _ = 0"

text \<open>One slot of the zero-initialised result, after the copy of at most 32 bytes.\<close>

definition elem_slot :: "'f field_io \<Rightarrow> 'f \<Rightarrow> bytes" where
  "elem_slot F x = (let s = fe_write F x; copy_n = min (length s) elem_bytes
     in take copy_n s @ replicate (elem_bytes - copy_n) 0)"

definition serialize_public_inputs :: "'f field_io \<Rightarrow> 'f list \<Rightarrow> bytes result" where
  "serialize_public_inputs F xs =
     (let num_inputs = (of_nat (length xs) :: u32) in
      if length xs > unat num_inputs then Inl (Ub ''write past the end of the result'')
      else Inr (count_bytes num_inputs @ concat (map (elem_slot F) xs)))"

fun read_elems :: "'f field_io \<Rightarrow> nat \<Rightarrow> bytes \<Rightarrow> 'f list" where
  "read_elems F 0 bs = []"
| "read_elems F (Suc n) bs = fe_read F (take elem_bytes bs) # read_elems F n (drop elem_bytes bs)"

definition deserialize_public_inputs :: "'f field_io \<Rightarrow> bytes \<Rightarrow> 'f list result" where
  "deserialize_public_inputs F bs =
     (if length bs < 4 then throw (Runtime_error ''Invalid public inputs: too short'')
      else let num_inputs = count_of bs in
        if length bs < 4 + unat num_inputs * elem_bytes
        then throw (Runtime_error ''Invalid public inputs: size mismatch'')
        else Inr (read_elems F (unat num_inputs) (drop 4 bs)))"

text \<open>The binary mode of libff: an element is exactly 32 bytes, and is read back.\<close>

definition binary_mode :: "'f field_io \<Rightarrow> 'f list \<Rightarrow> bool" where
  "binary_mode F xs \<longleftrightarrow>
     list_all (\<lambda>x. length (fe_write F x) = elem_bytes \<and> fe_read F (fe_write F x) = x) xs"

lemma length_elem_slot [simp]: "length (elem_slot F x) = elem_bytes"
  by (simp add: elem_slot_def Let_def)

lemma count_of_count_bytes [simp]: "count_of (count_bytes n @ bs) = n"
proof -
  have ff: "(w :: u32) AND 0xFF = take_bit 8 w" for w
    by (simp add: take_bit_eq_mask mask_eq_exp_minus_1)
  show ?thesis
    unfolding count_bytes_def append_Cons count_of.simps ff
  proof (rule bit_word_eqI)
    fix i
    assume "i < LENGTH(32)"
    then consider "i < 8" | "8 \<le> i" "i < 16" | "16 \<le> i" "i < 24" | "24 \<le> i" "i < 32"
      by force
    then show "bit (ucast (ucast (take_bit 8 n) :: byte) OR
        push_bit 8 (ucast (ucast (take_bit 8 (drop_bit 8 n)) :: byte)) OR
        push_bit 16 (ucast (ucast (take_bit 8 (drop_bit 16 n)) :: byte)) OR
        push_bit 24 (ucast (ucast (take_bit 8 (drop_bit 24 n)) :: byte)) :: u32) i \<longleftrightarrow> bit n i"
      by cases
        (auto simp: bit_or_iff bit_push_bit_iff bit_take_bit_iff bit_drop_bit_eq bit_unsigned_iff)
  qed
qed

lemma length_count_bytes [simp]: "length (count_bytes n) = 4"
  by (simp add: count_bytes_def)

lemma length_slots [simp]: "length (concat (map (elem_slot F) xs)) = length xs * elem_bytes"
  by (induction xs) simp_all

lemma read_elems_slots:
  "binary_mode F xs \<Longrightarrow> read_elems F (length xs) (concat (map (elem_slot F) xs) @ tail) = xs"
  by (induction xs) (simp_all add: binary_mode_def elem_slot_def Let_def)

lemma public_inputs_round_trip:
  assumes "binary_mode F xs" and "length xs < 2 ^ 32"
  shows "\<exists>bs. serialize_public_inputs F xs = Inr bs \<and> length bs = 4 + length xs * elem_bytes \<and>
    deserialize_public_inputs F bs = Inr xs"
proof -
  have n: "unat (of_nat (length xs) :: u32) = length xs"
    using assms(2) by (simp add: unat_of_nat)
  show ?thesis
    using read_elems_slots [OF assms(1), of "[]"] n
    by (simp add: serialize_public_inputs_def deserialize_public_inputs_def Let_def)
qed

lemma deserialize_public_inputs_bounded:
  "deserialize_public_inputs F bs = Inr xs \<Longrightarrow> 4 + length xs * elem_bytes \<le> length bs"
proof -
  have len: "length (read_elems F n cs) = n" for n cs
    by (induction n arbitrary: cs) simp_all
  show "deserialize_public_inputs F bs = Inr xs \<Longrightarrow> ?thesis"
    by (auto simp: deserialize_public_inputs_def Let_def len split: if_splits)
qed

end
