(* ===== verification/Hashing_Hex.thy ===== *)
theory Hashing_Hex
  imports Khipu_Prelude
begin

text \<open>
  \<open>hashing.cpp\<close>: the BLAKE3 wrapper and the hexadecimal text of digests and nonces. The BLAKE3
  library is a parameter, a record of its three streaming operations; everything above it uses
  only the resulting function from bytes to a digest.
\<close>

type_synonym hash32 = bytes

definition is_hash32 :: "hash32 \<Rightarrow> bool" where
  "is_hash32 h \<longleftrightarrow> length h = 32"

section \<open>BLAKE3\<close>

record 'h blake3 =
  b3_init :: 'h
  b3_update :: "'h \<Rightarrow> bytes \<Rightarrow> 'h"
  b3_finalize :: "'h \<Rightarrow> hash32"

definition blake3_hash :: "'h blake3 \<Rightarrow> bytes \<Rightarrow> hash32" where
  "blake3_hash b3 data =
     (let hasher = b3_init b3;
          hasher' = (if length data > 0 then b3_update b3 hasher data else hasher)
      in b3_finalize b3 hasher')"

definition blake3_hash_string :: "'h blake3 \<Rightarrow> string \<Rightarrow> hash32" where
  "blake3_hash_string b3 s = blake3_hash b3 (to_bytes s)"

section \<open>Hexadecimal text\<close>

definition kHexChars :: string where
  "kHexChars = ''0123456789abcdef''"

definition hex_val :: "char \<Rightarrow> byte result" where
  "hex_val c = (let n = (of_char c :: nat) in
     if of_char CHR ''0'' \<le> n \<and> n \<le> of_char CHR ''9''
     then Inr (of_nat (n - of_char CHR ''0''))
     else if of_char CHR ''a'' \<le> n \<and> n \<le> of_char CHR ''f''
     then Inr (of_nat (n - of_char CHR ''a'' + 10))
     else if of_char CHR ''A'' \<le> n \<and> n \<le> of_char CHR ''F''
     then Inr (of_nat (n - of_char CHR ''A'' + 10))
     else throw (Invalid_argument ''invalid hex character''))"

fun to_hex :: "bytes \<Rightarrow> string" where
  "to_hex [] = []"
| "to_hex (b # bs) =
     kHexChars ! unat (drop_bit 4 b) # kHexChars ! unat (b AND 0x0F) # to_hex bs"

fun hex_pairs :: "string \<Rightarrow> bytes result" where
  "hex_pairs (c # d # rest) =
     bind_r (hex_val c) (\<lambda>hi. bind_r (hex_val d) (\<lambda>lo.
     bind_r (hex_pairs rest) (\<lambda>bs. Inr ((push_bit 4 hi OR lo) # bs))))"
| "hex_pairs _ = Inr []"

definition from_hex :: "string \<Rightarrow> bytes result" where
  "from_hex hex =
     (if length hex mod 2 \<noteq> 0 then throw (Invalid_argument ''hex string has odd length'')
      else hex_pairs hex)"

definition hash_from_hex :: "string \<Rightarrow> hash32 result" where
  "hash_from_hex hex =
     (if length hex \<noteq> 64
      then throw (Invalid_argument ''expected 64 hex chars for 32-byte hash'')
      else hex_pairs hex)"

text \<open>\<open>std::tolower\<close> in the C locale, applied to every character.\<close>

definition lower_char :: "char \<Rightarrow> char" where
  "lower_char c = (let n = (of_char c :: nat) in
     if of_char CHR ''A'' \<le> n \<and> n \<le> of_char CHR ''Z'' then char_of (n + 32) else c)"

definition to_lower :: "string \<Rightarrow> string" where
  "to_lower s = map lower_char s"

definition hex_match :: "string \<Rightarrow> string \<Rightarrow> bool" where
  "hex_match a b \<longleftrightarrow> to_lower a = to_lower b"

section \<open>Nibbles\<close>

lemma word4_cases: "(n :: nat) < 16 \<Longrightarrow>
    n \<in> {0, 1, 2, 3, 4, 5, 6, 7, 8, 9, 10, 11, 12, 13, 14, 15}"
  by (simp only: insert_iff empty_iff) arith

lemma hex_val_digit: "n < 16 \<Longrightarrow> hex_val (kHexChars ! n) = Inr (of_nat n)"
  using word4_cases [of n] by (auto simp: hex_val_def kHexChars_def Let_def)

lemma kHexChars_inj: "m < 16 \<Longrightarrow> n < 16 \<Longrightarrow> kHexChars ! m = kHexChars ! n \<longleftrightarrow> m = n"
proof -
  assume "m < 16" "n < 16"
  then have "distinct kHexChars" "m < length kHexChars" "n < length kHexChars"
    by (simp_all add: kHexChars_def)
  then show ?thesis by (simp add: nth_eq_iff_index_eq)
qed

lemma nibble_bounds: "unat (drop_bit 4 (b :: byte)) < 16" "unat ((b :: byte) AND 0x0F) < 16"
proof -
  have "unat b < 256"
    using unsigned_less [of b] by simp
  then have "unat b div 16 < 16" by simp
  moreover have "unat (drop_bit 4 b) = unat b div 16"
    by (simp add: drop_bit_eq_div unat_div)
  ultimately show "unat (drop_bit 4 b) < 16" by simp
  have "b AND 0x0F = take_bit 4 b"
    by (simp add: take_bit_eq_mask mask_eq_exp_minus_1)
  then show "unat (b AND 0x0F) < 16"
    by (simp add: take_bit_eq_mod unat_mod)
qed

lemma nibbles_join: "push_bit 4 (drop_bit 4 b) OR (b AND 0x0F) = (b :: byte)"
proof -
  have "b AND 0x0F = take_bit 4 b"
    by (simp add: take_bit_eq_mask mask_eq_exp_minus_1)
  then show ?thesis
    by (simp only:) (rule bit_word_eqI, auto simp: bit_or_iff bit_push_bit_iff bit_drop_bit_eq
        bit_take_bit_iff)
qed

lemma length_to_hex [simp]: "length (to_hex bs) = 2 * length bs"
  by (induction bs) simp_all

lemma hex_pairs_to_hex [simp]: "hex_pairs (to_hex bs) = Inr bs"
  by (induction bs) (simp_all add: hex_val_digit nibble_bounds nibbles_join)

lemma from_hex_to_hex: "from_hex (to_hex bs) = Inr bs"
  by (simp add: from_hex_def)

lemma hash_from_hex_to_hex: "is_hash32 h \<Longrightarrow> hash_from_hex (to_hex h) = Inr h"
  by (simp add: hash_from_hex_def is_hash32_def)

lemma to_hex_inject [simp]: "to_hex a = to_hex b \<longleftrightarrow> a = b"
  by (metis hex_pairs_to_hex sum.inject(2))

lemma set_to_hex: "set (to_hex bs) \<subseteq> set kHexChars"
proof (induction bs)
  case Nil
  then show ?case by simp
next
  case (Cons b bs)
  have "length kHexChars = 16" by (simp add: kHexChars_def)
  with Cons nibble_bounds [of b] show ?case by auto
qed

lemma hex_pairs_length: "hex_pairs s = Inr bs \<Longrightarrow> even (length s) \<Longrightarrow> length s = 2 * length bs"
  by (induction s arbitrary: bs rule: hex_pairs.induct) auto

lemma hash_from_hex_is_hash32: "hash_from_hex s = Inr h \<Longrightarrow> is_hash32 h"
  using hex_pairs_length [of s h] by (auto simp: hash_from_hex_def is_hash32_def split: if_splits)

text \<open>A character that \<open>hex_val\<close> accepts is the hex digit of its value, up to case.\<close>

lemma hex_chars_of_codes:
  "\<forall>n \<in> set [48..<58]. kHexChars ! (n - 48) = char_of (n :: nat)"
  "\<forall>n \<in> set [97..<103]. kHexChars ! (n - 97 + 10) = char_of (n :: nat)"
  "\<forall>n \<in> set [65..<71]. kHexChars ! (n - 65 + 10) = char_of (n + 32 :: nat)"
  by code_simp+

lemma mem_upt_iff: "n \<in> set [i..<j] \<longleftrightarrow> i \<le> n \<and> n < j"
  by (simp only: set_upt atLeastLessThan_iff)

lemma unat_nibble: "k < 16 \<Longrightarrow> unat (of_nat k :: byte) = k"
  by (simp add: unat_of_nat)

lemma hex_val_lower:
  assumes "hex_val c = Inr v"
  shows "unat v < 16 \<and> lower_char c = kHexChars ! unat v"
proof -
  define n where "n = (of_char c :: nat)"
  have c: "c = char_of n" by (simp add: n_def)
  consider "48 \<le> n" "n \<le> 57" "v = of_nat (n - 48)"
    | "97 \<le> n" "n \<le> 102" "v = of_nat (n - 97 + 10)"
    | "65 \<le> n" "n \<le> 70" "v = of_nat (n - 65 + 10)"
    using assms by (auto simp: hex_val_def Let_def n_def [symmetric] split: if_splits)
  then show ?thesis
  proof cases
    case 1
    have "n - 48 < 16" using 1 by linarith
    then have "unat v = n - 48" using 1(3) unat_nibble by blast
    moreover have "kHexChars ! (n - 48) = c"
      using bspec [OF hex_chars_of_codes(1), of n] mem_upt_iff [of n 48 58] 1 c by simp
    ultimately show ?thesis
      using 1 by (simp add: lower_char_def Let_def n_def [symmetric])
  next
    case 2
    have "n - 97 + 10 < 16" using 2 by linarith
    then have "unat v = n - 97 + 10" using 2(3) unat_nibble by blast
    moreover have "kHexChars ! (n - 97 + 10) = c"
      using bspec [OF hex_chars_of_codes(2), of n] mem_upt_iff [of n 97 103] 2 c by simp
    ultimately show ?thesis
      using 2 by (simp add: lower_char_def Let_def n_def [symmetric])
  next
    case 3
    have "n - 65 + 10 < 16" using 3 by linarith
    then have "unat v = n - 65 + 10" using 3(3) unat_nibble by blast
    moreover have "kHexChars ! (n - 65 + 10) = char_of (n + 32)"
      using bspec [OF hex_chars_of_codes(3), of n] mem_upt_iff [of n 65 71] 3 by simp
    ultimately show ?thesis
      using 3 by (simp add: lower_char_def Let_def n_def [symmetric])
  qed
qed

lemma nibbles_split:
  assumes "unat hi < 16" and "unat lo < 16"
  shows "unat (drop_bit 4 (push_bit 4 hi OR lo :: byte)) = unat hi"
    and "unat ((push_bit 4 hi OR lo :: byte) AND 0x0F) = unat lo"
proof -
  have small: "take_bit 4 w = w" if "unat w < 16" for w :: byte
  proof -
    have "unat (take_bit 4 w) = unat w mod 16"
      by (simp add: take_bit_eq_mod unat_mod)
    with that show ?thesis by (simp add: word_unat_eq_iff)
  qed
  have nb: "bit w i \<Longrightarrow> i < 4" if "unat w < 16" for w :: byte and i
    using small [OF that] by (metis bit_take_bit_iff)
  have "drop_bit 4 (push_bit 4 hi OR lo) = hi"
    by (rule bit_word_eqI)
      (auto simp: bit_or_iff bit_push_bit_iff bit_drop_bit_eq dest: nb [OF assms(1)] nb [OF assms(2)])
  then show "unat (drop_bit 4 (push_bit 4 hi OR lo)) = unat hi" by simp
  have "(push_bit 4 hi OR lo) AND 0x0F = take_bit 4 (push_bit 4 hi OR lo)"
    by (simp add: take_bit_eq_mask mask_eq_exp_minus_1)
  also have "\<dots> = lo"
    by (rule bit_word_eqI)
      (auto simp: bit_or_iff bit_push_bit_iff bit_take_bit_iff dest: nb [OF assms(2)])
  finally show "unat ((push_bit 4 hi OR lo) AND 0x0F) = unat lo" by simp
qed

lemma to_hex_hex_pairs:
  "hex_pairs s = Inr bs \<Longrightarrow> even (length s) \<Longrightarrow> to_hex bs = to_lower s"
proof (induction s arbitrary: bs rule: hex_pairs.induct)
  case (1 c d rest)
  then obtain hi lo bs' where *: "hex_val c = Inr hi" "hex_val d = Inr lo"
    "hex_pairs rest = Inr bs'" "bs = (push_bit 4 hi OR lo) # bs'" by auto
  with "1.IH" [OF *(1,2)] "1.prems" have "to_hex bs' = to_lower rest" by simp
  moreover have "to_hex bs = kHexChars ! unat hi # kHexChars ! unat lo # to_hex bs'"
    using hex_val_lower [OF *(1)] hex_val_lower [OF *(2)]
    by (simp only: *(4) to_hex.simps nibbles_split)
  ultimately show ?case
    using hex_val_lower [OF *(1)] hex_val_lower [OF *(2)] by (simp add: to_lower_def)
qed (simp_all add: to_lower_def)

lemma hex_match_refl [simp]: "hex_match a a"
  by (simp add: hex_match_def)

lemma lower_char_hex: "c \<in> set kHexChars \<Longrightarrow> lower_char c = c"
  by (auto simp: kHexChars_def lower_char_def)

lemma to_lower_to_hex [simp]: "to_lower (to_hex bs) = to_hex bs"
proof -
  have "\<forall>c \<in> set (to_hex bs). lower_char c = c"
    using set_to_hex lower_char_hex by blast
  then show ?thesis by (simp add: to_lower_def map_idI)
qed

text \<open>Two texts that match denote the same bytes.\<close>

lemma hex_match_bytes:
  assumes "hex_match a b" and "from_hex a = Inr x" and "from_hex b = Inr y"
  shows "x = y"
proof -
  have "even (length a)" "even (length b)" "hex_pairs a = Inr x" "hex_pairs b = Inr y"
    using assms(2,3) by (auto simp: from_hex_def even_iff_mod_2_eq_zero split: if_splits)
  then have "to_hex x = to_lower a" "to_hex y = to_lower b"
    using to_hex_hex_pairs by blast+
  with assms(1) have "to_hex x = to_hex y" by (simp only: hex_match_def)
  then show ?thesis by (simp only: to_hex_inject)
qed

end
