(* ===== verification/Transcripts.thy ===== *)
theory Transcripts
  imports Hashing_Hex
begin

text \<open>
  \<open>transcript.cpp\<close> of the four prototypes: the record of one evaluation that the server sends and
  the client checks, and its JSON form. \<open>tee-vfhe\<close> and \<open>gpucc-vfhe\<close> share one record; the BGV
  and ZK prototypes extend it with their own measurements, as record extensions.

  nlohmann::json is a parameter: \<open>json\<close> is its value type, the record \<open>json_lib\<close> the
  operations that the sources call.
\<close>

section \<open>The JSON library\<close>

datatype json =
    JNull
  | JBool bool
  | JUInt u64
  | JInt int
  | JFloat string
  | JStr string
  | JArr "json list"
  | JObj "(string \<times> json) list"

text \<open>
  \<open>js_parse\<close> is \<open>json::parse\<close>, \<open>js_dump\<close> is \<open>dump()\<close>, \<open>js_at j k\<close> is \<open>j.at(k)\<close>,
  \<open>js_get_string\<close> is \<open>get<std::string>()\<close>, \<open>js_items\<close> the elements a range \<open>for\<close> visits,
  \<open>js_value_u64\<close> and \<open>js_value_str\<close> are \<open>value(k, default)\<close>, \<open>js_contains\<close> is \<open>contains\<close>,
  \<open>js_index\<close> and \<open>js_key\<close> are \<open>operator[]\<close> with a position and a key.
\<close>

record json_lib =
  js_parse :: "string \<Rightarrow> json result"
  js_dump :: "json \<Rightarrow> string"
  js_at :: "json \<Rightarrow> string \<Rightarrow> json result"
  js_get_string :: "json \<Rightarrow> string result"
  js_items :: "json \<Rightarrow> json list"
  js_value_u64 :: "json \<Rightarrow> string \<Rightarrow> u64 \<Rightarrow> u64 result"
  js_value_str :: "json \<Rightarrow> string \<Rightarrow> string \<Rightarrow> string result"
  js_contains :: "json \<Rightarrow> string \<Rightarrow> bool"
  js_index :: "json \<Rightarrow> nat \<Rightarrow> json result"
  js_key :: "json \<Rightarrow> string \<Rightarrow> json result"

text \<open>
  The documented behaviour that the transcripts rely on: access to the members of an object, and
  that parsing the text of a document gives a document with the same members (objects are ordered
  by key, so the order of the members may change).
\<close>

definition json_members :: "json_lib \<Rightarrow> bool" where
  "json_members J \<longleftrightarrow>
     (\<forall>m k v. map_of m k = Some v \<longrightarrow> js_at J (JObj m) k = Inr v) \<and>
     (\<forall>s. js_get_string J (JStr s) = Inr s) \<and>
     (\<forall>xs. js_items J (JArr xs) = xs) \<and>
     (\<forall>m k n d. map_of m k = Some (JUInt n) \<longrightarrow> js_value_u64 J (JObj m) k d = Inr n) \<and>
     (\<forall>m k d. map_of m k = None \<longrightarrow> js_value_u64 J (JObj m) k d = Inr d)"

definition json_text :: "json_lib \<Rightarrow> (string \<times> json) list \<Rightarrow> bool" where
  "json_text J m \<longleftrightarrow>
     (\<exists>m'. js_parse J (js_dump J (JObj m)) = Inr (JObj m') \<and> map_of m' = map_of m)"

lemma json_membersD:
  assumes "json_members J"
  shows "map_of m k = Some v \<Longrightarrow> js_at J (JObj m) k = Inr v"
    and "js_get_string J (JStr s) = Inr s"
    and "js_items J (JArr xs) = xs"
    and "map_of m k = Some (JUInt n) \<Longrightarrow> js_value_u64 J (JObj m) k d = Inr n"
    and "map_of m k = None \<Longrightarrow> js_value_u64 J (JObj m) k d = Inr d"
  using assms by (simp_all add: json_members_def)

section \<open>The records\<close>

record transcript =
  tr_nonce :: bytes
  tr_eval_key_hash :: hash32
  tr_input_ct_hashes :: "hash32 list"
  tr_output_ct_hash :: hash32
  tr_fhe_eval_us :: u64
  tr_transcript_us :: u64
  tr_quote_us :: u64

record bgv_transcript = transcript +
  tr_ctx_us :: u64
  tr_outser_us :: u64

record zk_transcript = transcript +
  tr_witness_us :: u64
  tr_proof_us :: u64
  tr_input_loading_us :: u64
  tr_packaging_us :: u64
  tr_peak_mem_kb :: u64

definition wf_transcript :: "'a transcript_scheme \<Rightarrow> bool" where
  "wf_transcript t \<longleftrightarrow> is_hash32 (tr_eval_key_hash t) \<and> list_all is_hash32 (tr_input_ct_hashes t) \<and>
     is_hash32 (tr_output_ct_hash t)"

section \<open>To JSON\<close>

text \<open>The members that all prototypes write first, in the order of the assignments.\<close>

definition evidence_members :: "'a transcript_scheme \<Rightarrow> (string \<times> json) list" where
  "evidence_members t =
     [(''nonce'', JStr (to_hex (tr_nonce t))),
      (''eval_key_hash'', JStr (to_hex (tr_eval_key_hash t))),
      (''input_ct_hashes'', JArr (map (\<lambda>h. JStr (to_hex h)) (tr_input_ct_hashes t))),
      (''output_ct_hash'', JStr (to_hex (tr_output_ct_hash t)))]"

definition transcript_members :: "transcript \<Rightarrow> (string \<times> json) list" where
  "transcript_members t = evidence_members t @
     [(''fhe_eval_us'', JUInt (tr_fhe_eval_us t)),
      (''transcript_us'', JUInt (tr_transcript_us t)),
      (''quote_us'', JUInt (tr_quote_us t))]"

definition bgv_transcript_members :: "bgv_transcript \<Rightarrow> (string \<times> json) list" where
  "bgv_transcript_members t = evidence_members t @
     [(''fhe_eval_us'', JUInt (tr_fhe_eval_us t)),
      (''transcript_us'', JUInt (tr_transcript_us t)),
      (''quote_us'', JUInt (tr_quote_us t)),
      (''ctx_us'', JUInt (tr_ctx_us t)),
      (''outser_us'', JUInt (tr_outser_us t))]"

definition zk_transcript_members :: "zk_transcript \<Rightarrow> (string \<times> json) list" where
  "zk_transcript_members t = evidence_members t @
     [(''fhe_eval_us'', JUInt (tr_fhe_eval_us t)),
      (''witness_us'', JUInt (tr_witness_us t)),
      (''proof_us'', JUInt (tr_proof_us t)),
      (''transcript_us'', JUInt (tr_transcript_us t)),
      (''quote_us'', JUInt (tr_quote_us t)),
      (''input_loading_us'', JUInt (tr_input_loading_us t)),
      (''packaging_us'', JUInt (tr_packaging_us t)),
      (''peak_mem_kb'', JUInt (tr_peak_mem_kb t))]"

definition to_json :: "json_lib \<Rightarrow> transcript \<Rightarrow> string" where
  "to_json J t = js_dump J (JObj (transcript_members t))"

definition bgv_to_json :: "json_lib \<Rightarrow> bgv_transcript \<Rightarrow> string" where
  "bgv_to_json J t = js_dump J (JObj (bgv_transcript_members t))"

definition zk_to_json :: "json_lib \<Rightarrow> zk_transcript \<Rightarrow> string" where
  "zk_to_json J t = js_dump J (JObj (zk_transcript_members t))"

section \<open>From JSON\<close>

definition evidence_from_json :: "json_lib \<Rightarrow> json \<Rightarrow>
    (bytes \<times> hash32 \<times> hash32 list \<times> hash32) result" where
  "evidence_from_json J j =
     bind_r (bind_r (js_at J j ''nonce'') (js_get_string J)) (\<lambda>s.
     bind_r (from_hex s) (\<lambda>nonce.
     bind_r (bind_r (js_at J j ''eval_key_hash'') (js_get_string J)) (\<lambda>s.
     bind_r (hash_from_hex s) (\<lambda>ek.
     bind_r (js_at J j ''input_ct_hashes'') (\<lambda>arr.
     bind_r (map_r (\<lambda>h. bind_r (js_get_string J h) hash_from_hex) (js_items J arr)) (\<lambda>ins.
     bind_r (bind_r (js_at J j ''output_ct_hash'') (js_get_string J)) (\<lambda>s.
     bind_r (hash_from_hex s) (\<lambda>out. Inr (nonce, ek, ins, out)))))))))"

definition from_json :: "json_lib \<Rightarrow> string \<Rightarrow> transcript result" where
  "from_json J s =
     bind_r (js_parse J s) (\<lambda>j.
     bind_r (evidence_from_json J j) (\<lambda>(nonce, ek, ins, out).
     bind_r (js_value_u64 J j ''fhe_eval_us'' 0) (\<lambda>ev.
     bind_r (js_value_u64 J j ''transcript_us'' 0) (\<lambda>tr.
     bind_r (js_value_u64 J j ''quote_us'' 0) (\<lambda>qu.
     Inr \<lparr>tr_nonce = nonce, tr_eval_key_hash = ek, tr_input_ct_hashes = ins,
       tr_output_ct_hash = out, tr_fhe_eval_us = ev, tr_transcript_us = tr,
       tr_quote_us = qu\<rparr>)))))"

definition bgv_from_json :: "json_lib \<Rightarrow> string \<Rightarrow> bgv_transcript result" where
  "bgv_from_json J s =
     bind_r (js_parse J s) (\<lambda>j.
     bind_r (evidence_from_json J j) (\<lambda>(nonce, ek, ins, out).
     bind_r (js_value_u64 J j ''fhe_eval_us'' 0) (\<lambda>ev.
     bind_r (js_value_u64 J j ''transcript_us'' 0) (\<lambda>tr.
     bind_r (js_value_u64 J j ''quote_us'' 0) (\<lambda>qu.
     bind_r (js_value_u64 J j ''ctx_us'' 0) (\<lambda>ctx.
     bind_r (js_value_u64 J j ''outser_us'' 0) (\<lambda>os.
     Inr \<lparr>tr_nonce = nonce, tr_eval_key_hash = ek, tr_input_ct_hashes = ins,
       tr_output_ct_hash = out, tr_fhe_eval_us = ev, tr_transcript_us = tr,
       tr_quote_us = qu, tr_ctx_us = ctx, tr_outser_us = os\<rparr>)))))))"

definition zk_from_json :: "json_lib \<Rightarrow> string \<Rightarrow> zk_transcript result" where
  "zk_from_json J s =
     bind_r (js_parse J s) (\<lambda>j.
     bind_r (evidence_from_json J j) (\<lambda>(nonce, ek, ins, out).
     bind_r (js_value_u64 J j ''fhe_eval_us'' 0) (\<lambda>ev.
     bind_r (js_value_u64 J j ''witness_us'' 0) (\<lambda>wi.
     bind_r (js_value_u64 J j ''proof_us'' 0) (\<lambda>pr.
     bind_r (js_value_u64 J j ''transcript_us'' 0) (\<lambda>tr.
     bind_r (js_value_u64 J j ''quote_us'' 0) (\<lambda>qu.
     bind_r (js_value_u64 J j ''input_loading_us'' 0) (\<lambda>il.
     bind_r (js_value_u64 J j ''packaging_us'' 0) (\<lambda>pk.
     bind_r (js_value_u64 J j ''peak_mem_kb'' 0) (\<lambda>pm.
     Inr \<lparr>tr_nonce = nonce, tr_eval_key_hash = ek, tr_input_ct_hashes = ins,
       tr_output_ct_hash = out, tr_fhe_eval_us = ev, tr_transcript_us = tr,
       tr_quote_us = qu, tr_witness_us = wi, tr_proof_us = pr, tr_input_loading_us = il,
       tr_packaging_us = pk, tr_peak_mem_kb = pm\<rparr>))))))))))"

section \<open>Round trips\<close>

lemma evidence_keys:
  "map_of (evidence_members t @ m) ''nonce'' = Some (JStr (to_hex (tr_nonce t)))"
  "map_of (evidence_members t @ m) ''eval_key_hash'' = Some (JStr (to_hex (tr_eval_key_hash t)))"
  "map_of (evidence_members t @ m) ''input_ct_hashes'' =
     Some (JArr (map (\<lambda>h. JStr (to_hex h)) (tr_input_ct_hashes t)))"
  "map_of (evidence_members t @ m) ''output_ct_hash'' = Some (JStr (to_hex (tr_output_ct_hash t)))"
  by (simp_all add: evidence_members_def)

lemma transcript_keys:
  "map_of (transcript_members t) ''fhe_eval_us'' = Some (JUInt (tr_fhe_eval_us t))"
  "map_of (transcript_members t) ''transcript_us'' = Some (JUInt (tr_transcript_us t))"
  "map_of (transcript_members t) ''quote_us'' = Some (JUInt (tr_quote_us t))"
  by (simp_all add: transcript_members_def evidence_members_def)

lemma bgv_transcript_keys:
  "map_of (bgv_transcript_members t) ''fhe_eval_us'' = Some (JUInt (tr_fhe_eval_us t))"
  "map_of (bgv_transcript_members t) ''transcript_us'' = Some (JUInt (tr_transcript_us t))"
  "map_of (bgv_transcript_members t) ''quote_us'' = Some (JUInt (tr_quote_us t))"
  "map_of (bgv_transcript_members t) ''ctx_us'' = Some (JUInt (tr_ctx_us t))"
  "map_of (bgv_transcript_members t) ''outser_us'' = Some (JUInt (tr_outser_us t))"
  by (simp_all add: bgv_transcript_members_def evidence_members_def)

lemma zk_transcript_keys:
  "map_of (zk_transcript_members t) ''fhe_eval_us'' = Some (JUInt (tr_fhe_eval_us t))"
  "map_of (zk_transcript_members t) ''witness_us'' = Some (JUInt (tr_witness_us t))"
  "map_of (zk_transcript_members t) ''proof_us'' = Some (JUInt (tr_proof_us t))"
  "map_of (zk_transcript_members t) ''transcript_us'' = Some (JUInt (tr_transcript_us t))"
  "map_of (zk_transcript_members t) ''quote_us'' = Some (JUInt (tr_quote_us t))"
  "map_of (zk_transcript_members t) ''input_loading_us'' = Some (JUInt (tr_input_loading_us t))"
  "map_of (zk_transcript_members t) ''packaging_us'' = Some (JUInt (tr_packaging_us t))"
  "map_of (zk_transcript_members t) ''peak_mem_kb'' = Some (JUInt (tr_peak_mem_kb t))"
  by (simp_all add: zk_transcript_members_def evidence_members_def)

lemma evidence_round_trip:
  assumes J: "json_members J" and wf: "wf_transcript t"
    and same: "map_of m' = map_of (evidence_members t @ m)"
  shows "evidence_from_json J (JObj m') =
    Inr (tr_nonce t, tr_eval_key_hash t, tr_input_ct_hashes t, tr_output_ct_hash t)"
proof -
  note jd = json_membersD(2,3) [OF J]
  have at: "js_at J (JObj m') k = Inr v" if "map_of (evidence_members t @ m) k = Some v" for k v
    using that same by (intro json_membersD(1) [OF J]) simp
  note fields = at [OF evidence_keys(1)] at [OF evidence_keys(2)] at [OF evidence_keys(3)]
    at [OF evidence_keys(4)]
  have ins: "map_r (\<lambda>h. bind_r (js_get_string J h) hash_from_hex)
      (map (\<lambda>h. JStr (to_hex h)) hs) = Inr hs" if "list_all is_hash32 hs" for hs
    using that by (induction hs) (simp_all add: jd hash_from_hex_to_hex)
  show ?thesis
    using wf ins [of "tr_input_ct_hashes t"]
    by (simp add: evidence_from_json_def fields jd from_hex_to_hex hash_from_hex_to_hex
        wf_transcript_def)
qed

lemma json_textE:
  assumes "json_text J m"
  obtains m' where "js_parse J (js_dump J (JObj m)) = Inr (JObj m')" "map_of m' = map_of m"
  using assms by (auto simp: json_text_def)

lemma from_json_to_json:
  assumes J: "json_members J" and tx: "json_text J (transcript_members t)"
    and wf: "wf_transcript t"
  shows "from_json J (to_json J t) = Inr t"
proof -
  from tx obtain m' where p: "js_parse J (js_dump J (JObj (transcript_members t))) = Inr (JObj m')"
    and same: "map_of m' = map_of (transcript_members t)" by (rule json_textE)
  have v: "js_value_u64 J (JObj m') k d = Inr n"
    if "map_of (transcript_members t) k = Some (JUInt n)" for k d n
    using that same by (intro json_membersD(4) [OF J]) simp
  show ?thesis
    using evidence_round_trip [OF J wf same [unfolded transcript_members_def]]
    by (simp add: from_json_def to_json_def p v [OF transcript_keys(1)]
        v [OF transcript_keys(2)] v [OF transcript_keys(3)])
qed

lemma bgv_from_json_to_json:
  assumes J: "json_members J" and tx: "json_text J (bgv_transcript_members t)"
    and wf: "wf_transcript t"
  shows "bgv_from_json J (bgv_to_json J t) = Inr t"
proof -
  from tx obtain m' where
    p: "js_parse J (js_dump J (JObj (bgv_transcript_members t))) = Inr (JObj m')"
    and same: "map_of m' = map_of (bgv_transcript_members t)" by (rule json_textE)
  have v: "js_value_u64 J (JObj m') k d = Inr n"
    if "map_of (bgv_transcript_members t) k = Some (JUInt n)" for k d n
    using that same by (intro json_membersD(4) [OF J]) simp
  show ?thesis
    using evidence_round_trip [OF J wf same [unfolded bgv_transcript_members_def]]
    by (simp add: bgv_from_json_def bgv_to_json_def p
        v [OF bgv_transcript_keys(1)]
        v [OF bgv_transcript_keys(2)]
        v [OF bgv_transcript_keys(3)]
        v [OF bgv_transcript_keys(4)]
        v [OF bgv_transcript_keys(5)])
qed

lemma zk_from_json_to_json:
  assumes J: "json_members J" and tx: "json_text J (zk_transcript_members t)"
    and wf: "wf_transcript t"
  shows "zk_from_json J (zk_to_json J t) = Inr t"
proof -
  from tx obtain m' where
    p: "js_parse J (js_dump J (JObj (zk_transcript_members t))) = Inr (JObj m')"
    and same: "map_of m' = map_of (zk_transcript_members t)" by (rule json_textE)
  have v: "js_value_u64 J (JObj m') k d = Inr n"
    if "map_of (zk_transcript_members t) k = Some (JUInt n)" for k d n
    using that same by (intro json_membersD(4) [OF J]) simp
  show ?thesis
    using evidence_round_trip [OF J wf same [unfolded zk_transcript_members_def]]
    by (simp add: zk_from_json_def zk_to_json_def p
        v [OF zk_transcript_keys(1)]
        v [OF zk_transcript_keys(2)]
        v [OF zk_transcript_keys(3)]
        v [OF zk_transcript_keys(4)]
        v [OF zk_transcript_keys(5)]
        v [OF zk_transcript_keys(6)]
        v [OF zk_transcript_keys(7)]
        v [OF zk_transcript_keys(8)])
qed

text \<open>What \<open>from_json\<close> accepts is well formed: its digests have 32 bytes.\<close>

lemma map_r_hash32:
  "map_r (\<lambda>h. bind_r (f h) hash_from_hex) xs = Inr hs \<Longrightarrow> list_all is_hash32 hs"
  by (induction xs arbitrary: hs) (auto dest: hash_from_hex_is_hash32)

lemma from_json_wf: "from_json J s = Inr t \<Longrightarrow> wf_transcript t"
  by (auto simp: from_json_def evidence_from_json_def wf_transcript_def
      dest: hash_from_hex_is_hash32 map_r_hash32)

section \<open>A table-driven instance\<close>

text \<open>
  Texts and documents in a table, members by lookup: an instance of the library for concrete
  inputs, and a proof that the documented behaviour can be met.
\<close>

definition json_table :: "(string \<times> json) list \<Rightarrow> json_lib" where
  "json_table tab = \<lparr>
     js_parse = (\<lambda>s. case map_of tab s of Some j \<Rightarrow> Inr j | None \<Rightarrow> throw (Json_error ''parse'')),
     js_dump = (\<lambda>j. case List.find (\<lambda>p. snd p = j) tab of Some p \<Rightarrow> fst p | None \<Rightarrow> []),
     js_at = (\<lambda>j k. case j of
         JObj m \<Rightarrow> (case map_of m k of Some v \<Rightarrow> Inr v | None \<Rightarrow> throw (Json_error ''key''))
       | _ \<Rightarrow> throw (Json_error ''type'')),
     js_get_string = (\<lambda>j. case j of JStr s \<Rightarrow> Inr s | _ \<Rightarrow> throw (Json_error ''type'')),
     js_items = (\<lambda>j. case j of JArr xs \<Rightarrow> xs | JObj m \<Rightarrow> map snd m | JNull \<Rightarrow> [] | v \<Rightarrow> [v]),
     js_value_u64 = (\<lambda>j k d. case j of
         JObj m \<Rightarrow> (case map_of m k of
             Some (JUInt n) \<Rightarrow> Inr n | Some _ \<Rightarrow> throw (Json_error ''type'') | None \<Rightarrow> Inr d)
       | _ \<Rightarrow> throw (Json_error ''type'')),
     js_value_str = (\<lambda>j k d. case j of
         JObj m \<Rightarrow> (case map_of m k of
             Some (JStr s) \<Rightarrow> Inr s | Some _ \<Rightarrow> throw (Json_error ''type'') | None \<Rightarrow> Inr d)
       | _ \<Rightarrow> throw (Json_error ''type'')),
     js_contains = (\<lambda>j k. case j of JObj m \<Rightarrow> map_of m k \<noteq> None | _ \<Rightarrow> False),
     js_index = (\<lambda>j i. case j of
         JArr xs \<Rightarrow> (if i < length xs then Inr (xs ! i) else Inr JNull)
       | _ \<Rightarrow> throw (Json_error ''type'')),
     js_key = (\<lambda>j k. case j of
         JObj m \<Rightarrow> (case map_of m k of Some v \<Rightarrow> Inr v | None \<Rightarrow> Inr JNull)
       | JNull \<Rightarrow> Inr JNull
       | _ \<Rightarrow> throw (Json_error ''type''))\<rparr>"

lemma json_members_table: "json_members (json_table tab)"
  by (simp add: json_members_def json_table_def)

lemma json_text_table: "tab = [(s, JObj m)] \<Longrightarrow> json_text (json_table tab) m"
  by (simp add: json_text_def json_table_def)

end
