(* ===== verification/Attestation.thy ===== *)
theory Attestation
  imports Transcripts
begin

text \<open>
  \<open>attestation.cpp\<close>: what the server measures about an evaluation, the digest that the trusted
  execution environment signs, and the quote. BLAKE3 and the TDX device are parameters.
\<close>

section \<open>Digests\<close>

definition hash_concatenated :: "'h blake3 \<Rightarrow> bytes list \<Rightarrow> hash32" where
  "hash_concatenated b3 parts = blake3_hash b3 (concat parts)"

definition generate_transcript :: "'h blake3 \<Rightarrow> bytes \<Rightarrow> bytes list \<Rightarrow> bytes list \<Rightarrow> bytes \<Rightarrow>
    transcript" where
  "generate_transcript b3 nonce eval_keys input_cts output_ct =
     \<lparr>tr_nonce = nonce, tr_eval_key_hash = hash_concatenated b3 eval_keys,
      tr_input_ct_hashes = map (blake3_hash b3) input_cts,
      tr_output_ct_hash = blake3_hash b3 output_ct,
      tr_fhe_eval_us = 0, tr_transcript_us = 0, tr_quote_us = 0\<rparr>"

definition bgv_generate_transcript :: "'h blake3 \<Rightarrow> bytes \<Rightarrow> bytes list \<Rightarrow> bytes list \<Rightarrow> bytes \<Rightarrow>
    bgv_transcript" where
  "bgv_generate_transcript b3 nonce eval_keys input_cts output_ct =
     \<lparr>tr_nonce = nonce, tr_eval_key_hash = hash_concatenated b3 eval_keys,
      tr_input_ct_hashes = map (blake3_hash b3) input_cts,
      tr_output_ct_hash = blake3_hash b3 output_ct,
      tr_fhe_eval_us = 0, tr_transcript_us = 0, tr_quote_us = 0, tr_ctx_us = 0, tr_outser_us = 0\<rparr>"

text \<open>The overload of \<open>gpucc-vfhe\<close> that takes the digest of the keys.\<close>

definition generate_transcript_hashed :: "'h blake3 \<Rightarrow> bytes \<Rightarrow> hash32 \<Rightarrow> bytes list \<Rightarrow> bytes \<Rightarrow>
    transcript" where
  "generate_transcript_hashed b3 nonce eval_key_hash input_cts output_ct =
     \<lparr>tr_nonce = nonce, tr_eval_key_hash = eval_key_hash,
      tr_input_ct_hashes = map (blake3_hash b3) input_cts,
      tr_output_ct_hash = blake3_hash b3 output_ct,
      tr_fhe_eval_us = 0, tr_transcript_us = 0, tr_quote_us = 0\<rparr>"

definition compute_transcript_hash :: "'h blake3 \<Rightarrow> json_lib \<Rightarrow> transcript \<Rightarrow> hash32" where
  "compute_transcript_hash b3 J t =
     (let t_for_hash = t\<lparr>tr_fhe_eval_us := 0, tr_transcript_us := 0, tr_quote_us := 0\<rparr>;
          h = blake3_hash_string b3 (to_json J t_for_hash)
      in take 32 h)"

definition bgv_compute_transcript_hash :: "'h blake3 \<Rightarrow> json_lib \<Rightarrow> bgv_transcript \<Rightarrow> hash32" where
  "bgv_compute_transcript_hash b3 J t =
     (let t_for_hash = t\<lparr>tr_fhe_eval_us := 0, tr_transcript_us := 0, tr_quote_us := 0,
            tr_ctx_us := 0, tr_outser_us := 0\<rparr>;
          h = blake3_hash_string b3 (bgv_to_json J t_for_hash)
      in take 32 h)"

definition compute_gpu_evidence_digest :: "'h blake3 \<Rightarrow> bytes \<Rightarrow> hash32" where
  "compute_gpu_evidence_digest b3 ev = take 32 (blake3_hash b3 ev)"

definition compute_heterogeneous_binding_digest :: "'h blake3 \<Rightarrow> hash32 \<Rightarrow> hash32 \<Rightarrow> hash32" where
  "compute_heterogeneous_binding_digest b3 transcript_digest gpu_evidence_digest =
     take 32 (blake3_hash b3 (take 32 transcript_digest @ take 32 gpu_evidence_digest))"

section \<open>The quote\<close>

text \<open>\<open>tdx_att_get_quote\<close>: an error code, or the quote over 64 bytes of report data.\<close>

type_synonym tdx = "bytes \<Rightarrow> nat + bytes"

definition report_data :: "hash32 \<Rightarrow> bytes" where
  "report_data h = take 32 h @ replicate 32 0"

definition generate_tdx_quote :: "tdx \<Rightarrow> hash32 \<Rightarrow> bytes result" where
  "generate_tdx_quote tdx transcript_hash =
     (case tdx (report_data transcript_hash) of
        Inl rc \<Rightarrow> throw (Runtime_error
          (''[attestation] tdx_att_get_quote failed (code '' @ dec_str rc @ '')''))
      | Inr quote \<Rightarrow> Inr quote)"

definition generate_tdx_quote_heterogeneous :: "'h blake3 \<Rightarrow> tdx \<Rightarrow> hash32 \<Rightarrow> hash32 \<Rightarrow>
    bytes result" where
  "generate_tdx_quote_heterogeneous b3 tdx transcript_digest gpu_evidence_digest =
     (let binding = compute_heterogeneous_binding_digest b3 transcript_digest gpu_evidence_digest
      in case tdx (report_data binding) of
        Inl rc \<Rightarrow> throw (Runtime_error
          (''[attestation] heterogeneous quote failed (code '' @ dec_str rc @ '')''))
      | Inr quote \<Rightarrow> Inr quote)"

section \<open>What the digest depends on\<close>

text \<open>The documented facts about BLAKE3: digests have 32 bytes; two given texts do not collide.\<close>

definition b3_sized :: "'h blake3 \<Rightarrow> bool" where
  "b3_sized b3 \<longleftrightarrow> (\<forall>h. is_hash32 (b3_finalize b3 h))"

definition no_collision :: "'h blake3 \<Rightarrow> bytes \<Rightarrow> bytes \<Rightarrow> bool" where
  "no_collision b3 x y \<longleftrightarrow> (blake3_hash b3 x = blake3_hash b3 y \<longrightarrow> x = y)"

lemma is_hash32_blake3 [simp]: "b3_sized b3 \<Longrightarrow> is_hash32 (blake3_hash b3 d)"
  by (simp add: b3_sized_def blake3_hash_def Let_def)

lemma take_hash32 [simp]: "is_hash32 h \<Longrightarrow> take 32 h = h"
  by (simp add: is_hash32_def)

lemma is_hash32_take [simp]: "is_hash32 h \<Longrightarrow> is_hash32 (take 32 h)"
  by (simp add: is_hash32_def)

lemma length_report_data [simp]: "is_hash32 h \<Longrightarrow> length (report_data h) = 64"
  by (simp add: report_data_def is_hash32_def)

lemma report_data_inject:
  "is_hash32 h \<Longrightarrow> is_hash32 h' \<Longrightarrow> report_data h = report_data h' \<longleftrightarrow> h = h'"
  by (simp add: report_data_def is_hash32_def)

lemma compute_transcript_hash_timings:
  "compute_transcript_hash b3 J (t\<lparr>tr_fhe_eval_us := a, tr_transcript_us := b, tr_quote_us := c\<rparr>) =
    compute_transcript_hash b3 J t"
  by (simp add: compute_transcript_hash_def)

lemma bgv_compute_transcript_hash_timings:
  "bgv_compute_transcript_hash b3 J (t\<lparr>tr_fhe_eval_us := a, tr_transcript_us := b,
      tr_quote_us := c, tr_ctx_us := d, tr_outser_us := e\<rparr>) =
    bgv_compute_transcript_hash b3 J t"
  by (simp add: bgv_compute_transcript_hash_def)

lemma is_hash32_compute [simp]:
  "b3_sized b3 \<Longrightarrow> is_hash32 (compute_transcript_hash b3 J t)"
  "b3_sized b3 \<Longrightarrow> is_hash32 (bgv_compute_transcript_hash b3 J u)"
  "b3_sized b3 \<Longrightarrow> is_hash32 (compute_gpu_evidence_digest b3 ev)"
  "b3_sized b3 \<Longrightarrow> is_hash32 (compute_heterogeneous_binding_digest b3 x y)"
  by (simp_all add: compute_transcript_hash_def bgv_compute_transcript_hash_def
      compute_gpu_evidence_digest_def compute_heterogeneous_binding_digest_def
      blake3_hash_string_def Let_def)

lemma wf_generate_transcript [simp]:
  "b3_sized b3 \<Longrightarrow> wf_transcript (generate_transcript b3 nonce ks cts out)"
  "b3_sized b3 \<Longrightarrow> wf_transcript (bgv_generate_transcript b3 nonce ks cts out)"
  by (simp_all add: wf_transcript_def generate_transcript_def bgv_generate_transcript_def
      hash_concatenated_def list_all_iff)

text \<open>The fields that the digest covers, and the text that is hashed.\<close>

definition evidence :: "'a transcript_scheme \<Rightarrow> bytes \<times> hash32 \<times> hash32 list \<times> hash32" where
  "evidence t = (tr_nonce t, tr_eval_key_hash t, tr_input_ct_hashes t, tr_output_ct_hash t)"

definition untimed :: "transcript \<Rightarrow> transcript" where
  "untimed t = t\<lparr>tr_fhe_eval_us := 0, tr_transcript_us := 0, tr_quote_us := 0\<rparr>"

definition bgv_untimed :: "bgv_transcript \<Rightarrow> bgv_transcript" where
  "bgv_untimed t = t\<lparr>tr_fhe_eval_us := 0, tr_transcript_us := 0, tr_quote_us := 0,
     tr_ctx_us := 0, tr_outser_us := 0\<rparr>"

lemma untimed_simps [simp]:
  "evidence (untimed t) = evidence t" "evidence (bgv_untimed u) = evidence u"
  "wf_transcript (untimed t) = wf_transcript t" "wf_transcript (bgv_untimed u) = wf_transcript u"
  by (simp_all add: evidence_def untimed_def bgv_untimed_def wf_transcript_def)

lemma compute_transcript_hash_untimed:
  "compute_transcript_hash b3 J t = take 32 (blake3_hash b3 (to_bytes (to_json J (untimed t))))"
  "bgv_compute_transcript_hash b3 J u =
     take 32 (blake3_hash b3 (to_bytes (bgv_to_json J (bgv_untimed u))))"
  by (simp_all add: compute_transcript_hash_def bgv_compute_transcript_hash_def untimed_def
      bgv_untimed_def blake3_hash_string_def Let_def)

text \<open>
  The contract of a digest: it is the hash of a text, and the text determines the evidence. Equal
  digests then mean equal evidence, unless the two texts collide.
\<close>

locale transcript_digest =
  fixes b3 :: "'h blake3"
    and hash :: "'t \<Rightarrow> hash32"
    and evid :: "'t \<Rightarrow> bytes \<times> hash32 \<times> hash32 list \<times> hash32"
    and text_of :: "'t \<Rightarrow> bytes"
    and readable :: "'t \<Rightarrow> bool"
  assumes hash_text: "hash t = take 32 (blake3_hash b3 (text_of t))"
    and text_evidence: "readable t \<Longrightarrow> readable u \<Longrightarrow> text_of t = text_of u \<Longrightarrow> evid t = evid u"
    and readable_sized: "readable t \<Longrightarrow> b3_sized b3"
begin

lemma hash_is_hash32: "readable t \<Longrightarrow> is_hash32 (hash t)"
  using readable_sized by (simp add: hash_text)

lemma hash_binds:
  assumes "readable t" and "readable u" and "no_collision b3 (text_of t) (text_of u)"
    and "hash t = hash u"
  shows "evid t = evid u"
proof -
  have "blake3_hash b3 (text_of t) = blake3_hash b3 (text_of u)"
    using assms(4) unfolding hash_text take_hash32 [OF is_hash32_blake3 [OF readable_sized [OF assms(1)]]] .
  then show ?thesis
    using assms(3) text_evidence [OF assms(1,2)] unfolding no_collision_def by blast
qed

end

definition readable :: "'h blake3 \<Rightarrow> json_lib \<Rightarrow> transcript \<Rightarrow> bool" where
  "readable b3 J t \<longleftrightarrow> b3_sized b3 \<and> json_members J \<and> wf_transcript t \<and>
     json_text J (transcript_members (untimed t))"

definition bgv_readable :: "'h blake3 \<Rightarrow> json_lib \<Rightarrow> bgv_transcript \<Rightarrow> bool" where
  "bgv_readable b3 J t \<longleftrightarrow> b3_sized b3 \<and> json_members J \<and> wf_transcript t \<and>
     json_text J (bgv_transcript_members (bgv_untimed t))"

lemma readable_from_json:
  "readable b3 J t \<Longrightarrow> from_json J (to_json J (untimed t)) = Inr (untimed t)"
  "bgv_readable b3 J u \<Longrightarrow> bgv_from_json J (bgv_to_json J (bgv_untimed u)) = Inr (bgv_untimed u)"
  by (simp_all add: readable_def bgv_readable_def from_json_to_json bgv_from_json_to_json)

interpretation tee_digest: transcript_digest b3 "compute_transcript_hash b3 J" evidence
  "\<lambda>t. to_bytes (to_json J (untimed t))" "readable b3 J" for b3 J
proof
  fix t u
  assume "readable b3 J t" "readable b3 J u"
    and "to_bytes (to_json J (untimed t)) = to_bytes (to_json J (untimed u))"
  then have "untimed t = untimed u"
    by (metis readable_from_json(1) to_bytes_inject sum.inject(2))
  then show "evidence t = evidence u" by (metis untimed_simps(1))
qed (simp_all only: compute_transcript_hash_untimed readable_def)

interpretation bgv_digest: transcript_digest b3 "bgv_compute_transcript_hash b3 J" evidence
  "\<lambda>t. to_bytes (bgv_to_json J (bgv_untimed t))" "bgv_readable b3 J" for b3 J
proof
  fix t u
  assume "bgv_readable b3 J t" "bgv_readable b3 J u"
    and "to_bytes (bgv_to_json J (bgv_untimed t)) = to_bytes (bgv_to_json J (bgv_untimed u))"
  then have "bgv_untimed t = bgv_untimed u"
    by (metis readable_from_json(2) to_bytes_inject sum.inject(2))
  then show "evidence t = evidence u" by (metis untimed_simps(2))
qed (simp_all only: compute_transcript_hash_untimed bgv_readable_def)

text \<open>The heterogeneous digest binds both of its parts.\<close>

lemma binding_digest_binds:
  assumes b3: "b3_sized b3" and h: "is_hash32 t" "is_hash32 g" "is_hash32 t'" "is_hash32 g'"
    and nc: "no_collision b3 (t @ g) (t' @ g')"
    and eq: "compute_heterogeneous_binding_digest b3 t g =
      compute_heterogeneous_binding_digest b3 t' g'"
  shows "t = t' \<and> g = g'"
proof -
  have "t @ g = t' @ g'"
    using eq nc b3 h
    by (simp add: compute_heterogeneous_binding_digest_def no_collision_def)
  then show ?thesis
    using h by (simp add: is_hash32_def)
qed

text \<open>
  The digest of the evaluation keys is that of their concatenation: moving the boundary between
  two blobs does not change it.
\<close>

lemma hash_concatenated_boundary:
  "hash_concatenated b3 (ks @ [a @ b] @ ls) = hash_concatenated b3 (ks @ [a, b] @ ls)"
  by (simp add: hash_concatenated_def)

section \<open>The report data as the verifier expects to read it\<close>

text \<open>
  The loop of \<open>verify_all\<close> walks the digest's text from its last pair of digits to its first;
  \<open>i\<close> is the loop variable, a signed integer.
\<close>

function hex_rev_loop :: "string \<Rightarrow> int \<Rightarrow> string" where
  "hex_rev_loop s i = (if i \<ge> 0 then take 2 (drop (nat i) s) @ hex_rev_loop s (i - 2) else [])"
  by pat_completeness auto
termination by (relation "measure (\<lambda>(_, i). nat (i + 2))") auto

declare hex_rev_loop.simps [simp del]

definition expected_report_data_hex :: "hash32 \<Rightarrow> string" where
  "expected_report_data_hex h =
     (let hash_hex = to_hex h
      in replicate 64 CHR ''0'' @ hex_rev_loop hash_hex (int (length hash_hex) - 2))"

lemma to_hex_append [simp]: "to_hex (a @ b) = to_hex a @ to_hex b"
  by (induction a) simp_all

lemma hex_rev_loop_prefix:
  "k \<le> length h \<Longrightarrow> hex_rev_loop (to_hex h) (2 * int k - 2) = to_hex (rev (take k h))"
proof (induction k)
  case 0
  then show ?case by (subst hex_rev_loop.simps) simp
next
  case (Suc k)
  obtain b where h: "h = take k h @ b # drop (Suc k) h" "h ! k = b"
    using Suc.prems id_take_nth_drop [of k h] by auto
  have "drop (2 * k) (to_hex h) = to_hex (b # drop (Suc k) h)"
    by (subst h(1)) (use Suc.prems in simp)
  then have "take 2 (drop (2 * k) (to_hex h)) = to_hex [b]"
    by (simp add: numeral_2_eq_2)
  moreover have "take (Suc k) h = take k h @ [b]"
    using Suc.prems h(2) by (simp add: take_Suc_conv_app_nth)
  ultimately show ?case
    using Suc by (subst hex_rev_loop.simps) (simp add: nat_mult_distrib)
qed

lemma to_hex_zeros: "to_hex (replicate n 0) = replicate (2 * n) CHR ''0''"
  by (induction n) (simp_all add: kHexChars_def)

text \<open>It is the text of the 64 bytes of report data, last byte first.\<close>

lemma expected_report_data_hex_rev:
  "is_hash32 h \<Longrightarrow> expected_report_data_hex h = to_hex (rev (report_data h))"
  using hex_rev_loop_prefix [of "length h" h]
  by (simp add: expected_report_data_hex_def Let_def report_data_def to_hex_zeros)

end
