(* ===== verification/Server_Tee.thy ===== *)
theory Server_Tee
  imports Effects Messages Attestation
begin

text \<open>
  The servers of \<open>tee-vfhe\<close> (CKKS) and \<open>tee-vfhe-bgvrns\<close> (BGV): \<open>server_main.cpp\<close> with
  \<open>workload_registry.h\<close> and \<open>serialization.cpp\<close>. One request is parsed, its evaluation keys and
  ciphertexts are loaded into the library, the workload runs, and the result goes back with a
  transcript and a quote over its digest. OpenFHE is a parameter; \<open>'g\<close> is its global state (the
  static maps of evaluation keys and contexts), which every call may change.
\<close>

section \<open>OpenFHE and the registry\<close>

record ('g, 'ct) openfhe =
  fl_deserialize_mult :: "string \<Rightarrow> ('g, bool) prog"
  fl_deserialize_sum :: "string \<Rightarrow> ('g, bool) prog"
  fl_deserialize_auto :: "string \<Rightarrow> ('g, bool) prog"
  fl_deserialize_ct :: "string \<Rightarrow> ('g, 'ct) prog"
  fl_serialize_ct :: "'ct \<Rightarrow> string result"

record ('g, 'cc, 'ct) workload =
  wl_make_context :: "('g, 'cc) prog"
  wl_eval :: "'cc \<Rightarrow> 'ct list \<Rightarrow> ('g, 'ct) prog"

type_synonym 'w registry = "string \<rightharpoonup> 'w"

text \<open>\<open>Register\<close> uses \<open>emplace\<close>: the first workload of a name stays.\<close>

definition register :: "string \<Rightarrow> 'w \<Rightarrow> 'w registry \<Rightarrow> 'w registry" where
  "register wid w reg = (case reg wid of None \<Rightarrow> reg(wid \<mapsto> w) | Some _ \<Rightarrow> reg)"

lemma register_lookup:
  "register wid w reg k =
     (if k = wid then (case reg wid of None \<Rightarrow> Some w | Some v \<Rightarrow> Some v) else reg k)"
  by (simp add: register_def split: option.splits)

definition serialize_ciphertext :: "('g, 'ct) openfhe \<Rightarrow> 'ct \<Rightarrow> string result" where
  "serialize_ciphertext L ct = fl_serialize_ct L ct"

definition deserialize_ciphertext :: "('g, 'ct) openfhe \<Rightarrow> string \<Rightarrow> ('g, 'ct) prog" where
  "deserialize_ciphertext L data = fl_deserialize_ct L data"

section \<open>Loading keys and inputs\<close>

text \<open>
  Each blob is offered to the three deserializers in turn; the \<open>bool\<close> they return is dropped, so
  only an exception moves on to the next.
\<close>

definition load_eval_key :: "('g, 'ct) openfhe \<Rightarrow> bytes \<Rightarrow> ('g, unit) prog" where
  "load_eval_key L kb =
     (let s = to_string kb in
      try_p (bind_p (fl_deserialize_mult L s) (\<lambda>_. ret ())) (\<lambda>_.
      try_p (bind_p (fl_deserialize_sum L s) (\<lambda>_. ret ())) (\<lambda>_.
      try_p (bind_p (fl_deserialize_auto L s) (\<lambda>_. ret ())) (\<lambda>_.
      raise (Throw (Runtime_error ''eval key blob deserialization failed for all key types''))))))"

definition load_eval_keys :: "('g, 'ct) openfhe \<Rightarrow> bytes list \<Rightarrow> ('g, unit list) prog" where
  "load_eval_keys L kbs = for_p (load_eval_key L) kbs"

definition bgv_load_eval_keys :: "('g, 'ct) openfhe \<Rightarrow> bytes list \<Rightarrow> ('g, unit list) prog" where
  "bgv_load_eval_keys L kbs = for_p (\<lambda>kb. if kb = [] then ret () else load_eval_key L kb) kbs"

definition load_inputs :: "('g, 'ct) openfhe \<Rightarrow> bytes list \<Rightarrow> ('g, 'ct list) prog" where
  "load_inputs L cbs = for_p (\<lambda>cb. deserialize_ciphertext L (to_string cb)) cbs"

section \<open>The response\<close>

text \<open>The durations that the server measures, in microseconds, as \<open>count()\<close> returns them.\<close>

record durations =
  du_ctx :: int
  du_eval :: int
  du_outser :: int
  du_transcript :: int
  du_quote :: int

definition micros :: "int \<Rightarrow> u64" where
  "micros d = word_of_int d"

record 'h platform =
  pf_b3 :: "'h blake3"
  pf_json :: json_lib
  pf_tdx :: tdx
  pf_alloc :: "nat \<Rightarrow> bool"

text \<open>A quote that cannot be produced is sent as an empty blob.\<close>

definition quote_or_empty :: "bytes result \<Rightarrow> bytes" where
  "quote_or_empty r = (case r of Inr q \<Rightarrow> q | Inl _ \<Rightarrow> [])"

definition evaluated_response :: "'h platform \<Rightarrow> durations \<Rightarrow> request \<Rightarrow> bytes \<Rightarrow> bytes" where
  "evaluated_response P D rq output_ct_bytes =
     (let t = (generate_transcript (pf_b3 P) (rq_nonce rq) (rq_keys rq) (rq_cts rq)
              output_ct_bytes)
            \<lparr>tr_fhe_eval_us := micros (du_eval D), tr_transcript_us := micros (du_transcript D)\<rparr>;
          hash = compute_transcript_hash (pf_b3 P) (pf_json P) t;
          quote = quote_or_empty (generate_tdx_quote (pf_tdx P) hash);
          t' = t\<lparr>tr_quote_us := micros (du_quote D)\<rparr>
      in build_response \<lparr>rs_output = output_ct_bytes,
           rs_transcript = to_json (pf_json P) t', rs_quote = quote\<rparr>)"

definition bgv_evaluated_response :: "'h platform \<Rightarrow> durations \<Rightarrow> request \<Rightarrow> bytes \<Rightarrow> bytes" where
  "bgv_evaluated_response P D rq output_ct_bytes =
     (let t = (bgv_generate_transcript (pf_b3 P) (rq_nonce rq) (rq_keys rq) (rq_cts rq)
              output_ct_bytes)
            \<lparr>tr_fhe_eval_us := micros (du_eval D), tr_transcript_us := micros (du_transcript D),
             tr_ctx_us := micros (du_ctx D), tr_outser_us := micros (du_outser D)\<rparr>;
          hash = bgv_compute_transcript_hash (pf_b3 P) (pf_json P) t;
          quote = quote_or_empty (generate_tdx_quote (pf_tdx P) hash);
          t' = t\<lparr>tr_quote_us := micros (du_quote D)\<rparr>
      in build_response \<lparr>rs_output = output_ct_bytes,
           rs_transcript = bgv_to_json (pf_json P) t', rs_quote = quote\<rparr>)"

section \<open>The handler\<close>

text \<open>
  \<open>handle_client\<close> after its \<open>recv_message\<close>: \<open>Some bs\<close> is a response handed to
  \<open>send_message\<close>, \<open>None\<close> a return without one; a fault is what leaves the handler. \<open>reply\<close>
  is the pattern of its \<open>try\<close> blocks: an exception becomes an error response.
\<close>

definition reply :: "string \<Rightarrow> ('g, 'a) prog \<Rightarrow> ('a \<Rightarrow> ('g, bytes option) prog) \<Rightarrow>
    ('g, bytes option) prog" where
  "reply prefix p k = try_then p (\<lambda>e. Some (build_error_response (prefix @ what e))) k"

definition evaluate_request :: "(('g, 'ct) openfhe \<Rightarrow> bytes list \<Rightarrow> ('g, unit list) prog) \<Rightarrow>
    (request \<Rightarrow> bytes \<Rightarrow> bytes) \<Rightarrow> ('g, 'ct) openfhe \<Rightarrow>
    ('g, 'cc, 'ct) workload registry \<Rightarrow> request \<Rightarrow> ('g, bytes option) prog" where
  "evaluate_request load respond L reg rq =
     (case reg (rq_workload rq) of
        None \<Rightarrow> ret (Some (build_error_response (''unknown workload: '' @ rq_workload rq)))
      | Some w \<Rightarrow>
          bind_p (wl_make_context w) (\<lambda>cc.
          reply ''bad eval key: '' (load L (rq_keys rq)) (\<lambda>_.
          reply ''bad ciphertext: '' (load_inputs L (rq_cts rq)) (\<lambda>inputs.
          reply ''eval failed: '' (wl_eval w cc inputs) (\<lambda>output_ct.
          reply ''serialize failed: '' (lift_p (serialize_ciphertext L output_ct)) (\<lambda>output_str.
          ret (Some (respond rq (to_bytes output_str)))))))))"

definition handle_client :: "'h platform \<Rightarrow> durations \<Rightarrow> ('g, 'ct) openfhe \<Rightarrow>
    ('g, 'cc, 'ct) workload registry \<Rightarrow> bytes result \<Rightarrow> ('g, bytes option) prog" where
  "handle_client P D L reg received =
     try_then (lift_p received) (\<lambda>_. None) (\<lambda>req.
     reply ''bad request: '' (lift_p (parse_request (pf_alloc P) req)) (\<lambda>rq.
     evaluate_request load_eval_keys (evaluated_response P D) L reg rq))"

definition bgv_handle_client :: "'h platform \<Rightarrow> durations \<Rightarrow> ('g, 'ct) openfhe \<Rightarrow>
    ('g, 'cc, 'ct) workload registry \<Rightarrow> bytes result \<Rightarrow> ('g, bytes option) prog" where
  "bgv_handle_client P D L reg received =
     try_then (lift_p received) (\<lambda>_. None) (\<lambda>req.
     reply ''bad request: '' (lift_p (parse_request (pf_alloc P) req)) (\<lambda>rq.
     evaluate_request bgv_load_eval_keys (bgv_evaluated_response P D) L reg rq))"

section \<open>What the handler answers\<close>

lemma reply_run [prog_simps]:
  "p g = (Inr x, g1) \<Longrightarrow> reply prefix p k g = k x g1"
  "p g = (Inl (Throw e), g1) \<Longrightarrow>
    reply prefix p k g = (Inr (Some (build_error_response (prefix @ what e))), g1)"
  "p g = (Inl (Ub u), g1) \<Longrightarrow> reply prefix p k g = (Inl (Ub u), g1)"
  by (simp_all add: reply_def try_then_run)

lemma reply_cases:
  assumes "reply prefix p k g = (r, g')"
  obtains (caught) e where "p g = (Inl (Throw e), g')"
      "r = Inr (Some (build_error_response (prefix @ what e)))"
    | (undefined_behaviour) u where "p g = (Inl (Ub u), g')" "r = Inl (Ub u)"
    | (go) x g1 where "p g = (Inr x, g1)" "k x g1 = (r, g')"
  using assms unfolding reply_def by (rule try_then_cases) (rule that; assumption)+

definition is_error_response :: "bytes \<Rightarrow> bool" where
  "is_error_response b \<longleftrightarrow> (\<exists>msg. b = build_error_response msg)"

lemma is_error_responseI [simp]: "is_error_response (build_error_response msg)"
  by (auto simp: is_error_response_def)

text \<open>
  \<open>evaluates\<close>: the steps behind a successful evaluation, from the global state \<open>g\<close> to \<open>g'\<close>, with
  the text of the serialized output.
\<close>

definition evaluates :: "(('g, 'ct) openfhe \<Rightarrow> bytes list \<Rightarrow> ('g, unit list) prog) \<Rightarrow>
    ('g, 'ct) openfhe \<Rightarrow> ('g, 'cc, 'ct) workload registry \<Rightarrow> request \<Rightarrow> 'g \<Rightarrow> string \<Rightarrow> 'g \<Rightarrow> bool" where
  "evaluates load L reg rq g s g' \<longleftrightarrow>
     (\<exists>w cc g1 ks g2 ins g3 out. reg (rq_workload rq) = Some w \<and>
      wl_make_context w g = (Inr cc, g1) \<and> load L (rq_keys rq) g1 = (Inr ks, g2) \<and>
      load_inputs L (rq_cts rq) g2 = (Inr ins, g3) \<and> wl_eval w cc ins g3 = (Inr out, g') \<and>
      serialize_ciphertext L out = Inr s)"

text \<open>Every answer is an error response or the response for the output of the evaluation.\<close>

lemma evaluate_request_answer:
  assumes "evaluate_request load respond L reg rq g = (Inr a, g')"
  shows "(\<exists>b. a = Some b \<and> is_error_response b) \<or>
    (\<exists>s. evaluates load L reg rq g s g' \<and> a = Some (respond rq (to_bytes s)))"
proof (cases "reg (rq_workload rq)")
  case None
  with assms show ?thesis by (auto simp: evaluate_request_def)
next
  case (Some w)
  from assms show ?thesis
    unfolding evaluate_request_def evaluates_def Some option.simps
    by (elim bind_p_cases reply_cases; simp add: Some; blast?)
qed

lemma evaluate_request_ok:
  assumes "evaluates load L reg rq g s g'"
  shows "evaluate_request load respond L reg rq g = (Inr (Some (respond rq (to_bytes s))), g')"
proof -
  from assms obtain w cc g1 ks g2 ins g3 out where *: "reg (rq_workload rq) = Some w"
    "wl_make_context w g = (Inr cc, g1)" "load L (rq_keys rq) g1 = (Inr ks, g2)"
    "load_inputs L (rq_cts rq) g2 = (Inr ins, g3)" "wl_eval w cc ins g3 = (Inr out, g')"
    "serialize_ciphertext L out = Inr s" unfolding evaluates_def by blast
  show ?thesis
    by (simp add: evaluate_request_def bind_p_def reply_def try_then_def *)
qed

lemma handle_client_answer:
  assumes "handle_client P D L reg received g = (Inr (Some b), g')" and "\<not> is_error_response b"
  shows "\<exists>req rq s. received = Inr req \<and> parse_request (pf_alloc P) req = Inr rq \<and>
    evaluates load_eval_keys L reg rq g s g' \<and> b = evaluated_response P D rq (to_bytes s)"
  using assms(1)[unfolded handle_client_def]
proof (cases rule: try_then_cases)
  case (go req g1)
  from go(2) show ?thesis
  proof (cases rule: reply_cases)
    case inner: (go rq g2)
    from evaluate_request_answer [OF inner(2)] assms(2) go(1) inner(1) show ?thesis by auto
  qed (use assms(2) in auto)
qed auto

lemma bgv_handle_client_answer:
  assumes "bgv_handle_client P D L reg received g = (Inr (Some b), g')"
    and "\<not> is_error_response b"
  shows "\<exists>req rq s. received = Inr req \<and> parse_request (pf_alloc P) req = Inr rq \<and>
    evaluates bgv_load_eval_keys L reg rq g s g' \<and> b = bgv_evaluated_response P D rq (to_bytes s)"
  using assms(1)[unfolded bgv_handle_client_def]
proof (cases rule: try_then_cases)
  case (go req g1)
  from go(2) show ?thesis
  proof (cases rule: reply_cases)
    case inner: (go rq g2)
    from evaluate_request_answer [OF inner(2)] assms(2) go(1) inner(1) show ?thesis by auto
  qed (use assms(2) in auto)
qed auto

text \<open>An exception leaves the handler only through \<open>make_context\<close>, which it calls unguarded.\<close>

fun is_throw :: "fault \<Rightarrow> bool" where
  "is_throw (Throw e) = True"
| "is_throw (Ub u) = False"

lemma never_reply: "(\<And>x. never (k x) is_throw) \<Longrightarrow> never (reply prefix p k) is_throw"
  unfolding reply_def by (rule never_try_then [where Q = "\<lambda>_. False"]) (simp_all add: never_def)

lemma evaluate_request_never_throws:
  assumes "\<And>w. w \<in> ran reg \<Longrightarrow> never (wl_make_context w) is_throw"
  shows "never (evaluate_request load respond L reg rq) is_throw"
proof (cases "reg (rq_workload rq)")
  case None
  then show ?thesis by (simp add: evaluate_request_def)
next
  case (Some w)
  then have "never (wl_make_context w) is_throw"
    using assms by (auto simp: ran_def)
  then show ?thesis
    by (auto simp: evaluate_request_def Some intro!: never_bind never_reply)
qed

lemma handle_client_never_throws:
  assumes "\<And>w. w \<in> ran reg \<Longrightarrow> never (wl_make_context w) is_throw"
  shows "never (handle_client P D L reg received) is_throw"
    "never (bgv_handle_client P D L reg received) is_throw"
  unfolding handle_client_def bgv_handle_client_def
  by (rule never_try_then [where Q = "\<lambda>_. False"],
      auto simp: never_def [of "lift_p received"]
        intro!: never_reply evaluate_request_never_throws [OF assms])+

text \<open>A blob is taken by the first deserializer that does not throw.\<close>

lemma load_eval_key_cases:
  assumes "load_eval_key L kb g = (Inr x, g')"
  shows "\<exists>b. fl_deserialize_mult L (to_string kb) g = (Inr b, g') \<or>
    (\<exists>e g1. fl_deserialize_mult L (to_string kb) g = (Inl (Throw e), g1) \<and>
      (fl_deserialize_sum L (to_string kb) g1 = (Inr b, g') \<or>
       (\<exists>e' g2. fl_deserialize_sum L (to_string kb) g1 = (Inl (Throw e'), g2) \<and>
         fl_deserialize_auto L (to_string kb) g2 = (Inr b, g'))))"
  using assms
  by (auto simp: load_eval_key_def Let_def try_p_def bind_p_def split: prod.splits sum.splits
      fault.splits)

section \<open>What a response contains\<close>

definition server_transcript :: "'h platform \<Rightarrow> durations \<Rightarrow> request \<Rightarrow> bytes \<Rightarrow> transcript" where
  "server_transcript P D rq out =
     (generate_transcript (pf_b3 P) (rq_nonce rq) (rq_keys rq) (rq_cts rq) out)
       \<lparr>tr_fhe_eval_us := micros (du_eval D), tr_transcript_us := micros (du_transcript D),
        tr_quote_us := micros (du_quote D)\<rparr>"

definition bgv_server_transcript :: "'h platform \<Rightarrow> durations \<Rightarrow> request \<Rightarrow> bytes \<Rightarrow>
    bgv_transcript" where
  "bgv_server_transcript P D rq out =
     (bgv_generate_transcript (pf_b3 P) (rq_nonce rq) (rq_keys rq) (rq_cts rq) out)
       \<lparr>tr_fhe_eval_us := micros (du_eval D), tr_transcript_us := micros (du_transcript D),
        tr_quote_us := micros (du_quote D), tr_ctx_us := micros (du_ctx D),
        tr_outser_us := micros (du_outser D)\<rparr>"

lemma evaluated_response_eq:
  "evaluated_response P D rq out = build_response
     \<lparr>rs_output = out, rs_transcript = to_json (pf_json P) (server_transcript P D rq out),
      rs_quote = quote_or_empty (generate_tdx_quote (pf_tdx P)
        (compute_transcript_hash (pf_b3 P) (pf_json P) (server_transcript P D rq out)))\<rparr>"
  "bgv_evaluated_response P D rq out = build_response
     \<lparr>rs_output = out, rs_transcript = bgv_to_json (pf_json P) (bgv_server_transcript P D rq out),
      rs_quote = quote_or_empty (generate_tdx_quote (pf_tdx P)
        (bgv_compute_transcript_hash (pf_b3 P) (pf_json P) (bgv_server_transcript P D rq out)))\<rparr>"
  by (simp_all add: evaluated_response_def bgv_evaluated_response_def server_transcript_def
      bgv_server_transcript_def compute_transcript_hash_def bgv_compute_transcript_hash_def Let_def
      bgv_generate_transcript_def)

definition request_evidence :: "'h blake3 \<Rightarrow> 'a request_scheme \<Rightarrow> bytes \<Rightarrow>
    bytes \<times> hash32 \<times> hash32 list \<times> hash32" where
  "request_evidence b3 rq out =
     (rq_nonce rq, hash_concatenated b3 (rq_keys rq), map (blake3_hash b3) (rq_cts rq),
      blake3_hash b3 out)"

lemma evidence_server_transcript [simp]:
  "evidence (server_transcript P D rq out) = request_evidence (pf_b3 P) rq out"
  "evidence (bgv_server_transcript P D rq out) = request_evidence (pf_b3 P) rq out"
  by (simp_all add: evidence_def server_transcript_def bgv_server_transcript_def
      generate_transcript_def bgv_generate_transcript_def request_evidence_def)

lemma wf_server_transcript [simp]:
  "b3_sized (pf_b3 P) \<Longrightarrow> wf_transcript (server_transcript P D rq out)"
  "b3_sized (pf_b3 P) \<Longrightarrow> wf_transcript (bgv_server_transcript P D rq out)"
  using wf_generate_transcript [of "pf_b3 P"]
  by (simp_all add: server_transcript_def bgv_server_transcript_def wf_transcript_def)

end
