(* ===== verification/Server_Zk.thy ===== *)
theory Server_Zk
  imports Proof_System Server_Tee
begin

text \<open>
  The server of \<open>zk-vfhe\<close>: a plain BGV evaluation, the three passes that prove it in zero
  knowledge (constraints, witness, proof), and a response with the proof, its public inputs and
  the verification key. OpenFHE, the proof system of zkOpenFHE and libsnark are parameters; the
  key cache of \<open>Proof_System\<close> is part of the global state.
\<close>

section \<open>Parameters and state\<close>

datatype ps_mode = Constraint_generation | Witness_generation

record ('cc, 'ps, 'cs, 'f, 'w) zk_lib =
  zl_new :: "'cc \<Rightarrow> 'ps"
  zl_set_mode :: "ps_mode \<Rightarrow> 'ps \<Rightarrow> 'ps"
  zl_cs :: "'ps \<Rightarrow> 'cs"
  zl_primary :: "'ps \<Rightarrow> 'f list"
  zl_auxiliary :: "'ps \<Rightarrow> 'w"
  zl_num_constraints :: "'cs \<Rightarrow> nat"

record ('p, 'vk) zk_bytes =
  zb_proof :: "'p \<Rightarrow> bytes"
  zb_vk :: "'vk \<Rightarrow> bytes"

record ('g, 'cc, 'ct, 'ps) zk_workload = "('g, 'cc, 'ct) workload" +
  wl_eval_zk :: "('ps \<Rightarrow> 'ct list \<Rightarrow> ('g, 'ct \<times> 'ps) prog) option"

record ('g, 'cc, 'ct) zk_openfhe = "('g, 'ct) openfhe" +
  fl_clear_keys :: "('g, unit) prog"
  fl_enable :: "'cc \<Rightarrow> ('g, unit) prog"

record ('g, 'pk, 'vk) zk_globals =
  zg_lib :: 'g
  zg_keys :: "('pk, 'vk) key_cache"

definition in_lib :: "('g, 'a) prog \<Rightarrow> (('g, 'pk, 'vk) zk_globals, 'a) prog" where
  "in_lib p = on_field zg_lib zg_lib_update p"

definition in_keys :: "(('pk, 'vk) key_cache, 'a) prog \<Rightarrow> (('g, 'pk, 'vk) zk_globals, 'a) prog" where
  "in_keys p = on_field zg_keys zg_keys_update p"

section \<open>Transcript and keys\<close>

definition zk_build_transcript :: "'h blake3 \<Rightarrow> bytes \<Rightarrow> bytes list \<Rightarrow> bytes list \<Rightarrow> bytes \<Rightarrow>
    zk_transcript" where
  "zk_build_transcript b3 nonce eval_key_blobs input_ct_blobs output_ct_bytes =
     (let ekh = (if eval_key_blobs \<noteq> [] then blake3_hash b3 (concat eval_key_blobs)
                 else replicate 32 0)
      in \<lparr>tr_nonce = nonce, tr_eval_key_hash = ekh,
          tr_input_ct_hashes = map (blake3_hash b3) input_ct_blobs,
          tr_output_ct_hash = blake3_hash b3 output_ct_bytes,
          tr_fhe_eval_us = 0, tr_transcript_us = 0, tr_quote_us = 0, tr_witness_us = 0,
          tr_proof_us = 0, tr_input_loading_us = 0, tr_packaging_us = 0, tr_peak_mem_kb = 0\<rparr>)"

text \<open>The client sends its keys in a fixed order, and here a \<open>false\<close> is an error.\<close>

definition deserialize_eval_key_by_index :: "('g, 'cc, 'ct) zk_openfhe \<Rightarrow> nat \<Rightarrow> bytes \<Rightarrow>
    ('g, unit) prog" where
  "deserialize_eval_key_by_index L idx kb =
     (if kb = [] then ret ()
      else let s = to_string kb in
        bind_p (if idx = 0 then fl_deserialize_mult L s
                else if idx = 1 then fl_deserialize_sum L s
                else fl_deserialize_auto L s) (\<lambda>ok.
        if \<not> ok then raise (Throw (Runtime_error
          (''eval key['' @ dec_str idx @ ''] deserialization returned false'')))
        else ret ()))"

definition zk_load_keys :: "('g, 'cc, 'ct) zk_openfhe \<Rightarrow> bytes list \<Rightarrow> ('g, unit list) prog" where
  "zk_load_keys L kbs =
     for_p (\<lambda>(i, kb). deserialize_eval_key_by_index L i kb) (enumerate 0 kbs)"

section \<open>The three passes\<close>

record zk_artifacts =
  za_proof :: bytes
  za_public_inputs :: bytes
  za_vk :: bytes
  za_witness_us :: u64
  za_proof_us :: u64

definition no_artifacts :: zk_artifacts where
  "no_artifacts = \<lparr>za_proof = [], za_public_inputs = [], za_vk = [], za_witness_us = 0,
     za_proof_us = 0\<rparr>"

record zk_durations =
  zd_load :: int
  zd_eval :: int
  zd_witness :: int
  zd_proof :: int
  zd_transcript :: int
  zd_peak_mem :: int

record ('r, 'cc, 'ps, 'cs, 'f, 'w, 'pk, 'vk, 'p) zk_env =
  ze_zk :: "('cc, 'ps, 'cs, 'f, 'w) zk_lib"
  ze_snark :: "('r, 'cs, 'pk, 'vk, 'f list, 'w, 'p) snark"
  ze_bytes :: "('p, 'vk) zk_bytes"
  ze_field :: "'f field_io"
  ze_setup_rand :: 'r
  ze_prove_rand :: 'r

definition two_passes :: "('cc, 'ps, 'cs, 'f, 'w) zk_lib \<Rightarrow> ('g, 'ct) openfhe \<Rightarrow>
    ('ps \<Rightarrow> 'ct list \<Rightarrow> ('g, 'ct \<times> 'ps) prog) \<Rightarrow> 'cc \<Rightarrow> bytes list \<Rightarrow> ('g, 'ps) prog" where
  "two_passes Z L eval_zk cc cts =
     bind_p (load_inputs L cts) (\<lambda>ins1.
     bind_p (eval_zk (zl_set_mode Z Constraint_generation (zl_new Z cc)) ins1) (\<lambda>(_, ps1).
     bind_p (load_inputs L cts) (\<lambda>ins2.
     bind_p (eval_zk (zl_set_mode Z Witness_generation ps1) ins2) (\<lambda>(_, ps2).
     ret ps2))))"

definition third_pass :: "('r, 'cc, 'ps, 'cs, 'f, 'w, 'pk, 'vk, 'p) zk_env \<Rightarrow> zk_durations \<Rightarrow> 'ps \<Rightarrow>
    (('g, 'pk, 'vk) zk_globals, zk_artifacts) prog" where
  "third_pass V D ps =
     (let Z = ze_zk V; S = ze_snark V;
          cs = zl_cs Z ps; x = zl_primary Z ps; w = zl_auxiliary Z ps;
          witness_us = micros (zd_witness D)
      in if zl_num_constraints Z cs = 0 then ret (no_artifacts\<lparr>za_witness_us := witness_us\<rparr>)
         else if \<not> sn_satisfied S cs x w
         then raise (Throw (Runtime_error ''constraint system not satisfied by witness''))
         else
           bind_p (in_keys (setup_keys S (ze_setup_rand V) cs)) (\<lambda>vk.
           bind_p (in_keys (prove S (ze_prove_rand V) x w)) (\<lambda>pf.
           bind_p (lift_p (serialize_public_inputs (ze_field V) x)) (\<lambda>pi_bytes.
           bind_p (in_keys (clear_cached_keypair S)) (\<lambda>_.
           ret \<lparr>za_proof = zb_proof (ze_bytes V) pf, za_public_inputs = pi_bytes,
                za_vk = zb_vk (ze_bytes V) vk, za_witness_us = witness_us,
                za_proof_us = micros (zd_proof D)\<rparr>)))))"

definition zk_phase :: "('r, 'cc, 'ps, 'cs, 'f, 'w, 'pk, 'vk, 'p) zk_env \<Rightarrow> zk_durations \<Rightarrow>
    ('g, 'cc, 'ct) zk_openfhe \<Rightarrow> ('g, 'cc, 'ct, 'ps) zk_workload \<Rightarrow> 'cc \<Rightarrow> bytes list \<Rightarrow>
    (('g, 'pk, 'vk) zk_globals, zk_artifacts) prog" where
  "zk_phase V D L w cc cts =
     (case wl_eval_zk w of
        None \<Rightarrow> ret no_artifacts
      | Some eval_zk \<Rightarrow>
          try_p (bind_p (in_lib (two_passes (ze_zk V) (openfhe.truncate L) eval_zk cc cts)) (third_pass V D))
            (\<lambda>_. ret no_artifacts))"

section \<open>The handler\<close>

definition zk_reply :: "string \<Rightarrow> ('g, 'a) prog \<Rightarrow> ('a \<Rightarrow> ('g, bytes option) prog) \<Rightarrow>
    ('g, bytes option) prog" where
  "zk_reply prefix p k = try_then p (\<lambda>e. Some (zk_build_error_response (prefix @ what e))) k"

definition zk_evaluated_response :: "'h platform \<Rightarrow> zk_durations \<Rightarrow> request \<Rightarrow> zk_artifacts \<Rightarrow>
    bytes \<Rightarrow> bytes" where
  "zk_evaluated_response P D rq a out_bytes =
     (let tr = (zk_build_transcript (pf_b3 P) (rq_nonce rq) (rq_keys rq) (rq_cts rq) out_bytes)
            \<lparr>tr_fhe_eval_us := micros (zd_eval D), tr_witness_us := za_witness_us a,
             tr_proof_us := za_proof_us a, tr_input_loading_us := micros (zd_load D),
             tr_transcript_us := micros (zd_transcript D), tr_peak_mem_kb := micros (zd_peak_mem D)\<rparr>
      in zk_build_response \<lparr>zs_output = out_bytes, zs_transcript = zk_to_json (pf_json P) tr,
           zs_proof = za_proof a, zs_public_inputs = za_public_inputs a, zs_vk = za_vk a\<rparr>)"

definition zk_evaluate_request :: "('r, 'cc, 'ps, 'cs, 'f, 'w, 'pk, 'vk, 'p) zk_env \<Rightarrow> 'h platform \<Rightarrow>
    zk_durations \<Rightarrow> ('g, 'cc, 'ct) zk_openfhe \<Rightarrow> ('g, 'cc, 'ct, 'ps) zk_workload registry \<Rightarrow>
    request \<Rightarrow> (('g, 'pk, 'vk) zk_globals, bytes option) prog" where
  "zk_evaluate_request V P D L reg rq =
     (case reg (rq_workload rq) of
        None \<Rightarrow> ret (Some (zk_build_error_response (''unknown workload: '' @ rq_workload rq)))
      | Some w \<Rightarrow>
          bind_p (in_lib (fl_clear_keys L)) (\<lambda>_.
          bind_p (in_lib (wl_make_context w)) (\<lambda>cc.
          bind_p (in_lib (fl_enable L cc)) (\<lambda>_.
          zk_reply ''bad key: '' (in_lib (zk_load_keys L (rq_keys rq))) (\<lambda>_.
          zk_reply ''bad ct: '' (in_lib (load_inputs (openfhe.truncate L) (rq_cts rq))) (\<lambda>inputs.
          zk_reply ''eval failed: '' (in_lib (wl_eval w cc inputs)) (\<lambda>out.
          bind_p (zk_phase V D L w cc (rq_cts rq)) (\<lambda>a.
          zk_reply ''serialize: '' (lift_p (serialize_ciphertext (openfhe.truncate L) out)) (\<lambda>out_str.
          ret (Some (zk_evaluated_response P D rq a (to_bytes out_str))))))))))))"

definition zk_handle_client :: "('r, 'cc, 'ps, 'cs, 'f, 'w, 'pk, 'vk, 'p) zk_env \<Rightarrow> 'h platform \<Rightarrow>
    zk_durations \<Rightarrow> ('g, 'cc, 'ct) zk_openfhe \<Rightarrow> ('g, 'cc, 'ct, 'ps) zk_workload registry \<Rightarrow>
    bytes result \<Rightarrow> (('g, 'pk, 'vk) zk_globals, bytes option) prog" where
  "zk_handle_client V P D L reg received =
     try_then (lift_p received) (\<lambda>_. None) (\<lambda>req.
     zk_reply ''bad request: '' (lift_p (zk_parse_request (pf_alloc P) req)) (\<lambda>rq.
     zk_evaluate_request V P D L reg rq))"

section \<open>What the proofs are worth\<close>

lemma in_lib_run [prog_simps]:
  "p (zg_lib s) = (r, g) \<Longrightarrow> in_lib p s = (r, s\<lparr>zg_lib := g\<rparr>)"
  by (simp add: in_lib_def on_field_def)

lemma in_keys_run [prog_simps]:
  "p (zg_keys s) = (r, k) \<Longrightarrow> in_keys p s = (r, s\<lparr>zg_keys := k\<rparr>)"
  by (simp add: in_keys_def on_field_def)

lemma in_keys_setup:
  "sn_generate S r cs = (pk, vk) \<Longrightarrow> in_keys (setup_keys S r cs) s =
    (Inr vk, s\<lparr>zg_keys := (zg_keys s)\<lparr>kc_vk := vk, kc_pk := pk, kc_valid := True\<rparr>\<rparr>)"
  by (simp add: in_keys_def on_field_def setup_keys_def)

text \<open>
  The outcome of the third pass: nothing for an empty constraint system, otherwise a proof of a
  satisfied system that its own verification key accepts; the cache is clean afterwards.
\<close>

lemma third_pass_result:
  assumes "third_pass V D ps s = (Inr a, s')"
    and "snark_complete (ze_snark V) (zl_cs (ze_zk V) ps) (zl_primary (ze_zk V) ps)
      (zl_auxiliary (ze_zk V) ps)"
  shows "(zl_num_constraints (ze_zk V) (zl_cs (ze_zk V) ps) = 0 \<and> za_proof a = [] \<and> s' = s) \<or>
    (\<exists>pf vk. za_proof a = zb_proof (ze_bytes V) pf \<and> za_vk a = zb_vk (ze_bytes V) vk \<and>
      serialize_public_inputs (ze_field V) (zl_primary (ze_zk V) ps) = Inr (za_public_inputs a) \<and>
      sn_satisfied (ze_snark V) (zl_cs (ze_zk V) ps) (zl_primary (ze_zk V) ps)
        (zl_auxiliary (ze_zk V) ps) \<and>
      verify_proof (ze_snark V) vk (zl_primary (ze_zk V) ps) pf \<and>
      s' = s\<lparr>zg_keys := key_cache_init (ze_snark V)\<rparr>)"
proof -
  let ?S = "ze_snark V" and ?cs = "zl_cs (ze_zk V) ps" and ?x = "zl_primary (ze_zk V) ps"
    and ?w = "zl_auxiliary (ze_zk V) ps"
  show ?thesis
  proof (cases "zl_num_constraints (ze_zk V) ?cs = 0")
    case True
    with assms(1) show ?thesis by (auto simp: third_pass_def Let_def no_artifacts_def)
  next
    case False
    show ?thesis
    proof (cases "sn_satisfied ?S ?cs ?x ?w")
      case False
      with assms(1) \<open>zl_num_constraints (ze_zk V) ?cs \<noteq> 0\<close> show ?thesis
        by (simp add: third_pass_def Let_def)
    next
      case sat: True
      obtain pk vk where gen: "sn_generate ?S (ze_setup_rand V) ?cs = (pk, vk)"
        by (cases "sn_generate ?S (ze_setup_rand V) ?cs")
      let ?pf = "sn_prove ?S (ze_prove_rand V) pk ?x ?w"
      have ok: "verify_proof ?S vk ?x ?pf"
        using snark_completeD [OF assms(2) sat gen] by (simp add: verify_proof_def)
      let ?s1 = "s\<lparr>zg_keys := (zg_keys s)\<lparr>kc_vk := vk, kc_pk := pk, kc_valid := True\<rparr>\<rparr>"
      have pr: "in_keys (prove ?S (ze_prove_rand V) ?x ?w) ?s1 = (Inr ?pf, ?s1)"
        by (simp add: in_keys_def on_field_def prove_def)
      have cl: "in_keys (clear_cached_keypair ?S) ?s1 =
          (Inr (), s\<lparr>zg_keys := key_cache_init ?S\<rparr>)"
        by (simp add: in_keys_def on_field_def clear_is_init)
      from assms(1) False sat show ?thesis
        by (cases "serialize_public_inputs (ze_field V) ?x")
          (use ok in \<open>auto simp: third_pass_def Let_def bind_p_def
            in_keys_setup [OF gen] pr cl intro!: exI [of _ ?pf] exI [of _ vk]\<close>)
    qed
  qed
qed

text \<open>A pass that throws leaves no artifacts, and no exception leaves the phase.\<close>

lemma zk_phase_never_throws: "never (zk_phase V D L w cc cts) is_throw"
proof (rule neverI)
  fix s e s'
  assume "zk_phase V D L w cc cts s = (Inl e, s')"
  then show "\<not> is_throw e"
    by (auto simp: zk_phase_def try_p_def split: option.splits prod.splits sum.splits fault.splits)
qed

lemma zk_phase_artifacts:
  assumes "zk_phase V D L w cc cts s = (Inr a, s')" and "za_proof a \<noteq> []"
  shows "\<exists>eval_zk ps s1. wl_eval_zk w = Some eval_zk \<and>
    in_lib (two_passes (ze_zk V) (openfhe.truncate L) eval_zk cc cts) s = (Inr ps, s1) \<and>
    third_pass V D ps s1 = (Inr a, s')"
proof -
  from assms obtain eval_zk where e: "wl_eval_zk w = Some eval_zk"
    by (cases "wl_eval_zk w") (auto simp: zk_phase_def no_artifacts_def)
  let ?p = "in_lib (two_passes (ze_zk V) (openfhe.truncate L) eval_zk cc cts)"
  have "bind_p ?p (third_pass V D) s = (Inr a, s')"
    using assms by (auto simp: zk_phase_def e try_p_def no_artifacts_def
        split: prod.splits sum.splits fault.splits)
  then show ?thesis
    by (cases rule: bind_p_cases) (auto simp: e)
qed

lemma zk_reply_run [prog_simps]:
  "p g = (Inr x, g1) \<Longrightarrow> zk_reply prefix p k g = k x g1"
  "p g = (Inl (Throw e), g1) \<Longrightarrow>
    zk_reply prefix p k g = (Inr (Some (zk_build_error_response (prefix @ what e))), g1)"
  "p g = (Inl (Ub u), g1) \<Longrightarrow> zk_reply prefix p k g = (Inl (Ub u), g1)"
  by (simp_all add: zk_reply_def try_then_run)

lemma zk_reply_cases:
  assumes "zk_reply prefix p k g = (r, g')"
  obtains (caught) e where "p g = (Inl (Throw e), g')"
      "r = Inr (Some (zk_build_error_response (prefix @ what e)))"
    | (undefined_behaviour) u where "p g = (Inl (Ub u), g')" "r = Inl (Ub u)"
    | (go) x g1 where "p g = (Inr x, g1)" "k x g1 = (r, g')"
  using assms unfolding zk_reply_def by (rule try_then_cases) (rule that; assumption)+

definition is_zk_error_response :: "bytes \<Rightarrow> bool" where
  "is_zk_error_response b \<longleftrightarrow> (\<exists>msg. b = zk_build_error_response msg)"

lemma is_zk_error_responseI [simp]: "is_zk_error_response (zk_build_error_response msg)"
  by (auto simp: is_zk_error_response_def)

text \<open>Every answer is an error response, or comes from an evaluation and a run of the phase.\<close>

lemma zk_evaluate_request_answer:
  assumes "zk_evaluate_request V P D L reg rq s = (Inr (Some b), s')"
    and "\<not> is_zk_error_response b"
  shows "\<exists>w cc a out s1 s2. reg (rq_workload rq) = Some w \<and>
    zk_phase V D L w cc (rq_cts rq) s1 = (Inr a, s2) \<and>
    b = zk_evaluated_response P D rq a out"
proof (cases "reg (rq_workload rq)")
  case None
  with assms show ?thesis by (auto simp: zk_evaluate_request_def)
next
  case (Some w)
  from assms show ?thesis
    unfolding zk_evaluate_request_def Some option.simps
    by (elim bind_p_cases zk_reply_cases; simp add: Some; blast?)
qed

end
