(* ===== verification/Gpu_Evidence.thy ===== *)
theory Gpu_Evidence
  imports Hashing_Hex "HOL-Library.Multiset"
begin

text \<open>
  \<open>h100_evidence_adapter.cpp\<close> of \<open>gpucc-vfhe\<close>: the package of GPU evidence, its byte format,
  and the adapter around the NVIDIA attestation SDK with the handles it creates and frees. The
  lengths are copied with \<open>memcpy\<close> on a little-endian machine.
\<close>

section \<open>The package\<close>

record gpu_evidence_package =
  evidence_json :: bytes
  detached_eat :: bytes
  claims_json :: bytes
  ev_nonce :: bytes

definition wf_package :: "gpu_evidence_package \<Rightarrow> bool" where
  "wf_package p \<longleftrightarrow> length (evidence_json p) < 2 ^ 32 \<and> length (detached_eat p) < 2 ^ 32 \<and>
     length (claims_json p) < 2 ^ 32 \<and> length (ev_nonce p) = 32"

definition le32_bytes :: "u32 \<Rightarrow> bytes" where
  "le32_bytes v =
     [ucast v, ucast (drop_bit 8 v), ucast (drop_bit 16 v), ucast (drop_bit 24 v)]"

fun le32 :: "bytes \<Rightarrow> u32" where
  "le32 [b0, b1, b2, b3] =
     ucast b0 OR push_bit 8 (ucast b1) OR push_bit 16 (ucast b2) OR push_bit 24 (ucast b3)"
| "le32 _ = 0"

definition write_evidence_blob :: "bytes \<Rightarrow> bytes" where
  "write_evidence_blob blob = le32_bytes (of_nat (length blob)) @ blob"

definition evidence_serialize :: "gpu_evidence_package \<Rightarrow> bytes" where
  "evidence_serialize p =
     write_evidence_blob (evidence_json p) @ write_evidence_blob (detached_eat p) @
     write_evidence_blob (claims_json p) @ ev_nonce p"

definition read_evidence_blob :: "bytes \<Rightarrow> nat \<Rightarrow> (bytes \<times> nat) result" where
  "read_evidence_blob data offset =
     (if offset + 4 > length data then throw (Runtime_error ''deserialize: truncated'')
      else let sz = unat (le32 (take 4 (drop offset data))); offset' = offset + 4 in
        if offset' + sz > length data
        then throw (Runtime_error ''deserialize: truncated blob'')
        else Inr (take sz (drop offset' data), offset' + sz))"

definition evidence_deserialize :: "bytes \<Rightarrow> gpu_evidence_package result" where
  "evidence_deserialize data =
     bind_r (read_evidence_blob data 0) (\<lambda>(ev, o1).
     bind_r (read_evidence_blob data o1) (\<lambda>(eat, o2).
     bind_r (read_evidence_blob data o2) (\<lambda>(cl, o3).
     if o3 + 32 > length data then throw (Runtime_error ''deserialize: truncated nonce'')
     else Inr \<lparr>evidence_json = ev, detached_eat = eat, claims_json = cl,
            ev_nonce = take 32 (drop o3 data)\<rparr>)))"

lemma length_le32_bytes [simp]: "length (le32_bytes v) = 4"
  by (simp add: le32_bytes_def)

lemma le32_le32_bytes [simp]: "le32 (le32_bytes v) = v"
  unfolding le32_bytes_def le32.simps
proof (rule bit_word_eqI)
  fix i
  assume "i < LENGTH(32)"
  then consider "i < 8" | "8 \<le> i" "i < 16" | "16 \<le> i" "i < 24" | "24 \<le> i" "i < 32"
    by force
  then show "bit (ucast (ucast v :: byte) OR push_bit 8 (ucast (ucast (drop_bit 8 v) :: byte)) OR
      push_bit 16 (ucast (ucast (drop_bit 16 v) :: byte)) OR
      push_bit 24 (ucast (ucast (drop_bit 24 v) :: byte)) :: u32) i \<longleftrightarrow> bit v i"
    by cases (auto simp: bit_or_iff bit_push_bit_iff bit_drop_bit_eq bit_unsigned_iff)
qed

lemma le32_bytes_le32: "length bs = 4 \<Longrightarrow> le32_bytes (le32 bs) = bs"
proof -
  assume "length bs = 4"
  then obtain b0 b1 b2 b3 where bs: "bs = [b0, b1, b2, b3]"
    by (auto simp: numeral_eq_Suc length_Suc_conv)
  show ?thesis
    unfolding le32_bytes_def bs le32.simps
    by (intro arg_cong2 [of _ _ _ _ Cons] refl; rule bit_word_eqI)
      (auto simp: bit_or_iff bit_push_bit_iff bit_drop_bit_eq bit_unsigned_iff
        dest: bit_imp_le_length)
qed

section \<open>The byte format\<close>

text \<open>
  A reader of the format walks an offset over the data; its contract is that of a sequence of
  fields: what was written at the offset comes back, and nothing but an encoding is accepted.
\<close>

locale offset_field =
  fixes wr :: "'a \<Rightarrow> bytes"
    and rd :: "bytes \<Rightarrow> nat \<Rightarrow> ('a \<times> nat) result"
    and ok :: "'a \<Rightarrow> bool"
  assumes rd_wr: "ok x \<Longrightarrow> rd (a @ wr x @ b) (length a) = Inr (x, length a + length (wr x))"
    and wr_rd: "rd data i = Inr (x, j) \<Longrightarrow> i \<le> length data \<Longrightarrow>
      ok x \<and> (\<exists>rest. drop i data = wr x @ rest) \<and> j = i + length (wr x)"
begin

lemma rd_wr_at: "ok x \<Longrightarrow> drop i data = wr x @ b \<Longrightarrow> i \<le> length data \<Longrightarrow>
    rd data i = Inr (x, i + length (wr x))"
  using rd_wr [of x "take i data" b] by (metis append_take_drop_id length_take min.absorb2)

lemma rest_after: "rd data i = Inr (x, j) \<Longrightarrow> i \<le> length data \<Longrightarrow>
    drop i data = wr x @ drop j data \<and> j \<le> length data"
  using wr_rd [of data i x j]
  by (metis add.commute append_eq_conv_conj drop_drop le_add_diff_inverse length_append
      length_drop nat_add_left_cancel_le le_add1)

end

lemma evidence_blob_wr_rd:
  assumes "read_evidence_blob data i = Inr (x, j)" and "i \<le> length data"
  shows "length x < 2 ^ 32 \<and> (\<exists>rest. drop i data = write_evidence_blob x @ rest) \<and>
    j = i + length (write_evidence_blob x)"
proof -
  let ?len = "take 4 (drop i data)"
  let ?sz = "unat (le32 ?len)"
  from assms have *: "i + 4 \<le> length data" "i + 4 + ?sz \<le> length data"
    "x = take ?sz (drop (i + 4) data)" "j = i + 4 + ?sz"
    by (auto simp: read_evidence_blob_def Let_def split: if_splits)
  then have lx: "length x = ?sz" by simp
  have l4: "length ?len = 4" using *(1) by simp
  have sz: "?sz < 2 ^ 32" using unsigned_less [of "le32 ?len"] by simp
  have "write_evidence_blob x = ?len @ x"
    using le32_bytes_le32 [OF l4] lx by (simp add: write_evidence_blob_def)
  then have "drop i data = write_evidence_blob x @ drop ?sz (drop (i + 4) data)"
    using *(3) by (metis add.commute append.assoc append_take_drop_id drop_drop)
  then show ?thesis
    using lx sz *(4) by (auto simp: write_evidence_blob_def)
qed

interpretation evidence_blob: offset_field write_evidence_blob read_evidence_blob
  "\<lambda>x. length x < 2 ^ 32"
proof
  fix x a b :: bytes
  assume "length x < 2 ^ 32"
  then have "unat (of_nat (length x) :: u32) = length x"
    by (simp add: unat_of_nat)
  then show "read_evidence_blob (a @ write_evidence_blob x @ b) (length a) =
      Inr (x, length a + length (write_evidence_blob x))"
    by (simp add: read_evidence_blob_def write_evidence_blob_def Let_def)
qed (rule evidence_blob_wr_rd)

lemma evidence_round_trip_tail:
  assumes "wf_package p"
  shows "evidence_deserialize (evidence_serialize p @ tail) = Inr p"
proof -
  let ?e = "write_evidence_blob (evidence_json p)" and ?d = "write_evidence_blob (detached_eat p)"
    and ?c = "write_evidence_blob (claims_json p)"
  let ?data = "evidence_serialize p @ tail"
  have 1: "read_evidence_blob ?data 0 = Inr (evidence_json p, length ?e)"
    using assms evidence_blob.rd_wr_at [of "evidence_json p" 0 ?data]
    by (simp add: wf_package_def evidence_serialize_def)
  have 2: "read_evidence_blob ?data (length ?e) = Inr (detached_eat p, length ?e + length ?d)"
    using assms evidence_blob.rd_wr_at [of "detached_eat p" "length ?e" ?data]
    by (simp add: wf_package_def evidence_serialize_def)
  have 3: "read_evidence_blob ?data (length ?e + length ?d) =
      Inr (claims_json p, length ?e + length ?d + length ?c)"
    using assms evidence_blob.rd_wr_at [of "claims_json p" "length ?e + length ?d" ?data]
    by (simp add: wf_package_def evidence_serialize_def)
  show ?thesis
    using assms
    by (simp add: evidence_deserialize_def 1 2 3 wf_package_def)
      (simp add: evidence_serialize_def)
qed

text \<open>The converse: what is accepted is an encoding, followed by bytes that nobody looks at.\<close>

lemma evidence_accepted:
  assumes "evidence_deserialize data = Inr p"
  shows "wf_package p \<and> (\<exists>tail. data = evidence_serialize p @ tail)"
proof -
  from assms obtain ev o1 eat o2 cl o3 where
    1: "read_evidence_blob data 0 = Inr (ev, o1)" and
    2: "read_evidence_blob data o1 = Inr (eat, o2)" and
    3: "read_evidence_blob data o2 = Inr (cl, o3)" and
    fit: "o3 + 32 \<le> length data" and
    p: "p = \<lparr>evidence_json = ev, detached_eat = eat, claims_json = cl,
      ev_nonce = take 32 (drop o3 data)\<rparr>"
    by (auto simp: evidence_deserialize_def split: prod.splits if_splits)
  note r1 = evidence_blob.rest_after [OF 1] evidence_blob.wr_rd [OF 1]
  then have o1: "o1 \<le> length data" by simp
  note r2 = evidence_blob.rest_after [OF 2 o1] evidence_blob.wr_rd [OF 2 o1]
  then have o2: "o2 \<le> length data" by simp
  note r3 = evidence_blob.rest_after [OF 3 o2] evidence_blob.wr_rd [OF 3 o2]
  have "data = write_evidence_blob ev @ write_evidence_blob eat @ write_evidence_blob cl @
      take 32 (drop o3 data) @ drop 32 (drop o3 data)"
    using r1 r2 r3 by (metis append_take_drop_id drop_0 zero_le)
  then have "\<exists>tail. data = evidence_serialize p @ tail"
    by (auto simp: evidence_serialize_def p)
  moreover have "wf_package p"
    using r1 r2 r3 fit by (simp add: wf_package_def p)
  ultimately show ?thesis by blast
qed

text \<open>The nonce of the package: the client's nonce, cut or zero-padded to 32 bytes.\<close>

definition nonce_array :: "bytes \<Rightarrow> bytes" where
  "nonce_array nonce =
     (let copy_len = min (length nonce) 32
      in take copy_len nonce @ replicate (32 - copy_len) 0)"

lemma length_nonce_array [simp]: "length (nonce_array n) = 32"
  by (simp add: nonce_array_def Let_def)

section \<open>The adapter\<close>

text \<open>
  The SDK is the environment: the return code of each call (\<open>None\<close> for \<open>NVAT_RC_OK\<close>, otherwise
  the text of the code) and the data it hands out. \<open>Created\<close> and \<open>Freed\<close> record the handles.
\<close>

datatype handle = H_opts | H_nonce | H_source | H_evidence | H_str

datatype handle_op = Created handle | Freed handle

record nvat =
  nv_opts_create :: "string option"
  nv_sdk_init :: "string option"
  nv_nonce :: "string option"
  nv_source :: "string option"
  nv_collect :: "string option"
  nv_ev_count :: nat
  nv_ev_array :: bool
  nv_serialize :: "string option"
  nv_json :: bytes

definition adapter_init :: "nvat \<Rightarrow> bool \<Rightarrow> bool \<times> bool \<times> handle_op list" where
  "adapter_init nv initialized =
     (if initialized then (True, initialized, [])
      else case nv_opts_create nv of
        Some _ \<Rightarrow> (False, initialized, [])
      | None \<Rightarrow> (case nv_sdk_init nv of
            Some _ \<Rightarrow> (False, initialized, [Created H_opts, Freed H_opts])
          | None \<Rightarrow> (True, True, [Created H_opts, Freed H_opts])))"

definition collect_evidence :: "nvat \<Rightarrow> bool \<Rightarrow> bytes \<Rightarrow>
    gpu_evidence_package result \<times> handle_op list" where
  "collect_evidence nv initialized nonce_bytes =
     (if \<not> initialized then (throw (Runtime_error ''[h100] not initialized''), [])
      else case nv_nonce nv of
        Some m \<Rightarrow> (throw (Runtime_error (''[h100] nonce_from_bytes: '' @ m)), [])
      | None \<Rightarrow> (case nv_source nv of
          Some m \<Rightarrow> (throw (Runtime_error (''[h100] source_nvml_create: '' @ m)),
            [Created H_nonce, Freed H_nonce])
        | None \<Rightarrow>
          (let ev = (if nv_collect nv = None \<and> nv_ev_array nv then [Created H_evidence] else []);
               pre = [Created H_nonce, Created H_source] @ ev @ [Freed H_source, Freed H_nonce]
           in case nv_collect nv of
             Some m \<Rightarrow> (throw (Runtime_error (''[h100] evidence_collect: '' @ m)), pre)
           | None \<Rightarrow>
             (if nv_ev_count nv = 0 \<or> \<not> nv_ev_array nv
              then (throw (Runtime_error ''[h100] no GPU evidence collected''), pre)
              else case nv_serialize nv of
                Some m \<Rightarrow> (throw (Runtime_error (''[h100] serialize_json: '' @ m)),
                  pre @ [Freed H_evidence])
              | None \<Rightarrow>
                (Inr \<lparr>evidence_json = nv_json nv, detached_eat = [], claims_json = [],
                   ev_nonce = nonce_bytes\<rparr>,
                 pre @ [Created H_str, Freed H_evidence, Freed H_str])))))"

definition adapter_verify :: "gpu_evidence_package \<Rightarrow> bytes \<Rightarrow> bool" where
  "adapter_verify evidence expected_nonce =
     (if ev_nonce evidence \<noteq> expected_nonce then False
      else if evidence_json evidence = [] then False
      else True)"

text \<open>A log is balanced when every free follows its creation and nothing stays open.\<close>

definition created :: "handle_op list \<Rightarrow> handle multiset" where
  "created ops = mset (List.map_filter (\<lambda>e. case e of Created h \<Rightarrow> Some h | Freed _ \<Rightarrow> None) ops)"

definition freed :: "handle_op list \<Rightarrow> handle multiset" where
  "freed ops = mset (List.map_filter (\<lambda>e. case e of Freed h \<Rightarrow> Some h | Created _ \<Rightarrow> None) ops)"

definition balanced :: "handle_op list \<Rightarrow> bool" where
  "balanced ops \<longleftrightarrow> created ops = freed ops \<and>
     list_all (\<lambda>n. freed (take n ops) \<subseteq># created (take n ops)) [0..<Suc (length ops)]"

lemma handle_counts [simp]:
  "created [] = {#}" "freed [] = {#}"
  "created (Created h # ops) = add_mset h (created ops)" "created (Freed h # ops) = created ops"
  "freed (Freed h # ops) = add_mset h (freed ops)" "freed (Created h # ops) = freed ops"
  by (simp_all add: created_def freed_def List.map_filter_def)

definition drops_evidence :: "nvat \<Rightarrow> bool" where
  "drops_evidence nv \<longleftrightarrow> nv_nonce nv = None \<and> nv_source nv = None \<and> nv_collect nv = None \<and>
     nv_ev_array nv \<and> nv_ev_count nv = 0"

lemma collect_evidence_logs:
  "\<not> drops_evidence nv \<Longrightarrow> snd (collect_evidence nv initialized nonce) \<in> set
    [[], [Created H_nonce, Freed H_nonce],
     [Created H_nonce, Created H_source, Freed H_source, Freed H_nonce],
     [Created H_nonce, Created H_source, Created H_evidence, Freed H_source, Freed H_nonce,
      Freed H_evidence],
     [Created H_nonce, Created H_source, Created H_evidence, Freed H_source, Freed H_nonce,
      Created H_str, Freed H_evidence, Freed H_str]]"
  by (cases "nv_nonce nv"; cases "nv_source nv"; cases "nv_collect nv"; cases "nv_serialize nv")
    (auto simp: collect_evidence_def drops_evidence_def Let_def)

lemma logs_balanced:
  "\<forall>ops \<in> set
    [[], [Created H_nonce, Freed H_nonce],
     [Created H_nonce, Created H_source, Freed H_source, Freed H_nonce],
     [Created H_nonce, Created H_source, Created H_evidence, Freed H_source, Freed H_nonce,
      Freed H_evidence],
     [Created H_nonce, Created H_source, Created H_evidence, Freed H_source, Freed H_nonce,
      Created H_str, Freed H_evidence, Freed H_str],
     [Created H_opts, Freed H_opts]]. balanced ops"
  by code_simp

lemma collect_evidence_balanced:
  "\<not> drops_evidence nv \<Longrightarrow> balanced (snd (collect_evidence nv initialized nonce))"
  using collect_evidence_logs [of nv initialized nonce] logs_balanced by auto

lemma collect_evidence_drops:
  "drops_evidence nv \<Longrightarrow> created (snd (collect_evidence nv True nonce)) =
    add_mset H_evidence (freed (snd (collect_evidence nv True nonce)))"
  by (simp add: collect_evidence_def drops_evidence_def Let_def add_mset_commute)

lemma adapter_init_balanced: "balanced (snd (snd (adapter_init nv i)))"
proof -
  have "snd (snd (adapter_init nv i)) \<in> set [[], [Created H_opts, Freed H_opts]]"
    by (cases "nv_opts_create nv"; cases "nv_sdk_init nv") (simp_all add: adapter_init_def)
  then show ?thesis using logs_balanced by auto
qed

lemma collect_evidence_result:
  "collect_evidence nv i nonce = (Inr p, ops) \<Longrightarrow>
    i \<and> ev_nonce p = nonce \<and> evidence_json p = nv_json nv \<and> detached_eat p = [] \<and> claims_json p = []"
  by (auto simp: collect_evidence_def Let_def split: if_splits option.splits)

lemma adapter_verify_iff:
  "adapter_verify p n \<longleftrightarrow> ev_nonce p = n \<and> evidence_json p \<noteq> []"
  by (simp add: adapter_verify_def)

end
