(* ===== verification/Verifier.thy ===== *)
theory Verifier
  imports Attestation Gpu_Evidence
begin

text \<open>
  \<open>client/verifier.cpp\<close>: the checks a client makes before it trusts a result. The DCAP quote
  verification library, its appraisal policy file, OpenSSL's base64 decoder and the JSON library
  are parameters; what the code does with their answers is modelled in full.
\<close>

section \<open>Base64\<close>

text \<open>\<open>EVP_DecodeBlock\<close>: \<open>None\<close> for a negative result, otherwise the bytes it wrote.\<close>

type_synonym evp_decode = "string \<Rightarrow> bytes option"

definition b64_pad :: "string \<Rightarrow> string" where
  "b64_pad s = s @ replicate ((4 - length s mod 4) mod 4) CHR ''=''"

definition b64_decode :: "evp_decode \<Rightarrow> string \<Rightarrow> bytes result" where
  "b64_decode evp inp =
     (let s = b64_pad inp in
      case evp s of
        None \<Rightarrow> throw (Runtime_error ''base64 decode failed'')
      | Some out \<Rightarrow>
          (let n = length out;
               pad = (if s \<noteq> [] \<and> s ! (length s - 1) = CHR ''='' then 1 else 0) +
                     (if length s \<ge> 2 \<and> s ! (length s - 2) = CHR ''='' then 1 else 0)
           in if n < pad then throw (Length_error ''vector::_M_default_append'')
              else Inr (take (n - pad) out)))"

definition b64url_char :: "char \<Rightarrow> char" where
  "b64url_char c = (if c = CHR ''-'' then CHR ''+'' else if c = CHR ''_'' then CHR ''/'' else c)"

definition base64url_decode :: "evp_decode \<Rightarrow> string \<Rightarrow> bytes result" where
  "base64url_decode evp inp = b64_decode evp (map b64url_char inp)"

lemma b64_pad_length: "4 dvd length (b64_pad s)"
proof -
  have "4 dvd l + (4 - l mod 4) mod 4" for l :: nat
  proof -
    have "l mod 4 < 4" by simp
    then have "(l mod 4 + (4 - l mod 4) mod 4) mod 4 = 0"
      by (cases "l mod 4 = 0") simp_all
    then show ?thesis
      by (simp only: dvd_eq_mod_eq_0 mod_add_left_eq)
  qed
  then show ?thesis
    by (simp add: b64_pad_def)
qed

section \<open>The quote\<close>

text \<open>
  \<open>tee_verify_quote_qvt\<close> takes the quote (its length is cut to 32 bits) and returns a token;
  \<open>tee_appraise_verification_token\<close> takes the token, the policy and the time and returns a JWT.
\<close>

record dcap =
  dc_verify :: "bytes \<Rightarrow> nat + bytes"
  dc_policy :: "bytes option"
  dc_appraise :: "bytes \<Rightarrow> bytes \<Rightarrow> nat \<Rightarrow> nat + bytes"
  dc_now :: nat

record verifier_env =
  ve_dcap :: dcap
  ve_evp :: evp_decode
  ve_json :: json_lib

fun find_char :: "char \<Rightarrow> nat \<Rightarrow> string \<Rightarrow> nat option" where
  "find_char c i [] = None"
| "find_char c i (d # s) = (if d = c then Some i else find_char c (Suc i) s)"

text \<open>The middle part of \<open>header.payload.signature\<close>.\<close>

definition jwt_payload :: "string \<Rightarrow> string option" where
  "jwt_payload jwt =
     (case find_char CHR ''.'' 0 jwt of
        None \<Rightarrow> None
      | Some dot1 \<Rightarrow>
          (case find_char CHR ''.'' (dot1 + 1) (drop (dot1 + 1) jwt) of
             None \<Rightarrow> None
           | Some dot2 \<Rightarrow> Some (take (dot2 - dot1 - 1) (drop (dot1 + 1) jwt))))"

fun find_measurement :: "json_lib \<Rightarrow> json list \<Rightarrow> json option result" where
  "find_measurement J [] = Inr None"
| "find_measurement J (rep # reps) =
     (if js_contains J rep ''report''
      then bind_r (js_key J rep ''report'') (\<lambda>r.
        if js_contains J r ''measurement''
        then bind_r (js_key J r ''measurement'') (\<lambda>m.
          if js_contains J m ''tdx_reportdata'' then Inr (Some m) else find_measurement J reps)
        else find_measurement J reps)
      else find_measurement J reps)"

text \<open>
  The part of \<open>verify_tdx_quote\<close> up to the measurement: \<open>Inr None\<close> is each of its
  \<open>return false\<close>s, an exception is one that the enclosing \<open>try\<close> catches.
\<close>

definition quote_measurement :: "verifier_env \<Rightarrow> bytes \<Rightarrow> json option result" where
  "quote_measurement E quote_bytes =
     (let D = ve_dcap E; J = ve_json E;
          size = (of_nat (length quote_bytes) :: u32)
      in case dc_verify D (take (unat size) quote_bytes) of
        Inl _ \<Rightarrow> Inr None
      | Inr jwt \<Rightarrow>
        (case dc_policy D of
           None \<Rightarrow> Inr None
         | Some policy \<Rightarrow>
           (case dc_appraise D jwt (policy @ [0]) (dc_now D) of
              Inl _ \<Rightarrow> Inr None
            | Inr appr \<Rightarrow>
              (case jwt_payload (to_string appr) of
                 None \<Rightarrow> Inr None
               | Some payload_b64 \<Rightarrow>
                 bind_r (base64url_decode (ve_evp E) payload_b64) (\<lambda>payload_bytes.
                 bind_r (js_parse J (to_string payload_bytes)) (\<lambda>payload.
                 bind_r (js_value_str J payload ''appraisal_result'' []) (\<lambda>appraisal_str.
                 if appraisal_str = [] then Inr None
                 else
                   bind_r (js_parse J appraisal_str) (\<lambda>appraisal.
                   bind_r (js_index J appraisal 0) (\<lambda>first.
                   bind_r (js_key J first ''result'') (\<lambda>res.
                   bind_r (js_key J res ''appraised_reports'') (\<lambda>reports.
                   find_measurement J (js_items J reports))))))))))))"

definition check_measurement :: "json_lib \<Rightarrow> json \<Rightarrow> string \<Rightarrow> string \<Rightarrow> bool result" where
  "check_measurement J meas expected_mr_td_hex expected_rd_hex =
     bind_r (js_value_str J meas ''tdx_reportdata'' []) (\<lambda>report_data_hex.
     if report_data_hex = [] then Inr False
     else if \<not> hex_match report_data_hex expected_rd_hex then Inr False
     else if expected_mr_td_hex \<noteq> []
     then bind_r (js_value_str J meas ''tdx_mrtd'' []) (\<lambda>mr_td_hex.
       if mr_td_hex = [] then Inr False
       else if \<not> hex_match mr_td_hex expected_mr_td_hex then Inr False
       else Inr True)
     else Inr True)"

definition verify_tdx_quote :: "verifier_env \<Rightarrow> bytes \<Rightarrow> string \<Rightarrow> string \<Rightarrow> bool result" where
  "verify_tdx_quote E quote_bytes expected_mr_td_hex expected_rd_hex =
     catch_r
       (bind_r (quote_measurement E quote_bytes) (\<lambda>m. case m of
           None \<Rightarrow> Inr False
         | Some meas \<Rightarrow>
             check_measurement (ve_json E) meas expected_mr_td_hex expected_rd_hex))
       (\<lambda>_. Inr False)"

section \<open>The transcript\<close>

definition verify_transcript :: "'a transcript_scheme \<Rightarrow> bytes \<Rightarrow> hash32 \<Rightarrow> hash32 list \<Rightarrow> hash32 \<Rightarrow>
    bool" where
  "verify_transcript t expected_nonce expected_eval_key_hash expected_input_ct_hashes
      expected_output_ct_hash =
     (if tr_nonce t \<noteq> expected_nonce then False
      else if tr_eval_key_hash t \<noteq> expected_eval_key_hash then False
      else if length (tr_input_ct_hashes t) \<noteq> length expected_input_ct_hashes then False
      else if \<not> list_all (\<lambda>i. tr_input_ct_hashes t ! i = expected_input_ct_hashes ! i)
        [0..<length (tr_input_ct_hashes t)] then False
      else if tr_output_ct_hash t \<noteq> expected_output_ct_hash then False
      else True)"

definition verify_all :: "'h blake3 \<Rightarrow> verifier_env \<Rightarrow> bytes \<Rightarrow> transcript \<Rightarrow> bytes \<Rightarrow> string \<Rightarrow>
    hash32 \<Rightarrow> hash32 list \<Rightarrow> hash32 \<Rightarrow> bool result" where
  "verify_all b3 E quote_bytes t nonce mr_td ek_hash in_hashes out_hash =
     (let h = compute_transcript_hash b3 (ve_json E) t;
          rd = expected_report_data_hex h
      in if \<not> verify_transcript t nonce ek_hash in_hashes out_hash then Inr False
         else verify_tdx_quote E quote_bytes mr_td rd)"

definition bgv_verify_all :: "'h blake3 \<Rightarrow> verifier_env \<Rightarrow> bytes \<Rightarrow> bgv_transcript \<Rightarrow> bytes \<Rightarrow>
    string \<Rightarrow> hash32 \<Rightarrow> hash32 list \<Rightarrow> hash32 \<Rightarrow> bool result" where
  "bgv_verify_all b3 E quote_bytes t nonce mr_td ek_hash in_hashes out_hash =
     (let h = bgv_compute_transcript_hash b3 (ve_json E) t;
          rd = expected_report_data_hex h
      in if \<not> verify_transcript t nonce ek_hash in_hashes out_hash then Inr False
         else verify_tdx_quote E quote_bytes mr_td rd)"

section \<open>The GPU\<close>

definition verify_gpu_evidence :: "bytes \<Rightarrow> bytes \<Rightarrow> bool result" where
  "verify_gpu_evidence gpu_evidence expected_nonce =
     (if gpu_evidence = [] then Inr False
      else catch_r
        (bind_r (evidence_deserialize gpu_evidence) (\<lambda>pkg.
           if ev_nonce pkg \<noteq> nonce_array expected_nonce then Inr False
           else if evidence_json pkg = [] then Inr False
           else Inr True))
        (\<lambda>_. Inr False))"

definition verify_heterogeneous :: "'h blake3 \<Rightarrow> verifier_env \<Rightarrow> bytes \<Rightarrow> bytes \<Rightarrow> transcript \<Rightarrow>
    bytes \<Rightarrow> string \<Rightarrow> hash32 \<Rightarrow> hash32 list \<Rightarrow> hash32 \<Rightarrow> bool result" where
  "verify_heterogeneous b3 E quote_bytes gpu_evidence t nonce mr_td ek_hash in_hashes out_hash =
     (if \<not> verify_transcript t nonce ek_hash in_hashes out_hash then Inr False
      else bind_r (verify_gpu_evidence gpu_evidence nonce) (\<lambda>gpu_ok.
        if \<not> gpu_ok then Inr False
        else let transcript_digest = compute_transcript_hash b3 (ve_json E) t;
                 gpu_digest = compute_gpu_evidence_digest b3 gpu_evidence;
                 binding = compute_heterogeneous_binding_digest b3 transcript_digest gpu_digest;
                 rd = expected_report_data_hex binding
             in verify_tdx_quote E quote_bytes mr_td rd))"

section \<open>What acceptance means\<close>

lemma verify_transcript_iff:
  "verify_transcript t nonce ek ins out \<longleftrightarrow> evidence t = (nonce, ek, ins, out)"
  by (auto simp: verify_transcript_def evidence_def list_all_iff intro: nth_equalityI)

text \<open>
  \<open>attests E q rd mr\<close>: DCAP accepts the quote, and the report it contains has the report data
  \<open>rd\<close> and, if \<open>mr\<close> is given, the measurement \<open>mr\<close>, up to the case of the digits.
\<close>

definition attests :: "verifier_env \<Rightarrow> bytes \<Rightarrow> string \<Rightarrow> string \<Rightarrow> bool" where
  "attests E quote rd mr \<longleftrightarrow>
     (\<exists>meas got. quote_measurement E quote = Inr (Some meas) \<and>
       js_value_str (ve_json E) meas ''tdx_reportdata'' [] = Inr got \<and> got \<noteq> [] \<and>
       to_lower got = to_lower rd \<and>
       (mr \<noteq> [] \<longrightarrow> (\<exists>m. js_value_str (ve_json E) meas ''tdx_mrtd'' [] = Inr m \<and> m \<noteq> [] \<and>
         to_lower m = to_lower mr)))"

lemma catch_false_True [simp]:
  "catch_r r (\<lambda>_. Inr False) = Inr True \<longleftrightarrow> r = Inr True"
  by (auto simp: catch_r_def split: sum.splits fault.splits)

lemma check_measurement_True:
  "check_measurement J meas mr rd = Inr True \<longleftrightarrow>
    (\<exists>got. js_value_str J meas ''tdx_reportdata'' [] = Inr got \<and> got \<noteq> [] \<and>
      to_lower got = to_lower rd \<and>
      (mr \<noteq> [] \<longrightarrow> (\<exists>m. js_value_str J meas ''tdx_mrtd'' [] = Inr m \<and> m \<noteq> [] \<and>
        to_lower m = to_lower mr)))"
  by (auto simp: check_measurement_def hex_match_def)

lemma verify_tdx_quote_True:
  "verify_tdx_quote E quote mr rd = Inr True \<longleftrightarrow> attests E quote rd mr"
  by (auto simp: verify_tdx_quote_def attests_def check_measurement_True split: option.splits)

lemma verify_all_True:
  "verify_all b3 E quote t nonce mr ek ins out = Inr True \<longleftrightarrow>
    evidence t = (nonce, ek, ins, out) \<and>
    attests E quote (expected_report_data_hex (compute_transcript_hash b3 (ve_json E) t)) mr"
  by (simp add: verify_all_def Let_def verify_transcript_iff verify_tdx_quote_True)

lemma bgv_verify_all_True:
  "bgv_verify_all b3 E quote t nonce mr ek ins out = Inr True \<longleftrightarrow>
    evidence t = (nonce, ek, ins, out) \<and>
    attests E quote (expected_report_data_hex (bgv_compute_transcript_hash b3 (ve_json E) t)) mr"
  by (simp add: bgv_verify_all_def Let_def verify_transcript_iff verify_tdx_quote_True)

lemma verify_gpu_evidence_True:
  "verify_gpu_evidence ev nonce = Inr True \<longleftrightarrow>
    (\<exists>pkg. evidence_deserialize ev = Inr pkg \<and> ev_nonce pkg = nonce_array nonce \<and>
      evidence_json pkg \<noteq> [])"
proof -
  have "evidence_deserialize [] \<noteq> Inr pkg" for pkg
    by (simp add: evidence_deserialize_def read_evidence_blob_def)
  then show ?thesis
    by (auto simp: verify_gpu_evidence_def split: if_splits)
qed

lemma verify_heterogeneous_True:
  "verify_heterogeneous b3 E quote gpu t nonce mr ek ins out = Inr True \<longleftrightarrow>
    evidence t = (nonce, ek, ins, out) \<and> verify_gpu_evidence gpu nonce = Inr True \<and>
    attests E quote (expected_report_data_hex (compute_heterogeneous_binding_digest b3
      (compute_transcript_hash b3 (ve_json E) t) (compute_gpu_evidence_digest b3 gpu))) mr"
  by (auto simp: verify_heterogeneous_def Let_def verify_transcript_iff verify_tdx_quote_True
      split: if_splits)

text \<open>An empty expected measurement is not checked.\<close>

lemma attests_any_mr: "attests E quote rd mr \<Longrightarrow> attests E quote rd []"
  by (auto simp: attests_def)

text \<open>The report data of an accepted quote decodes to one value.\<close>

lemma attests_unique:
  assumes "attests E quote (to_hex a) mr" and "attests E quote (to_hex b) mr'"
  shows "a = b"
  using assms by (auto simp: attests_def)

lemma attests_report_data_unique:
  assumes "attests E quote (expected_report_data_hex h) mr"
    and "attests E quote (expected_report_data_hex h') mr'"
    and "is_hash32 h" and "is_hash32 h'"
  shows "h = h'"
  using assms attests_unique [of E quote "rev (report_data h)" mr "rev (report_data h')" mr']
  by (simp add: expected_report_data_hex_rev report_data_inject)

context transcript_digest
begin

text \<open>One quote cannot vouch for two transcripts with different evidence.\<close>

lemma attested_evidence:
  assumes "readable t" and "readable u" and "no_collision b3 (text_of t) (text_of u)"
    and "attests E quote (expected_report_data_hex (hash t)) mr"
    and "attests E quote (expected_report_data_hex (hash u)) mr'"
  shows "evid t = evid u"
  using attests_report_data_unique [OF assms(4,5)] hash_is_hash32 hash_binds [OF assms(1-3)] assms(1,2)
  by blast

end

text \<open>No path of the verifier throws.\<close>

lemma verify_tdx_quote_catches:
  "verify_tdx_quote E quote mr rd \<noteq> Inl (Throw e)"
  by (auto simp: verify_tdx_quote_def catch_r_def split: sum.splits fault.splits)

end
