(* ===== verification/Client_Tee.thy ===== *)
theory Client_Tee
  imports Server_Tee Verifier
begin

text \<open>
  The clients of \<open>tee-vfhe\<close> and \<open>tee-vfhe-bgvrns\<close> (\<open>client_main.cpp\<close>): how inputs are laid out
  and keys are collected, and what is checked before the output is decrypted.
\<close>

section \<open>Nonce and inputs\<close>

text \<open>\<open>src\<close> is what \<open>/dev/urandom\<close> delivered; a short read falls back to a fixed sequence.\<close>

definition random_nonce :: "nat \<Rightarrow> bytes option \<Rightarrow> bytes" where
  "random_nonce n src = (case src of
      Some bs \<Rightarrow> (if length bs = n then bs
        else map (\<lambda>i. word_of_nat (i * 31 + 7)) [0..<n])
    | None \<Rightarrow> map (\<lambda>i. word_of_nat (i * 31 + 7)) [0..<n])"

record workload_spec =
  ws_id :: string
  ws_num_inputs :: int
  ws_slots :: int
  ws_seed_a :: int
  ws_seed_b :: int

definition mk_spec :: "string \<Rightarrow> int \<Rightarrow> int \<Rightarrow> int \<Rightarrow> int \<Rightarrow> workload_spec" where
  "mk_spec i n s a b =
     \<lparr>ws_id = i, ws_num_inputs = n, ws_slots = s, ws_seed_a = a, ws_seed_b = b\<rparr>"

definition kWorkloads :: "workload_spec list" where
  "kWorkloads =
     [mk_spec ''toy'' 2 32 42 123,
      mk_spec ''small'' 1 32 42 0,
      mk_spec ''medium'' 1 64 42 0,
      mk_spec ''micro_add'' 2 32 42 123,
      mk_spec ''micro_mul'' 2 32 42 123,
      mk_spec ''micro_mul_rescale'' 2 32 42 123,
      mk_spec ''micro_rotate'' 1 32 42 0,
      mk_spec ''app_matvec'' 1 256 42 0,
      mk_spec ''app_inference'' 1 128 42 0,
      mk_spec ''noop'' 1 32 42 0,
      mk_spec ''logistic-regression'' 21 32768 42 0]"

definition bgv_kWorkloads :: "workload_spec list" where
  "bgv_kWorkloads =
     [mk_spec ''noop'' 1 64 42 0,
      mk_spec ''toy'' 2 64 42 123,
      mk_spec ''small'' 4 64 42 123,
      mk_spec ''medium'' 6 64 42 123,
      mk_spec ''BGV-Add-4K'' 2 4096 42 123,
      mk_spec ''BGV-Mul-4K'' 2 4096 42 123]"

definition find_spec :: "workload_spec list \<Rightarrow> string \<Rightarrow> workload_spec option" where
  "find_spec specs wid = List.find (\<lambda>s. ws_id s = wid) specs"

text \<open>The generator and the distribution of \<open><random>\<close>: a seeding and a stepping function.\<close>

record ('s, 'v) rng =
  rg_seed :: "int \<Rightarrow> 's"
  rg_next :: "'s \<Rightarrow> 'v \<times> 's"

fun draw :: "('s \<Rightarrow> 'v \<times> 's) \<Rightarrow> nat \<Rightarrow> 's \<Rightarrow> 'v list" where
  "draw nx 0 s = []"
| "draw nx (Suc n) s = (let (v, s') = nx s in v # draw nx n s')"

definition gen_input_vec :: "('s, 'v) rng \<Rightarrow> int \<Rightarrow> int \<Rightarrow> 'v list" where
  "gen_input_vec R slots seed = draw (rg_next R) (nat slots) (rg_seed R seed)"

text \<open>The plaintexts of a workload: at most two in \<open>tee-vfhe\<close>, any number in the BGV client.\<close>

definition input_vectors :: "('s, 'v) rng \<Rightarrow> workload_spec option \<Rightarrow> 'v list list" where
  "input_vectors R spec = (case spec of
      None \<Rightarrow> []
    | Some s \<Rightarrow> gen_input_vec R (ws_slots s) (ws_seed_a s) #
        (if ws_num_inputs s \<ge> 2 then [gen_input_vec R (ws_slots s) (ws_seed_b s)] else []))"

definition bgv_input_vectors :: "('s, 'v) rng \<Rightarrow> workload_spec option \<Rightarrow> 'v list list" where
  "bgv_input_vectors R spec = (case spec of
      None \<Rightarrow> []
    | Some s \<Rightarrow> map (\<lambda>i. gen_input_vec R (ws_slots s) (ws_seed_a s + i * ws_seed_b s))
        [0..ws_num_inputs s - 1])"

section \<open>Inputs of the logistic regression\<close>

text \<open>
  One row of the file is its cells; \<open>stod\<close> is \<open>std::stod\<close>. \<open>std::getline\<close> on a stream that has
  reached its end leaves \<open>cell\<close> as it was, so a line with too few cells repeats its last one.
\<close>

definition kNumFeatures :: nat where "kNumFeatures = 196"
definition kCols :: nat where "kCols = 256"
definition kRows :: nat where "kRows = 128"
definition kSlots :: nat where "kSlots = 32768"
definition kNumBatches :: nat where "kNumBatches = 10"

definition cell_at :: "string list \<Rightarrow> nat \<Rightarrow> string" where
  "cell_at cells i = (if i < length cells then cells ! i else if cells = [] then [] else last cells)"

definition read_row :: "(string \<Rightarrow> 'v result) \<Rightarrow> 'v \<Rightarrow> string list \<Rightarrow> ('v list \<times> 'v) result" where
  "read_row stod zero cells =
     bind_r (map_r (\<lambda>f. stod (cell_at cells f)) [0..<kNumFeatures]) (\<lambda>feat.
     bind_r (stod (cell_at cells kNumFeatures)) (\<lambda>label.
     Inr (feat @ replicate (kCols - length feat) zero, label)))"

text \<open>
  The vectors are indexed without a check, so a file with fewer rows than the batches need is
  read past the end of \<open>features\<close>.
\<close>

definition data_vector :: "'v \<Rightarrow> ('v list \<times> 'v) list \<Rightarrow> nat \<Rightarrow> 'v list" where
  "data_vector zero rows b =
     concat (map (\<lambda>r. fst (rows ! (b * kRows + r))) [0..<kRows])"

definition label_vector :: "'v \<Rightarrow> ('v list \<times> 'v) list \<Rightarrow> nat \<Rightarrow> 'v list" where
  "label_vector zero rows b =
     concat (map (\<lambda>r. snd (rows ! (b * kRows + r)) # replicate (kCols - 1) zero) [0..<kRows])"

definition logreg_vectors :: "(string \<Rightarrow> 'v result) \<Rightarrow> 'v \<Rightarrow> string list list option \<Rightarrow>
    'v list list result" where
  "logreg_vectors stod zero csv = (case csv of
      None \<Rightarrow> throw (Runtime_error ''Cannot open mnist_data_train.csv'')
    | Some file_rows \<Rightarrow>
        bind_r (map_r (read_row stod zero) (take 1280 file_rows)) (\<lambda>rows.
        if length rows < kNumBatches * kRows then Inl (Ub ''features indexed past the end'')
        else Inr (map (data_vector zero rows) [0..<kNumBatches] @
                  map (label_vector zero rows) [0..<kNumBatches] @
                  [replicate kSlots zero])))"

section \<open>The evaluation keys\<close>

text \<open>What a serializer of OpenFHE returned and wrote to its stream.\<close>

definition key_blob :: "bool \<times> string \<Rightarrow> bytes list" where
  "key_blob r = (if fst r \<and> snd r \<noteq> [] then [to_bytes (snd r)] else [])"

definition serialize_all_eval_keys :: "bool \<times> string \<Rightarrow> bool \<times> string \<Rightarrow> bytes list" where
  "serialize_all_eval_keys mk ak = key_blob mk @ key_blob ak"

definition bgv_serialize_all_eval_keys :: "bool \<times> string \<Rightarrow> bool \<times> string \<Rightarrow> bool \<times> string \<Rightarrow>
    bytes list" where
  "bgv_serialize_all_eval_keys mk sk ak = key_blob mk @ key_blob sk @ key_blob ak"

section \<open>Checking the response\<close>

fun starts_with :: "string \<Rightarrow> string \<Rightarrow> bool" where
  "starts_with [] s = True"
| "starts_with (c # cs) [] = False"
| "starts_with (c # cs) (d # ds) = (c = d \<and> starts_with cs ds)"

fun contains_text :: "string \<Rightarrow> string \<Rightarrow> bool" where
  "contains_text t [] = starts_with t []"
| "contains_text t (d # ds) = (starts_with t (d # ds) \<or> contains_text t ds)"

definition error_mark :: string where
  "error_mark = CHR 0x22 # ''error'' @ [CHR 0x22]"

text \<open>
  The value is the output that goes on to decryption, or \<open>None\<close> where \<open>main\<close> returns 1.
\<close>

definition check_response :: "'h blake3 \<Rightarrow> verifier_env \<Rightarrow> string \<Rightarrow> request \<Rightarrow> bytes \<Rightarrow>
    bytes option result" where
  "check_response b3 E mr_td rq resp =
     (if resp = [] then Inr None
      else bind_r (parse_response resp) (\<lambda>p.
        if contains_text error_mark (rs_transcript p) then Inr None
        else bind_r (from_json (ve_json E) (rs_transcript p)) (\<lambda>t.
          let ek = hash_concatenated b3 (rq_keys rq);
              ins = map (blake3_hash b3) (rq_cts rq);
              out = blake3_hash b3 (rs_output p)
          in if \<not> verify_transcript t (rq_nonce rq) ek ins out then Inr None
             else bind_r (verify_all b3 E (rs_quote p) t (rq_nonce rq) mr_td ek ins out) (\<lambda>ok.
               if \<not> ok then Inr None else Inr (Some (rs_output p))))))"

definition bgv_check_response :: "'h blake3 \<Rightarrow> verifier_env \<Rightarrow> string \<Rightarrow> request \<Rightarrow> bytes \<Rightarrow>
    bytes option result" where
  "bgv_check_response b3 E mr_td rq resp =
     (if resp = [] then Inr None
      else bind_r (parse_response resp) (\<lambda>p.
        if contains_text error_mark (rs_transcript p) then Inr None
        else bind_r (bgv_from_json (ve_json E) (rs_transcript p)) (\<lambda>t.
          let ek = hash_concatenated b3 (rq_keys rq);
              ins = map (blake3_hash b3) (rq_cts rq);
              out = blake3_hash b3 (rs_output p)
          in if \<not> verify_transcript t (rq_nonce rq) ek ins out then Inr None
             else bind_r (bgv_verify_all b3 E (rs_quote p) t (rq_nonce rq) mr_td ek ins out) (\<lambda>ok.
               if \<not> ok then Inr None else Inr (Some (rs_output p))))))"

lemma check_response_accepts:
  "check_response b3 E mr rq resp = Inr (Some out) \<longleftrightarrow>
    (\<exists>p t. resp \<noteq> [] \<and> parse_response resp = Inr p \<and> rs_output p = out \<and>
      \<not> contains_text error_mark (rs_transcript p) \<and>
      from_json (ve_json E) (rs_transcript p) = Inr t \<and>
      evidence t = request_evidence b3 rq out \<and>
      attests E (rs_quote p)
        (expected_report_data_hex (compute_transcript_hash b3 (ve_json E) t)) mr)"
  by (auto simp: check_response_def Let_def verify_transcript_iff verify_all_True
      request_evidence_def split: if_splits)

lemma bgv_check_response_accepts:
  "bgv_check_response b3 E mr rq resp = Inr (Some out) \<longleftrightarrow>
    (\<exists>p t. resp \<noteq> [] \<and> parse_response resp = Inr p \<and> rs_output p = out \<and>
      \<not> contains_text error_mark (rs_transcript p) \<and>
      bgv_from_json (ve_json E) (rs_transcript p) = Inr t \<and>
      evidence t = request_evidence b3 rq out \<and>
      attests E (rs_quote p)
        (expected_report_data_hex (bgv_compute_transcript_hash b3 (ve_json E) t)) mr)"
  by (auto simp: bgv_check_response_def Let_def verify_transcript_iff bgv_verify_all_True
      request_evidence_def split: if_splits)

lemma starts_with_append [simp]: "starts_with t (t @ s)"
  by (induction t) auto

lemma contains_text_starts: "starts_with t s \<Longrightarrow> contains_text t s"
  by (cases s) simp_all

lemma contains_text_append: "contains_text t (a @ t @ b)"
  by (induction a) (simp_all add: contains_text_starts)

text \<open>An error response is refused, whatever its text.\<close>

lemma error_json_marked: "contains_text error_mark (error_json msg)"
proof -
  have "error_json msg = [CHR ''{''] @ error_mark @ [CHR '':'', CHR 0x22] @ msg @
      [CHR 0x22, CHR ''}'']"
    by (simp add: error_json_def error_mark_def)
  then show ?thesis
    by (metis contains_text_append)
qed

lemma check_response_error:
  assumes "length (build_error_response msg) < 2 ^ 64"
  shows "check_response b3 E mr rq (build_error_response msg) = Inr None"
    "bgv_check_response b3 E mr rq (build_error_response msg) = Inr None"
  using tee_response.parse_build [OF _ assms [unfolded error_response_is_response]]
  by (simp_all add: check_response_def bgv_check_response_def error_response_is_response
      error_json_marked)

section \<open>A client, a server and a quote\<close>

text \<open>
  What a session relies on: the JSON library reads its own text back and writes nothing but the
  members into it; the quote that the device makes over a digest verifies and reports it, last
  byte first.
\<close>

definition json_session :: "json_lib \<Rightarrow> (string \<times> json) list \<Rightarrow> bool" where
  "json_session J m \<longleftrightarrow> json_members J \<and> json_text J m \<and>
     \<not> contains_text error_mark (js_dump J (JObj m))"

definition quote_works :: "tdx \<Rightarrow> verifier_env \<Rightarrow> string \<Rightarrow> hash32 \<Rightarrow> bool" where
  "quote_works tdx E mr h \<longleftrightarrow>
     (\<exists>q. generate_tdx_quote tdx h = Inr q \<and> attests E q (to_hex (rev (report_data h))) mr)"

lemma quote_worksE:
  assumes "quote_works tdx E mr h"
  obtains q where "generate_tdx_quote tdx h = Inr q" "attests E q (to_hex (rev (report_data h))) mr"
  using assms unfolding quote_works_def by blast

lemma honest_response_accepted:
  assumes js: "json_session (pf_json P) (transcript_members (server_transcript P D rq out))"
    and sized: "b3_sized (pf_b3 P)" and E: "ve_json E = pf_json P"
    and quote: "quote_works (pf_tdx P) E mr (compute_transcript_hash (pf_b3 P) (pf_json P)
      (server_transcript P D rq out))"
    and len: "length (evaluated_response P D rq out) < 2 ^ 64"
  shows "check_response (pf_b3 P) E mr rq (evaluated_response P D rq out) = Inr (Some out)"
proof -
  let ?t = "server_transcript P D rq out"
  let ?h = "compute_transcript_hash (pf_b3 P) (pf_json P) ?t"
  from quote obtain q where q: "generate_tdx_quote (pf_tdx P) ?h = Inr q"
    and att: "attests E q (to_hex (rev (report_data ?h))) mr" by (rule quote_worksE)
  let ?p = "\<lparr>rs_output = out, rs_transcript = to_json (pf_json P) ?t, rs_quote = q\<rparr>"
  have r: "evaluated_response P D rq out = build_response ?p"
    by (simp add: evaluated_response_eq q quote_or_empty_def)
  have p: "parse_response (evaluated_response P D rq out) = Inr ?p"
    using tee_response.parse_build [of ?p] len by (simp add: r)
  have "8 \<le> length (evaluated_response P D rq out)"
    by (simp add: r build_bytes)
  then have ne: "evaluated_response P D rq out \<noteq> []" by auto
  have j: "from_json (ve_json E) (to_json (pf_json P) ?t) = Inr ?t"
    using from_json_to_json [of "pf_json P" ?t] js sized by (simp add: E json_session_def)
  have "attests E q (expected_report_data_hex ?h) mr"
    using att sized by (simp add: expected_report_data_hex_rev)
  then show ?thesis
    unfolding check_response_accepts
    by (intro exI [of _ ?p] exI [of _ ?t])
      (use p ne j js in \<open>simp add: E json_session_def to_json_def\<close>)
qed

lemma bgv_honest_response_accepted:
  assumes js: "json_session (pf_json P) (bgv_transcript_members (bgv_server_transcript P D rq out))"
    and sized: "b3_sized (pf_b3 P)" and E: "ve_json E = pf_json P"
    and quote: "quote_works (pf_tdx P) E mr (bgv_compute_transcript_hash (pf_b3 P) (pf_json P)
      (bgv_server_transcript P D rq out))"
    and len: "length (bgv_evaluated_response P D rq out) < 2 ^ 64"
  shows "bgv_check_response (pf_b3 P) E mr rq (bgv_evaluated_response P D rq out) = Inr (Some out)"
proof -
  let ?t = "bgv_server_transcript P D rq out"
  let ?h = "bgv_compute_transcript_hash (pf_b3 P) (pf_json P) ?t"
  from quote obtain q where q: "generate_tdx_quote (pf_tdx P) ?h = Inr q"
    and att: "attests E q (to_hex (rev (report_data ?h))) mr" by (rule quote_worksE)
  let ?p = "\<lparr>rs_output = out, rs_transcript = bgv_to_json (pf_json P) ?t, rs_quote = q\<rparr>"
  have r: "bgv_evaluated_response P D rq out = build_response ?p"
    by (simp add: evaluated_response_eq q quote_or_empty_def)
  have p: "parse_response (bgv_evaluated_response P D rq out) = Inr ?p"
    using tee_response.parse_build [of ?p] len by (simp add: r)
  have "8 \<le> length (bgv_evaluated_response P D rq out)"
    by (simp add: r build_bytes)
  then have ne: "bgv_evaluated_response P D rq out \<noteq> []" by auto
  have j: "bgv_from_json (ve_json E) (bgv_to_json (pf_json P) ?t) = Inr ?t"
    using bgv_from_json_to_json [of "pf_json P" ?t] js sized by (simp add: E json_session_def)
  have "attests E q (expected_report_data_hex ?h) mr"
    using att sized by (simp add: expected_report_data_hex_rev)
  then show ?thesis
    unfolding bgv_check_response_accepts
    by (intro exI [of _ ?p] exI [of _ ?t])
      (use p ne j js in \<open>simp add: E json_session_def bgv_to_json_def\<close>)
qed

text \<open>
  \<open>collision_free\<close>: BLAKE3 separates the given texts. Evidence then determines a request and an
  output, the keys up to the boundaries between their blobs.
\<close>

definition collision_free :: "'h blake3 \<Rightarrow> bytes list \<Rightarrow> bool" where
  "collision_free b3 xs \<longleftrightarrow>
     (\<forall>x \<in> set xs. \<forall>y \<in> set xs. blake3_hash b3 x = blake3_hash b3 y \<longrightarrow> x = y)"

definition hashed_texts :: "'a request_scheme \<Rightarrow> bytes \<Rightarrow> bytes list" where
  "hashed_texts rq out = concat (rq_keys rq) # out # rq_cts rq"

lemma collision_freeD:
  "collision_free b3 xs \<Longrightarrow> x \<in> set xs \<Longrightarrow> y \<in> set xs \<Longrightarrow> blake3_hash b3 x = blake3_hash b3 y \<Longrightarrow>
    x = y"
  unfolding collision_free_def by blast

lemma collision_free_map:
  assumes "collision_free b3 zs" and "set xs \<subseteq> set zs" and "set ys \<subseteq> set zs"
    and "map (blake3_hash b3) xs = map (blake3_hash b3) ys"
  shows "xs = ys"
proof -
  have "inj_on (blake3_hash b3) (set xs \<union> set ys)"
  proof (rule inj_onI)
    fix x y
    assume mem: "x \<in> set xs \<union> set ys" "y \<in> set xs \<union> set ys"
      and eq: "blake3_hash b3 x = blake3_hash b3 y"
    have "x \<in> set zs" "y \<in> set zs"
      using mem assms(2,3) by blast+
    then show "x = y"
      by (rule collision_freeD [OF assms(1) _ _ eq])
  qed
  then show ?thesis
    using assms(4) inj_on_map_eq_map by blast
qed

lemma request_evidence_determines:
  assumes "request_evidence b3 rq out = request_evidence b3 rq' out'"
    and cf: "collision_free b3 (hashed_texts rq out @ hashed_texts rq' out')"
  shows "rq_nonce rq = rq_nonce rq' \<and> concat (rq_keys rq) = concat (rq_keys rq') \<and>
    rq_cts rq = rq_cts rq' \<and> out = out'"
proof -
  have h: "rq_nonce rq = rq_nonce rq'"
    "blake3_hash b3 (concat (rq_keys rq)) = blake3_hash b3 (concat (rq_keys rq'))"
    "blake3_hash b3 out = blake3_hash b3 out'"
    "map (blake3_hash b3) (rq_cts rq) = map (blake3_hash b3) (rq_cts rq')"
    using assms(1) by (simp_all only: request_evidence_def hash_concatenated_def prod.inject)
  have "concat (rq_keys rq) = concat (rq_keys rq')" "out = out'"
    by (rule collision_freeD [OF cf _ _ h(2)] collision_freeD [OF cf _ _ h(3)];
        simp add: hashed_texts_def)+
  moreover have "rq_cts rq = rq_cts rq'"
    by (rule collision_free_map [OF cf _ _ h(4)]) (auto simp: hashed_texts_def)
  ultimately show ?thesis
    using h(1) by blast
qed

text \<open>
  If the quote that a client accepts was made for the transcript of some evaluation, it was the
  evaluation of the client's own request, and its output is the one that the client decrypts.
\<close>

lemma accepted_response_binds:
  assumes acc: "check_response (pf_b3 P) E mr rq resp = Inr (Some out)"
    and p: "parse_response resp = Inr p" and t: "from_json (pf_json P) (rs_transcript p) = Inr t"
    and E: "ve_json E = pf_json P"
    and rd: "readable (pf_b3 P) (pf_json P) t"
      "readable (pf_b3 P) (pf_json P) (server_transcript P D rq' out')"
    and made: "attests E (rs_quote p) (expected_report_data_hex (compute_transcript_hash (pf_b3 P)
      (pf_json P) (server_transcript P D rq' out'))) mr'"
    and nc: "no_collision (pf_b3 P) (to_bytes (to_json (pf_json P) (untimed t)))
      (to_bytes (to_json (pf_json P) (untimed (server_transcript P D rq' out'))))"
    and cf: "collision_free (pf_b3 P) (hashed_texts rq out @ hashed_texts rq' out')"
  shows "rq_nonce rq = rq_nonce rq' \<and> concat (rq_keys rq) = concat (rq_keys rq') \<and>
    rq_cts rq = rq_cts rq' \<and> out = out'"
proof -
  from acc obtain p2 t2 where *: "parse_response resp = Inr p2"
    "from_json (pf_json P) (rs_transcript p2) = Inr t2"
    "evidence t2 = request_evidence (pf_b3 P) rq out"
    "attests E (rs_quote p2) (expected_report_data_hex (compute_transcript_hash (pf_b3 P)
      (pf_json P) t2)) mr"
    unfolding check_response_accepts E by blast
  have "p2 = p" using *(1) p by (metis sum.inject(2))
  moreover have "t2 = t" using *(2) t calculation by (metis sum.inject(2))
  ultimately have ev: "evidence t = request_evidence (pf_b3 P) rq out"
    and att: "attests E (rs_quote p) (expected_report_data_hex (compute_transcript_hash (pf_b3 P)
      (pf_json P) t)) mr"
    using *(3,4) by blast+
  have "evidence t = evidence (server_transcript P D rq' out')"
    by (rule tee_digest.attested_evidence [OF rd nc att made])
  with ev have "request_evidence (pf_b3 P) rq out = request_evidence (pf_b3 P) rq' out'" by simp
  from request_evidence_determines [OF this cf] show ?thesis .
qed

end
