(* ===== verification/Client_Zk.thy ===== *)
theory Client_Zk
  imports Server_Zk Client_Tee
begin

text \<open>
  The client of \<open>zk-vfhe\<close>: \<open>client_main.cpp\<close> and \<open>client/verifier.cpp\<close>. The proof, its public
  inputs and the verification key all come from the response.
\<close>

section \<open>Inputs and keys\<close>

record zk_defaults =
  zw_id :: string
  zw_num_inputs :: int
  zw_slots :: int

definition zk_default :: "string \<Rightarrow> int \<Rightarrow> int \<Rightarrow> zk_defaults" where
  "zk_default i n s = \<lparr>zw_id = i, zw_num_inputs = n, zw_slots = s\<rparr>"

definition kWorkloadDefaults :: "zk_defaults list" where
  "kWorkloadDefaults =
     [zk_default ''noop'' 1 64, zk_default ''toy'' 2 64, zk_default ''small'' 4 64,
      zk_default ''medium'' 6 64, zk_default ''BGV-Add-4K'' 2 4096, zk_default ''BGV-Mul-4K'' 2 4096]"

text \<open>The table overrides what the command line asked for.\<close>

definition zk_dispatch :: "string \<Rightarrow> int \<Rightarrow> int \<Rightarrow> int \<times> int" where
  "zk_dispatch workload_id num_inputs slots =
     (case List.find (\<lambda>d. workload_id = zw_id d) kWorkloadDefaults of
        None \<Rightarrow> (num_inputs, slots)
      | Some d \<Rightarrow> (zw_num_inputs d, zw_slots d))"

definition zk_input_vectors :: "('s, 'v) rng \<Rightarrow> int \<Rightarrow> int \<Rightarrow> int \<Rightarrow> int \<Rightarrow> 'v list list" where
  "zk_input_vectors R num_inputs slots seed_a seed_b =
     map (\<lambda>i. gen_input_vec R slots (seed_a + i * seed_b)) [0..num_inputs - 1]"

text \<open>Three blobs in a fixed order; one that could not be serialized stays empty.\<close>

definition zk_serialize_all_eval_keys :: "bool \<times> string \<Rightarrow> bool \<times> string \<Rightarrow> bool \<times> string \<Rightarrow>
    bytes list" where
  "zk_serialize_all_eval_keys mk sk ak =
     map (\<lambda>r. if fst r then to_bytes (snd r) else []) [mk, sk, ak]"

section \<open>Verifying a proof\<close>

text \<open>\<open>operator>>\<close> of libsnark: \<open>None\<close> when the stream has failed.\<close>

record ('vk, 'p) zk_readers =
  zr_vk :: "bytes \<Rightarrow> 'vk option result"
  zr_proof :: "bytes \<Rightarrow> 'p option result"

definition zk_verify_proof :: "('r, 'cs, 'pk, 'vk, 'f list, 'w, 'p) snark \<Rightarrow> ('vk, 'p) zk_readers \<Rightarrow>
    'f field_io \<Rightarrow> bytes \<Rightarrow> bytes \<Rightarrow> bytes \<Rightarrow> bool result" where
  "zk_verify_proof S Z F proof_bytes public_inputs_bytes vk_bytes =
     catch_r
       (if proof_bytes = [] \<or> vk_bytes = [] then Inr False
        else bind_r (zr_vk Z vk_bytes) (\<lambda>vk_read. case vk_read of None \<Rightarrow> Inr False
          | Some vk \<Rightarrow> bind_r (zr_proof Z proof_bytes) (\<lambda>proof_read. case proof_read of
              None \<Rightarrow> Inr False
            | Some pf \<Rightarrow> bind_r (deserialize_public_inputs F public_inputs_bytes) (\<lambda>x.
                Inr (sn_verify S vk x pf)))))
       (\<lambda>_. Inr False)"

lemma zk_verify_proof_True:
  "zk_verify_proof S Z F pb xb vb = Inr True \<longleftrightarrow>
    pb \<noteq> [] \<and> vb \<noteq> [] \<and> (\<exists>vk pf x. zr_vk Z vb = Inr (Some vk) \<and> zr_proof Z pb = Inr (Some pf) \<and>
      deserialize_public_inputs F xb = Inr x \<and> sn_verify S vk x pf)"
  by (auto simp: zk_verify_proof_def split: option.splits)

section \<open>Checking the response\<close>

definition zk_check_response :: "('r, 'cs, 'pk, 'vk, 'f list, 'w, 'p) snark \<Rightarrow>
    ('vk, 'p) zk_readers \<Rightarrow> 'f field_io \<Rightarrow> bytes \<Rightarrow> bytes option result" where
  "zk_check_response S Z F resp =
     (if resp = [] then Inr None
      else bind_r (zk_parse_response resp) (\<lambda>p.
        if contains_text error_mark (zs_transcript p) then Inr None
        else if zs_proof p \<noteq> [] \<and> zs_vk p \<noteq> [] \<and> zs_public_inputs p \<noteq> []
        then bind_r (zk_verify_proof S Z F (zs_proof p) (zs_public_inputs p) (zs_vk p)) (\<lambda>proof_ok.
          if \<not> proof_ok then Inr None else Inr (Some (zs_output p)))
        else Inr (Some (zs_output p))))"

lemma zk_check_response_accepts:
  "zk_check_response S Z F resp = Inr (Some out) \<longleftrightarrow>
    (\<exists>p. resp \<noteq> [] \<and> zk_parse_response resp = Inr p \<and> zs_output p = out \<and>
      \<not> contains_text error_mark (zs_transcript p) \<and>
      (zs_proof p = [] \<or> zs_vk p = [] \<or> zs_public_inputs p = [] \<or>
       zk_verify_proof S Z F (zs_proof p) (zs_public_inputs p) (zs_vk p) = Inr True))"
  by (auto simp: zk_check_response_def split: if_splits)

lemma zk_response_nonempty: "zk_build_response p \<noteq> []"
proof -
  have "8 \<le> length (zk_build_response p)"
    by (simp add: build_bytes)
  then show ?thesis by auto
qed

lemma zk_check_built:
  assumes "length (zk_build_response p) < 2 ^ 64"
  shows "zk_check_response S Z F (zk_build_response p) = Inr (Some out) \<longleftrightarrow>
    zs_output p = out \<and> \<not> contains_text error_mark (zs_transcript p) \<and>
    (zs_proof p = [] \<or> zs_vk p = [] \<or> zs_public_inputs p = [] \<or>
     zk_verify_proof S Z F (zs_proof p) (zs_public_inputs p) (zs_vk p) = Inr True)"
  using zk_response.parse_build [OF _ assms] zk_response_nonempty [of p]
  by (simp add: zk_check_response_accepts)

text \<open>An honest server's artifacts pass, when libsnark and libff read back what they wrote.\<close>

lemma zk_artifacts_verify:
  assumes art: "third_pass V D ps s = (Inr a, s')" "za_proof a \<noteq> []" "za_vk a \<noteq> []"
    and complete: "snark_complete (ze_snark V) (zl_cs (ze_zk V) ps) (zl_primary (ze_zk V) ps)
      (zl_auxiliary (ze_zk V) ps)"
    and io: "\<And>vk. zr_vk Z (zb_vk (ze_bytes V) vk) = Inr (Some vk)"
      "\<And>pf. zr_proof Z (zb_proof (ze_bytes V) pf) = Inr (Some pf)"
    and bin: "binary_mode (ze_field V) (zl_primary (ze_zk V) ps)"
      "length (zl_primary (ze_zk V) ps) < 2 ^ 32"
  shows "zk_verify_proof (ze_snark V) Z (ze_field V) (za_proof a) (za_public_inputs a) (za_vk a) =
    Inr True"
proof -
  from third_pass_result [OF art(1) complete] art(2) obtain pf vk where
    *: "za_proof a = zb_proof (ze_bytes V) pf" "za_vk a = zb_vk (ze_bytes V) vk"
      "serialize_public_inputs (ze_field V) (zl_primary (ze_zk V) ps) = Inr (za_public_inputs a)"
      "verify_proof (ze_snark V) vk (zl_primary (ze_zk V) ps) pf" by auto
  have "deserialize_public_inputs (ze_field V) (za_public_inputs a) =
      Inr (zl_primary (ze_zk V) ps)"
    using public_inputs_round_trip [OF bin] *(3) by auto
  with * art(2,3) io show ?thesis
    by (auto simp: zk_verify_proof_True verify_proof_def)
qed

end
