(* ===== verification/Server_Gpu.thy ===== *)
theory Server_Gpu
  imports Server_Tee Gpu_Evidence
begin

text \<open>
  The server of \<open>gpucc-vfhe\<close>: the client's public key comes with the request and brings the
  crypto context with it; it is stored in a static variable that the GPU workload reads. The
  response carries GPU evidence, and the quote binds it together with the transcript.
\<close>

section \<open>Parameters and state\<close>

record ('g, 'pk) gpu_globals =
  gg_lib :: 'g
  gg_client_pk :: "'pk option"

definition in_gpu_lib :: "('g, 'a) prog \<Rightarrow> (('g, 'pk) gpu_globals, 'a) prog" where
  "in_gpu_lib p = on_field gg_lib gg_lib_update p"

record ('g, 'cc, 'ct, 'pk) gpu_openfhe = "('g, 'ct) openfhe" +
  fl_deserialize_pk :: "string \<Rightarrow> ('g, 'pk) prog"
  fl_pk_context :: "'pk \<Rightarrow> 'cc"

text \<open>A workload may read the public key that was stored last.\<close>

type_synonym ('g, 'cc, 'ct, 'pk) gpu_workload =
  "'cc \<Rightarrow> 'ct list \<Rightarrow> (('g, 'pk) gpu_globals, 'ct) prog"

definition set_client_public_key :: "'pk \<Rightarrow> (('g, 'pk) gpu_globals, unit) prog" where
  "set_client_public_key pk = (\<lambda>s. (Inr (), s\<lparr>gg_client_pk := Some pk\<rparr>))"

section \<open>Loading\<close>

definition load_public_key :: "('g, 'cc, 'ct, 'pk) gpu_openfhe \<Rightarrow> bytes \<Rightarrow>
    (('g, 'pk) gpu_globals, 'pk) prog" where
  "load_public_key L blob =
     bind_p (in_gpu_lib (fl_deserialize_pk L (to_string blob))) (\<lambda>pk.
     bind_p (set_client_public_key pk) (\<lambda>_. ret pk))"

definition gpu_load_eval_key :: "('g, 'cc, 'ct, 'pk) gpu_openfhe \<Rightarrow> nat \<Rightarrow> bytes \<Rightarrow>
    ('g, unit) prog" where
  "gpu_load_eval_key L i kb =
     (let s = to_string kb in
      try_p (bind_p (fl_deserialize_mult L s) (\<lambda>_. ret ())) (\<lambda>_.
      try_p (bind_p (fl_deserialize_sum L s) (\<lambda>_. ret ())) (\<lambda>_.
      try_p (bind_p (fl_deserialize_auto L s) (\<lambda>_. ret ())) (\<lambda>_.
      raise (Throw (Runtime_error (''eval key blob '' @ dec_str i @
        '' could not be deserialized by any known key type'')))))))"

definition gpu_load_eval_keys :: "('g, 'cc, 'ct, 'pk) gpu_openfhe \<Rightarrow> bytes list \<Rightarrow>
    ('g, unit list) prog" where
  "gpu_load_eval_keys L kbs = for_p (\<lambda>(i, kb). gpu_load_eval_key L i kb) (enumerate 0 kbs)"

section \<open>Evidence and quote\<close>

text \<open>Any failure of the SDK leaves the evidence empty.\<close>

definition gpu_evidence_bytes :: "nvat \<Rightarrow> bytes \<Rightarrow> bytes" where
  "gpu_evidence_bytes nv nonce =
     (case adapter_init nv False of
        (ok, initialized, _) \<Rightarrow>
          if ok then
            (case fst (collect_evidence nv initialized (nonce_array nonce)) of
               Inr pkg \<Rightarrow> evidence_serialize pkg
             | Inl _ \<Rightarrow> [])
          else [])"

definition gpu_quote :: "'h platform \<Rightarrow> hash32 \<Rightarrow> bytes \<Rightarrow> bytes" where
  "gpu_quote P hash ev = quote_or_empty
     (if ev \<noteq> []
      then generate_tdx_quote_heterogeneous (pf_b3 P) (pf_tdx P) hash
        (compute_gpu_evidence_digest (pf_b3 P) ev)
      else generate_tdx_quote (pf_tdx P) hash)"

definition gpu_evaluated_response :: "'h platform \<Rightarrow> durations \<Rightarrow> nvat \<Rightarrow> gpu_request \<Rightarrow> bytes \<Rightarrow>
    bytes" where
  "gpu_evaluated_response P D nv rq output_ct_bytes =
     (let t = (generate_transcript (pf_b3 P) (rq_nonce rq) (rq_keys rq) (rq_cts rq)
              output_ct_bytes)
            \<lparr>tr_fhe_eval_us := micros (du_eval D), tr_transcript_us := micros (du_transcript D)\<rparr>;
          hash = compute_transcript_hash (pf_b3 P) (pf_json P) t;
          ev = gpu_evidence_bytes nv (rq_nonce rq);
          quote = gpu_quote P hash ev;
          t' = t\<lparr>tr_quote_us := micros (du_quote D)\<rparr>
      in gpu_build_response \<lparr>rs_output = output_ct_bytes,
           rs_transcript = to_json (pf_json P) t', rs_quote = quote, rs_gpu_evidence = ev\<rparr>)"

section \<open>The handler\<close>

definition gpu_evaluate_request :: "'h platform \<Rightarrow> durations \<Rightarrow> nvat \<Rightarrow>
    ('g, 'cc, 'ct, 'pk) gpu_openfhe \<Rightarrow> ('g, 'cc, 'ct, 'pk) gpu_workload registry \<Rightarrow>
    gpu_request \<Rightarrow> (('g, 'pk) gpu_globals, bytes option) prog" where
  "gpu_evaluate_request P D nv L reg rq =
     (case reg (rq_workload rq) of
        None \<Rightarrow> ret (Some (build_error_response (''unknown workload: '' @ rq_workload rq)))
      | Some eval \<Rightarrow>
          reply ''bad public key: '' (load_public_key L (rq_public_key rq)) (\<lambda>pk.
          reply ''bad eval key: '' (in_gpu_lib (gpu_load_eval_keys L (rq_keys rq))) (\<lambda>_.
          let cc = fl_pk_context L pk in
          reply ''bad ciphertext: ''
            (in_gpu_lib (load_inputs (openfhe.truncate L) (rq_cts rq))) (\<lambda>inputs.
          reply ''eval failed: '' (eval cc inputs) (\<lambda>output_ct.
          reply ''serialize failed: ''
            (lift_p (serialize_ciphertext (openfhe.truncate L) output_ct)) (\<lambda>output_str.
          ret (Some (gpu_evaluated_response P D nv rq (to_bytes output_str)))))))))"

definition gpu_handle_client :: "'h platform \<Rightarrow> durations \<Rightarrow> nvat \<Rightarrow>
    ('g, 'cc, 'ct, 'pk) gpu_openfhe \<Rightarrow> ('g, 'cc, 'ct, 'pk) gpu_workload registry \<Rightarrow>
    bytes result \<Rightarrow> (('g, 'pk) gpu_globals, bytes option) prog" where
  "gpu_handle_client P D nv L reg received =
     try_then (lift_p received) (\<lambda>_. None) (\<lambda>req.
     reply ''bad request: '' (lift_p (gpu_parse_request (pf_alloc P) req)) (\<lambda>rq.
     gpu_evaluate_request P D nv L reg rq))"

section \<open>What the handler answers\<close>

lemma in_gpu_lib_run [prog_simps]:
  "p (gg_lib s) = (r, g) \<Longrightarrow> in_gpu_lib p s = (r, s\<lparr>gg_lib := g\<rparr>)"
  by (simp add: in_gpu_lib_def on_field_def)

lemma load_public_key_stores:
  "load_public_key L blob s = (Inr pk, s') \<Longrightarrow> gg_client_pk s' = Some pk"
  by (auto simp: load_public_key_def set_client_public_key_def elim!: bind_p_cases)

lemma gpu_evaluate_request_answer:
  assumes "gpu_evaluate_request P D nv L reg rq s = (Inr (Some b), s')"
    and "\<not> is_error_response b"
  shows "\<exists>eval pk out. reg (rq_workload rq) = Some eval \<and>
    b = gpu_evaluated_response P D nv rq out"
proof (cases "reg (rq_workload rq)")
  case None
  with assms show ?thesis by (auto simp: gpu_evaluate_request_def)
next
  case (Some eval)
  from assms show ?thesis
    unfolding gpu_evaluate_request_def Some option.simps Let_def
    by (elim reply_cases; auto simp: Some)
qed

text \<open>Without an unguarded \<open>make_context\<close>, no exception leaves this handler.\<close>

lemma gpu_handle_client_never_throws:
  "never (gpu_handle_client P D nv L reg received) is_throw"
proof -
  have "never (gpu_evaluate_request P D nv L reg rq) is_throw" for rq
    by (cases "reg (rq_workload rq)")
      (auto simp: gpu_evaluate_request_def Let_def intro!: never_reply)
  then show ?thesis
    unfolding gpu_handle_client_def
    by (intro never_try_then [where Q = "\<lambda>_. False"] never_reply)
      (auto simp: never_def [of "lift_p received"])
qed

definition gpu_server_transcript :: "'h platform \<Rightarrow> durations \<Rightarrow> gpu_request \<Rightarrow> bytes \<Rightarrow>
    transcript" where
  "gpu_server_transcript P D rq out =
     (generate_transcript (pf_b3 P) (rq_nonce rq) (rq_keys rq) (rq_cts rq) out)
       \<lparr>tr_fhe_eval_us := micros (du_eval D), tr_transcript_us := micros (du_transcript D),
        tr_quote_us := micros (du_quote D)\<rparr>"

lemma gpu_evaluated_response_eq:
  "gpu_evaluated_response P D nv rq out = gpu_build_response
     \<lparr>rs_output = out, rs_transcript = to_json (pf_json P) (gpu_server_transcript P D rq out),
      rs_quote = gpu_quote P
        (compute_transcript_hash (pf_b3 P) (pf_json P) (gpu_server_transcript P D rq out))
        (gpu_evidence_bytes nv (rq_nonce rq)),
      rs_gpu_evidence = gpu_evidence_bytes nv (rq_nonce rq)\<rparr>"
  by (simp add: gpu_evaluated_response_def gpu_server_transcript_def compute_transcript_hash_def
      Let_def)

lemma evidence_gpu_server_transcript [simp]:
  "evidence (gpu_server_transcript P D rq out) = request_evidence (pf_b3 P) rq out"
  by (simp add: evidence_def gpu_server_transcript_def generate_transcript_def
      request_evidence_def)

lemma wf_gpu_server_transcript [simp]:
  "b3_sized (pf_b3 P) \<Longrightarrow> wf_transcript (gpu_server_transcript P D rq out)"
  using wf_generate_transcript [of "pf_b3 P"]
  by (simp add: gpu_server_transcript_def wf_transcript_def)

text \<open>Collected evidence carries the client's nonce and passes the client's check.\<close>

lemma gpu_evidence_bytes_ok:
  assumes "gpu_evidence_bytes nv nonce \<noteq> []" and "length (nv_json nv) < 2 ^ 32"
  shows "\<exists>pkg. evidence_deserialize (gpu_evidence_bytes nv nonce) = Inr pkg \<and>
    ev_nonce pkg = nonce_array nonce \<and> evidence_json pkg = nv_json nv"
proof -
  obtain ok i ops where a: "adapter_init nv False = (ok, i, ops)"
    by (cases "adapter_init nv False") auto
  with assms(1) obtain pkg ops' where c: "collect_evidence nv i (nonce_array nonce) = (Inr pkg, ops')"
    and e: "gpu_evidence_bytes nv nonce = evidence_serialize pkg"
    by (cases "collect_evidence nv i (nonce_array nonce)")
      (auto simp: gpu_evidence_bytes_def split: if_splits sum.splits)
  from collect_evidence_result [OF c] have p: "ev_nonce pkg = nonce_array nonce"
    "evidence_json pkg = nv_json nv" "detached_eat pkg = []" "claims_json pkg = []" by auto
  then have "wf_package pkg"
    using assms(2) by (simp add: wf_package_def)
  from evidence_round_trip_tail [OF this, of "[]"] e p show ?thesis by auto
qed

end
