(* ===== verification/Client_Gpu.thy ===== *)
theory Client_Gpu
  imports Server_Gpu Client_Tee
begin

text \<open>
  The client of \<open>gpucc-vfhe\<close>: it asks for the heterogeneous check when the response carries GPU
  evidence, and falls back to the check of \<open>tee-vfhe\<close> when it does not.
\<close>

text \<open>Both blobs are sent, whatever the serializers returned.\<close>

definition gpu_serialize_eval_keys :: "bool \<times> string \<Rightarrow> bool \<times> string \<Rightarrow> bytes list" where
  "gpu_serialize_eval_keys mk ak = map (\<lambda>r. to_bytes (snd r)) [mk, ak]"

definition gpu_check_response :: "'h blake3 \<Rightarrow> verifier_env \<Rightarrow> string \<Rightarrow> gpu_request \<Rightarrow> bytes \<Rightarrow>
    bytes option result" where
  "gpu_check_response b3 E mr_td rq resp =
     (if resp = [] then Inr None
      else bind_r (gpu_parse_response resp) (\<lambda>p.
        if contains_text error_mark (rs_transcript p) then Inr None
        else bind_r (from_json (ve_json E) (rs_transcript p)) (\<lambda>t.
          let ek = hash_concatenated b3 (rq_keys rq);
              ins = map (blake3_hash b3) (rq_cts rq);
              out = blake3_hash b3 (rs_output p)
          in if rs_gpu_evidence p \<noteq> []
             then bind_r (verify_heterogeneous b3 E (rs_quote p) (rs_gpu_evidence p) t (rq_nonce rq)
                 mr_td ek ins out) (\<lambda>ok.
               if \<not> ok then Inr None else Inr (Some (rs_output p)))
             else if \<not> verify_transcript t (rq_nonce rq) ek ins out then Inr None
             else bind_r (verify_all b3 E (rs_quote p) t (rq_nonce rq) mr_td ek ins out) (\<lambda>ok.
               if \<not> ok then Inr None else Inr (Some (rs_output p))))))"

text \<open>The digest that the client expects the quote to sign.\<close>

definition expected_digest :: "'h blake3 \<Rightarrow> json_lib \<Rightarrow> transcript \<Rightarrow> bytes \<Rightarrow> hash32" where
  "expected_digest b3 J t ev =
     (if ev \<noteq> []
      then compute_heterogeneous_binding_digest b3 (compute_transcript_hash b3 J t)
        (compute_gpu_evidence_digest b3 ev)
      else compute_transcript_hash b3 J t)"

lemma gpu_check_response_accepts:
  "gpu_check_response b3 E mr rq resp = Inr (Some out) \<longleftrightarrow>
    (\<exists>p t. resp \<noteq> [] \<and> gpu_parse_response resp = Inr p \<and> rs_output p = out \<and>
      \<not> contains_text error_mark (rs_transcript p) \<and>
      from_json (ve_json E) (rs_transcript p) = Inr t \<and>
      evidence t = request_evidence b3 rq out \<and>
      (rs_gpu_evidence p \<noteq> [] \<longrightarrow>
        verify_gpu_evidence (rs_gpu_evidence p) (rq_nonce rq) = Inr True) \<and>
      attests E (rs_quote p) (expected_report_data_hex
        (expected_digest b3 (ve_json E) t (rs_gpu_evidence p))) mr)"
  by (auto simp: gpu_check_response_def Let_def verify_transcript_iff verify_all_True
      verify_heterogeneous_True request_evidence_def expected_digest_def split: if_splits)

lemma is_hash32_expected_digest [simp]:
  "b3_sized b3 \<Longrightarrow> is_hash32 (expected_digest b3 J t ev)"
  by (simp add: expected_digest_def)

text \<open>
  What an honest server sends is accepted: with GPU evidence through the heterogeneous check,
  without through the plain one.
\<close>

lemma gpu_quote_digest:
  "gpu_quote P (compute_transcript_hash (pf_b3 P) (pf_json P) t) ev =
    quote_or_empty (case pf_tdx P (report_data (expected_digest (pf_b3 P) (pf_json P) t ev)) of
      Inl rc \<Rightarrow> Inl (Throw (Runtime_error [])) | Inr q \<Rightarrow> Inr q)"
  by (simp add: gpu_quote_def expected_digest_def generate_tdx_quote_def
      generate_tdx_quote_heterogeneous_def quote_or_empty_def Let_def split: sum.splits)

lemma gpu_honest_response_accepted:
  assumes js: "json_session (pf_json P) (transcript_members (gpu_server_transcript P D rq out))"
    and sized: "b3_sized (pf_b3 P)" and E: "ve_json E = pf_json P"
    and nv: "0 < length (nv_json nv)" "length (nv_json nv) < 2 ^ 32"
    and quote: "quote_works (pf_tdx P) E mr (expected_digest (pf_b3 P) (pf_json P)
      (gpu_server_transcript P D rq out) (gpu_evidence_bytes nv (rq_nonce rq)))"
    and len: "length (gpu_evaluated_response P D nv rq out) < 2 ^ 64"
  shows "gpu_check_response (pf_b3 P) E mr rq (gpu_evaluated_response P D nv rq out) =
    Inr (Some out)"
proof -
  let ?t = "gpu_server_transcript P D rq out"
  let ?ev = "gpu_evidence_bytes nv (rq_nonce rq)"
  let ?d = "expected_digest (pf_b3 P) (pf_json P) ?t ?ev"
  from quote obtain q where q: "generate_tdx_quote (pf_tdx P) ?d = Inr q"
    and att: "attests E q (to_hex (rev (report_data ?d))) mr" by (rule quote_worksE)
  then have "pf_tdx P (report_data ?d) = Inr q"
    by (auto simp: generate_tdx_quote_def split: sum.splits)
  then have g: "gpu_quote P (compute_transcript_hash (pf_b3 P) (pf_json P) ?t) ?ev = q"
    by (simp add: gpu_quote_digest quote_or_empty_def)
  let ?p = "\<lparr>rs_output = out, rs_transcript = to_json (pf_json P) ?t, rs_quote = q,
    rs_gpu_evidence = ?ev\<rparr>"
  have r: "gpu_evaluated_response P D nv rq out = gpu_build_response ?p"
    by (simp add: gpu_evaluated_response_eq g)
  have p: "gpu_parse_response (gpu_evaluated_response P D nv rq out) = Inr ?p"
    using gpu_response.parse_build [of ?p] len by (simp add: r)
  have "8 \<le> length (gpu_evaluated_response P D nv rq out)"
    by (simp add: r build_bytes)
  then have ne: "gpu_evaluated_response P D nv rq out \<noteq> []" by auto
  have j: "from_json (ve_json E) (to_json (pf_json P) ?t) = Inr ?t"
    using from_json_to_json [of "pf_json P" ?t] js sized by (simp add: E json_session_def)
  have v: "?ev \<noteq> [] \<Longrightarrow> verify_gpu_evidence ?ev (rq_nonce rq) = Inr True"
    using gpu_evidence_bytes_ok [OF _ nv(2)] nv(1) by (force simp: verify_gpu_evidence_True)
  have "attests E q (expected_report_data_hex ?d) mr"
    using att sized by (simp add: expected_report_data_hex_rev)
  then show ?thesis
    unfolding gpu_check_response_accepts
    by (intro exI [of _ ?p] exI [of _ ?t])
      (use p ne j js v in \<open>simp add: E json_session_def to_json_def\<close>)
qed

text \<open>
  The fallback: evidence that is dropped on the way is not missed, as long as the quote vouches
  for the transcript alone.
\<close>

lemma gpu_downgrade:
  assumes len: "length (gpu_build_response p) < 2 ^ 64" and none: "rs_gpu_evidence p = []"
  shows "gpu_check_response b3 E mr rq (gpu_build_response p) = Inr (Some (rs_output p)) \<longleftrightarrow>
    check_response b3 E mr (request.truncate rq) (build_response (response.truncate p)) =
      Inr (Some (rs_output p))"
proof -
  have l: "length (build_response (response.truncate p)) < 2 ^ 64"
    using len by (simp add: build_bytes response.truncate_def)
  have ne: "gpu_build_response p \<noteq> []" "build_response (response.truncate p) \<noteq> []"
    by (auto simp: build_bytes blob_bytes_def dest!: arg_cong [of _ "[]" length])
  have "request_evidence b3 (request.truncate rq) out = request_evidence b3 rq out" for out
    by (simp add: request_evidence_def request.truncate_def)
  then show ?thesis
    using gpu_response.parse_build [OF TrueI len] tee_response.parse_build [OF TrueI l] none ne
    by (simp add: gpu_check_response_accepts check_response_accepts expected_digest_def
        response.truncate_def)
qed

end
