(* ===== verification/Examples.thy ===== *)
theory Examples
  imports Client_Zk Client_Gpu
begin

text \<open>
  Concrete instances of the parameters for the witnesses of the properties: a padding function in
  place of BLAKE3, a table of JSON documents, a TDX device whose quote is its report data, a DCAP
  library that reports it back, and an OpenFHE whose ciphertexts are their bytes.
\<close>

section \<open>Digest, documents, quote\<close>

definition ex_b3 :: "bytes blake3" where
  "ex_b3 = \<lparr>b3_init = [], b3_update = (\<lambda>h d. h @ d),
     b3_finalize = (\<lambda>h. take 32 (h @ replicate 32 0))\<rparr>"

lemma ex_b3_sized [simp]: "b3_sized ex_b3"
  by (simp add: b3_sized_def ex_b3_def is_hash32_def min_def)

definition ex_request :: request where
  "ex_request = \<lparr>rq_nonce = [1, 2], rq_keys = [[3]], rq_cts = [[4], [5, 6]],
     rq_workload = ''toy''\<rparr>"

definition ex_output :: bytes where
  "ex_output = [7, 8]"

definition ex_durations :: durations where
  "ex_durations = \<lparr>du_ctx = 1, du_eval = 2, du_outser = 3, du_transcript = 4, du_quote = 5\<rparr>"

definition ex_transcript :: transcript where
  "ex_transcript =
     (generate_transcript ex_b3 (rq_nonce ex_request) (rq_keys ex_request) (rq_cts ex_request)
        ex_output)
     \<lparr>tr_fhe_eval_us := micros 2, tr_transcript_us := micros 4, tr_quote_us := micros 5\<rparr>"

definition ex_bgv_transcript :: bgv_transcript where
  "ex_bgv_transcript =
     (bgv_generate_transcript ex_b3 (rq_nonce ex_request) (rq_keys ex_request) (rq_cts ex_request)
        ex_output)
     \<lparr>tr_fhe_eval_us := micros 2, tr_transcript_us := micros 4, tr_quote_us := micros 5,
      tr_ctx_us := micros 1, tr_outser_us := micros 3\<rparr>"

definition ex_digest :: hash32 where
  "ex_digest = take 32 (to_bytes ''untimed'' @ replicate 32 0)"

definition ex_measurement :: "hash32 \<Rightarrow> json" where
  "ex_measurement h = JObj [(''tdx_mrtd'', JStr ''AB''),
     (''tdx_reportdata'', JStr (to_hex (rev (report_data h))))]"

text \<open>The documents of one session; \<open>h\<close> is the digest that the report contains.\<close>

definition ex_documents :: "hash32 \<Rightarrow> (string \<times> json) list" where
  "ex_documents h =
     [(''timed'', JObj (transcript_members ex_transcript)),
      (''untimed'', JObj (transcript_members (untimed ex_transcript))),
      (''bgv timed'', JObj (bgv_transcript_members ex_bgv_transcript)),
      (''bgv untimed'', JObj (bgv_transcript_members (bgv_untimed ex_bgv_transcript))),
      (''P'', JObj [(''appraisal_result'', JStr ''A'')]),
      (''A'', JArr [JObj [(''result'', JObj [(''appraised_reports'', JArr
         [JObj [(''other'', JNull)],
          JObj [(''report'', JObj [(''measurement'', ex_measurement h)])]])])]])]"

definition ex_json :: "hash32 \<Rightarrow> json_lib" where
  "ex_json h = json_table (ex_documents h)"

definition ex_dcap :: dcap where
  "ex_dcap = \<lparr>dc_verify = Inr, dc_policy = Some [1],
     dc_appraise = (\<lambda>_ _ _. Inr (to_bytes ''h.PPPP.s'')), dc_now = 0\<rparr>"

definition ex_verifier :: "hash32 \<Rightarrow> verifier_env" where
  "ex_verifier h = \<lparr>ve_dcap = ex_dcap, ve_evp = (\<lambda>_. Some (to_bytes ''P'')), ve_json = ex_json h\<rparr>"

definition ex_platform :: "hash32 \<Rightarrow> bytes platform" where
  "ex_platform h = \<lparr>pf_b3 = ex_b3, pf_json = ex_json h, pf_tdx = Inr, pf_alloc = (\<lambda>n. n < 1000)\<rparr>"

lemma ex_sel [simp]:
  "pf_b3 (ex_platform h) = ex_b3" "pf_json (ex_platform h) = ex_json h"
  "pf_tdx (ex_platform h) = Inr" "pf_alloc (ex_platform h) = (\<lambda>n. n < 1000)"
  "ve_json (ex_verifier h) = ex_json h"
  by (simp_all add: ex_platform_def ex_verifier_def)

lemma ex_members [simp]: "json_members (ex_json h)"
  by (simp add: ex_json_def json_members_table)

lemma ex_server_transcript [simp]:
  "server_transcript (ex_platform h) ex_durations ex_request ex_output = ex_transcript"
  "bgv_server_transcript (ex_platform h) ex_durations ex_request ex_output = ex_bgv_transcript"
  by (simp_all add: server_transcript_def bgv_server_transcript_def ex_transcript_def
      ex_bgv_transcript_def ex_durations_def)

lemma ex_dump [simp]:
  "to_json (ex_json h) ex_transcript = ''timed''"
  "to_json (ex_json h) (untimed ex_transcript) = ''untimed''"
  "bgv_to_json (ex_json h) ex_bgv_transcript = ''bgv timed''"
  "bgv_to_json (ex_json h) (bgv_untimed ex_bgv_transcript) = ''bgv untimed''"
proof -
  have "transcript_members ex_transcript \<noteq> transcript_members (untimed ex_transcript)"
    "transcript_members ex_transcript \<noteq> bgv_transcript_members u"
    "transcript_members (untimed ex_transcript) \<noteq> bgv_transcript_members u"
    "bgv_transcript_members ex_bgv_transcript \<noteq>
      bgv_transcript_members (bgv_untimed ex_bgv_transcript)" for u
    by (simp_all add: transcript_members_def bgv_transcript_members_def evidence_members_def
        untimed_def bgv_untimed_def ex_transcript_def ex_bgv_transcript_def micros_def)
  then show "to_json (ex_json h) ex_transcript = ''timed''"
    "to_json (ex_json h) (untimed ex_transcript) = ''untimed''"
    "bgv_to_json (ex_json h) ex_bgv_transcript = ''bgv timed''"
    "bgv_to_json (ex_json h) (bgv_untimed ex_bgv_transcript) = ''bgv untimed''"
    by (simp_all add: to_json_def bgv_to_json_def ex_json_def json_table_def ex_documents_def)
qed

lemma ex_parse [simp]:
  "js_parse (ex_json h) ''timed'' = Inr (JObj (transcript_members ex_transcript))"
  "js_parse (ex_json h) ''untimed'' = Inr (JObj (transcript_members (untimed ex_transcript)))"
  "js_parse (ex_json h) ''bgv timed'' = Inr (JObj (bgv_transcript_members ex_bgv_transcript))"
  "js_parse (ex_json h) ''bgv untimed'' =
    Inr (JObj (bgv_transcript_members (bgv_untimed ex_bgv_transcript)))"
  by (simp_all add: ex_json_def json_table_def ex_documents_def)

lemma ex_text [simp]:
  "json_text (ex_json h) (transcript_members ex_transcript)"
  "json_text (ex_json h) (transcript_members (untimed ex_transcript))"
  "json_text (ex_json h) (bgv_transcript_members ex_bgv_transcript)"
  "json_text (ex_json h) (bgv_transcript_members (bgv_untimed ex_bgv_transcript))"
  using ex_dump [of h] by (simp_all add: json_text_def to_json_def bgv_to_json_def)

lemma ex_wf [simp]: "wf_transcript ex_transcript" "wf_transcript ex_bgv_transcript"
  using wf_server_transcript [of "ex_platform []" ex_durations ex_request ex_output] by simp_all

lemma ex_readable [simp]:
  "readable ex_b3 (ex_json h) ex_transcript" "bgv_readable ex_b3 (ex_json h) ex_bgv_transcript"
  by (simp_all add: readable_def bgv_readable_def)

lemma ex_quote_measurement:
  "length q < 2 ^ 32 \<Longrightarrow> quote_measurement (ex_verifier h) q = Inr (Some (ex_measurement h))"
  by (simp add: quote_measurement_def ex_verifier_def ex_dcap_def jwt_payload_def to_bytes_def
      to_string_def base64url_decode_def b64_decode_def b64_pad_def ex_json_def json_table_def
      ex_documents_def ex_measurement_def Let_def b64url_char_def)

lemma ex_attests:
  assumes "length q < 2 ^ 32" and "is_hash32 h"
  shows "attests (ex_verifier h) q (to_hex (rev (report_data h))) ''ab''"
proof -
  have "js_value_str (ex_json h) (ex_measurement h) ''tdx_reportdata'' [] =
      Inr (to_hex (rev (report_data h)))"
    "js_value_str (ex_json h) (ex_measurement h) ''tdx_mrtd'' [] = Inr ''AB''"
    by (simp_all add: ex_json_def json_table_def ex_measurement_def)
  moreover have "length (to_hex (rev (report_data h))) = 128"
    using assms(2) by simp
  then have "to_hex (rev (report_data h)) \<noteq> []"
    by (metis list.size(3) zero_neq_numeral)
  moreover have "to_lower ''AB'' = to_lower ''ab''"
    by code_simp
  ultimately show ?thesis
    unfolding attests_def using ex_quote_measurement [OF assms(1)] by auto
qed

lemma ex_digest_eq [simp]:
  "compute_transcript_hash ex_b3 (ex_json h) ex_transcript = ex_digest"
  by (simp add: compute_transcript_hash_untimed ex_digest_def ex_b3_def blake3_hash_def Let_def
      to_bytes_def)

lemma ex_digest_hash32 [simp]: "is_hash32 ex_digest"
  by (simp add: ex_digest_def is_hash32_def)

lemma ex_bgv_digest_eq [simp]:
  "bgv_compute_transcript_hash ex_b3 (ex_json h) ex_bgv_transcript =
    take 32 (to_bytes ''bgv untimed'' @ replicate 32 0)"
  by (simp add: compute_transcript_hash_untimed ex_b3_def blake3_hash_def Let_def to_bytes_def)

lemma ex_session [simp]:
  "json_session (ex_json h) (transcript_members ex_transcript)"
  "json_session (ex_json h) (bgv_transcript_members ex_bgv_transcript)"
proof -
  have "\<not> contains_text error_mark ''timed''" "\<not> contains_text error_mark ''bgv timed''"
    by code_simp+
  then show "json_session (ex_json h) (transcript_members ex_transcript)"
    "json_session (ex_json h) (bgv_transcript_members ex_bgv_transcript)"
    using ex_dump [of h] by (simp_all add: json_session_def to_json_def bgv_to_json_def)
qed

lemma ex_quote_works: "is_hash32 h \<Longrightarrow> quote_works Inr (ex_verifier h) ''ab'' h"
  unfolding quote_works_def
  by (rule exI [of _ "report_data h"]) (simp add: generate_tdx_quote_def ex_attests)

section \<open>An OpenFHE for examples\<close>

text \<open>Ciphertexts are texts; the global state collects the keys that were loaded.\<close>

definition ex_openfhe :: "(string list, string) openfhe" where
  "ex_openfhe = \<lparr>
     fl_deserialize_mult = (\<lambda>s g. (throw (Lib_error ''mult''), g)),
     fl_deserialize_sum = (\<lambda>s g. (throw (Lib_error ''sum''), g)),
     fl_deserialize_auto = (\<lambda>s g. (Inr True, s # g)),
     fl_deserialize_ct = (\<lambda>s g. (Inr s, g)),
     fl_serialize_ct = Inr\<rparr>"

definition ex_workload :: "(string list, unit, string) workload" where
  "ex_workload = \<lparr>wl_make_context = ret (),
     wl_eval = (\<lambda>_ ins g. if length ins = 2 then (Inr (to_string ex_output), g)
       else (throw (Invalid_argument ''two inputs''), g))\<rparr>"

definition ex_registry :: "(string list, unit, string) workload registry" where
  "ex_registry = register ''toy'' ex_workload Map.empty"

lemma ex_evaluates:
  "evaluates load_eval_keys ex_openfhe ex_registry ex_request [] (to_string ex_output)
    [to_string [3]]"
  "evaluates bgv_load_eval_keys ex_openfhe ex_registry ex_request [] (to_string ex_output)
    [to_string [3]]"
proof -
  have k: "load_eval_keys ex_openfhe [[3]] [] = (Inr [()], [to_string [3]])"
    "bgv_load_eval_keys ex_openfhe [[3]] [] = (Inr [()], [to_string [3]])"
    by (simp_all add: load_eval_keys_def bgv_load_eval_keys_def load_eval_key_def ex_openfhe_def
        Let_def try_p_def bind_p_def)
  have i: "load_inputs ex_openfhe [[4], [5, 6]] g = (Inr [to_string [4], to_string [5, 6]], g)" for g
    by (simp add: load_inputs_def deserialize_ciphertext_def ex_openfhe_def bind_p_def)
  show "evaluates load_eval_keys ex_openfhe ex_registry ex_request [] (to_string ex_output)
    [to_string [3]]" "evaluates bgv_load_eval_keys ex_openfhe ex_registry ex_request []
      (to_string ex_output) [to_string [3]]"
    unfolding evaluates_def
    by (rule exI [of _ ex_workload],
        simp add: ex_request_def k i ex_registry_def register_def ex_workload_def
          serialize_ciphertext_def, simp add: ex_openfhe_def)+
qed

lemma ex_lengths [simp]: "length ex_output = 2" "length ex_digest = 32"
  by (simp_all add: ex_output_def ex_digest_def)

lemma ex_sizes:
  "request_ok (\<lambda>n. n < 1000) ex_request" "length (build_request ex_request) < 2 ^ 64"
  "length (evaluated_response (ex_platform h) ex_durations ex_request ex_output) < 2 ^ 64"
  "length (bgv_evaluated_response (ex_platform h) ex_durations ex_request ex_output) < 2 ^ 64"
proof -
  show "request_ok (\<lambda>n. n < 1000) ex_request" "length (build_request ex_request) < 2 ^ 64"
    by (simp_all add: request_ok_def counted_ok_def ex_request_def build_bytes counted_bytes_def
        string_bytes_def)
  show "length (evaluated_response (ex_platform h) ex_durations ex_request ex_output) < 2 ^ 64"
    "length (bgv_evaluated_response (ex_platform h) ex_durations ex_request ex_output) < 2 ^ 64"
    by (simp_all add: evaluated_response_eq generate_tdx_quote_def quote_or_empty_def build_bytes
        string_bytes_def report_data_def)
qed

lemma ex_accepted:
  "check_response ex_b3 (ex_verifier ex_digest) ''ab'' ex_request
    (evaluated_response (ex_platform ex_digest) ex_durations ex_request ex_output) =
      Inr (Some ex_output)"
  using honest_response_accepted [of "ex_platform ex_digest" ex_durations ex_request ex_output
    "ex_verifier ex_digest" "''ab''"] ex_sizes(3) ex_quote_works by simp

lemma ex_binding [simp]: "compute_heterogeneous_binding_digest ex_b3 ex_digest d = ex_digest"
  by (simp add: compute_heterogeneous_binding_digest_def blake3_hash_def ex_b3_def Let_def)

end
