(* ===== verification/Properties_Session.thy ===== *)
theory Properties_Session
  imports Examples
begin

text \<open>
  The properties of whole sessions: an honest run of each prototype is accepted, what acceptance
  says about the evaluation behind a response, and what it leaves open.
\<close>

section \<open>tee-vfhe and tee-vfhe-bgvrns\<close>

text \<open>C5: An honest session of \<open>tee-vfhe\<close> completes: the server parses the client's bytes, loads
  keys and inputs, evaluates, and the client accepts the response and goes on to decrypt exactly
  the bytes of the serialized output.\<close>

theorem tee_session_completes:
  assumes "request_ok (pf_alloc P) rq" and "length (build_request rq) < 2 ^ 64"
    and "evaluates load_eval_keys L reg rq g s g'"
    and "json_session (pf_json P) (transcript_members (server_transcript P D rq (to_bytes s)))"
    and "b3_sized (pf_b3 P)" and "ve_json E = pf_json P"
    and "quote_works (pf_tdx P) E mr (compute_transcript_hash (pf_b3 P) (pf_json P)
      (server_transcript P D rq (to_bytes s)))"
    and "length (evaluated_response P D rq (to_bytes s)) < 2 ^ 64"
  shows "\<exists>resp. handle_client P D L reg (Inr (build_request rq)) g = (Inr (Some resp), g') \<and>
    check_response (pf_b3 P) E mr rq resp = Inr (Some (to_bytes s))"
proof -
  have "parse_request (pf_alloc P) (build_request rq) = Inr rq"
    by (rule tee_request.parse_build [OF assms(1,2)])
  then have "handle_client P D L reg (Inr (build_request rq)) g =
      (Inr (Some (evaluated_response P D rq (to_bytes s))), g')"
    using evaluate_request_ok [OF assms(3)]
    by (simp add: handle_client_def try_then_def reply_def)
  then show ?thesis
    using honest_response_accepted [OF assms(4-8)] by blast
qed

theorem tee_session_completes_witness:
  "\<exists>resp. handle_client (ex_platform ex_digest) ex_durations ex_openfhe ex_registry
      (Inr (build_request ex_request)) [] = (Inr (Some resp), [to_string [3]]) \<and>
    check_response ex_b3 (ex_verifier ex_digest) ''ab'' ex_request resp = Inr (Some ex_output)"
  using tee_session_completes [of "ex_platform ex_digest" ex_request, OF _ _ ex_evaluates(1),
      of ex_durations "ex_verifier ex_digest" "''ab''"] ex_sizes ex_quote_works
  by simp

text \<open>C25: The same for \<open>tee-vfhe-bgvrns\<close>, whose server skips empty key blobs and whose
  transcript carries two more durations.\<close>

theorem bgv_session_completes:
  assumes "request_ok (pf_alloc P) rq" and "length (build_request rq) < 2 ^ 64"
    and "evaluates bgv_load_eval_keys L reg rq g s g'"
    and "json_session (pf_json P)
      (bgv_transcript_members (bgv_server_transcript P D rq (to_bytes s)))"
    and "b3_sized (pf_b3 P)" and "ve_json E = pf_json P"
    and "quote_works (pf_tdx P) E mr (bgv_compute_transcript_hash (pf_b3 P) (pf_json P)
      (bgv_server_transcript P D rq (to_bytes s)))"
    and "length (bgv_evaluated_response P D rq (to_bytes s)) < 2 ^ 64"
  shows "\<exists>resp. bgv_handle_client P D L reg (Inr (build_request rq)) g = (Inr (Some resp), g') \<and>
    bgv_check_response (pf_b3 P) E mr rq resp = Inr (Some (to_bytes s))"
proof -
  have "parse_request (pf_alloc P) (build_request rq) = Inr rq"
    by (rule tee_request.parse_build [OF assms(1,2)])
  then have "bgv_handle_client P D L reg (Inr (build_request rq)) g =
      (Inr (Some (bgv_evaluated_response P D rq (to_bytes s))), g')"
    using evaluate_request_ok [OF assms(3)]
    by (simp add: bgv_handle_client_def try_then_def reply_def)
  then show ?thesis
    using bgv_honest_response_accepted [OF assms(4-8)] by blast
qed

definition ex_bgv_digest :: hash32 where
  "ex_bgv_digest = take 32 (to_bytes ''bgv untimed'' @ replicate 32 0)"

theorem bgv_session_completes_witness:
  "\<exists>resp. bgv_handle_client (ex_platform ex_bgv_digest) ex_durations ex_openfhe ex_registry
      (Inr (build_request ex_request)) [] = (Inr (Some resp), [to_string [3]]) \<and>
    bgv_check_response ex_b3 (ex_verifier ex_bgv_digest) ''ab'' ex_request resp =
      Inr (Some ex_output)"
proof -
  have "is_hash32 ex_bgv_digest"
    by (simp add: ex_bgv_digest_def is_hash32_def)
  then show ?thesis
    using bgv_session_completes [of "ex_platform ex_bgv_digest" ex_request, OF _ _ ex_evaluates(2),
        of ex_durations "ex_verifier ex_bgv_digest" "''ab''"] ex_sizes ex_quote_works
    by (simp add: ex_bgv_digest_def)
qed

text \<open>C2: What the client of \<open>tee-vfhe\<close> decrypts is the output of the enclave's evaluation of
  its own request: if the quote of an accepted response was made for the transcript of some
  evaluation, then nonce, input ciphertexts, output and the concatenated keys of that evaluation
  are those of the client, as long as BLAKE3 does not collide on the texts at hand.\<close>

theorem accepted_output_is_the_enclaves:
  assumes "check_response (pf_b3 P) E mr rq resp = Inr (Some out)"
    and "parse_response resp = Inr p" and "from_json (pf_json P) (rs_transcript p) = Inr t"
    and "ve_json E = pf_json P" and "readable (pf_b3 P) (pf_json P) t"
    and "readable (pf_b3 P) (pf_json P) (server_transcript P D rq' out')"
    and "attests E (rs_quote p) (expected_report_data_hex (compute_transcript_hash (pf_b3 P)
      (pf_json P) (server_transcript P D rq' out'))) mr'"
    and "no_collision (pf_b3 P) (to_bytes (to_json (pf_json P) (untimed t)))
      (to_bytes (to_json (pf_json P) (untimed (server_transcript P D rq' out'))))"
    and "collision_free (pf_b3 P) (hashed_texts rq out @ hashed_texts rq' out')"
  shows "rq_nonce rq = rq_nonce rq' \<and> concat (rq_keys rq) = concat (rq_keys rq') \<and>
    rq_cts rq = rq_cts rq' \<and> out = out'"
  by (rule accepted_response_binds [OF assms])

definition ex_request_split :: request where
  "ex_request_split = ex_request\<lparr>rq_keys := [[3], []]\<rparr>"

lemma ex_split_transcript:
  "server_transcript (ex_platform h) ex_durations ex_request_split ex_output = ex_transcript"
  by (simp add: server_transcript_def ex_request_split_def ex_transcript_def ex_durations_def
      generate_transcript_def hash_concatenated_def ex_request_def)

theorem accepted_output_is_the_enclaves_witness:
  "rq_nonce ex_request = rq_nonce ex_request_split \<and>
    concat (rq_keys ex_request) = concat (rq_keys ex_request_split) \<and>
    rq_cts ex_request = rq_cts ex_request_split \<and> ex_output = ex_output"
proof -
  let ?P = "ex_platform ex_digest" and ?E = "ex_verifier ex_digest"
  let ?p = "\<lparr>rs_output = ex_output, rs_transcript = ''timed'', rs_quote = report_data ex_digest\<rparr>"
  let ?resp = "evaluated_response ?P ex_durations ex_request ex_output"
  have r: "?resp = build_response ?p"
    by (simp add: evaluated_response_eq generate_tdx_quote_def quote_or_empty_def)
  have p: "parse_response ?resp = Inr ?p"
    using tee_response.parse_build [of ?p] ex_sizes(3) [of ex_digest] by (simp add: r)
  have acc: "check_response (pf_b3 ?P) ?E ''ab'' ex_request ?resp = Inr (Some ex_output)"
    using ex_accepted by simp
  have t: "from_json (pf_json ?P) (rs_transcript ?p) = Inr ex_transcript"
    using from_json_to_json [of "ex_json ex_digest" ex_transcript] by simp
  have att: "attests ?E (rs_quote ?p) (expected_report_data_hex ex_digest) ''ab''"
    using ex_attests [of "report_data ex_digest" ex_digest]
    by (simp add: expected_report_data_hex_rev)
  have cf: "collision_free ex_b3
      (hashed_texts ex_request ex_output @ hashed_texts ex_request_split ex_output)"
    by code_simp
  show ?thesis
    by (rule accepted_output_is_the_enclaves [OF acc p t, of ex_durations ex_request_split
          ex_output "''ab''"])
      (use att cf in \<open>simp_all add: ex_split_transcript no_collision_def\<close>)
qed

section \<open>What a server answers\<close>





section \<open>Transcripts and digests\<close>

text \<open>C34: The JSON form of a transcript is faithful: reading back what was written gives the
  transcript, with all its digests and timings.\<close>

theorem transcript_round_trip:
  assumes "json_members J" and "json_text J (transcript_members t)" and "wf_transcript t"
  shows "from_json J (to_json J t) = Inr t"
  by (rule from_json_to_json [OF assms])

theorem transcript_round_trip_witness:
  "from_json (ex_json ex_digest) (to_json (ex_json ex_digest) ex_transcript) = Inr ex_transcript"
  by (rule transcript_round_trip) simp_all

text \<open>The same for the transcript of the ZK prototype, with its eight measurements.\<close>

theorem zk_transcript_round_trip:
  assumes "json_members J" and "json_text J (zk_transcript_members t)" and "wf_transcript t"
  shows "zk_from_json J (zk_to_json J t) = Inr t"
  by (rule zk_from_json_to_json [OF assms])

definition ex_zk_transcript :: zk_transcript where
  "ex_zk_transcript = (zk_build_transcript ex_b3 [1, 2] [] [[4]] [7])\<lparr>tr_proof_us := 12\<rparr>"

theorem zk_transcript_round_trip_witness:
  "zk_from_json (json_table [(''zk'', JObj (zk_transcript_members ex_zk_transcript))])
    (zk_to_json (json_table [(''zk'', JObj (zk_transcript_members ex_zk_transcript))])
      ex_zk_transcript) = Inr ex_zk_transcript"
  by (rule zk_transcript_round_trip)
    (simp_all add: json_members_table json_text_table wf_transcript_def ex_zk_transcript_def
      zk_build_transcript_def, simp add: is_hash32_def)

text \<open>C18: The signed digest depends on the evidence only, and determines it: two transcripts have
  the same digest exactly when nonce, key digest, input digests and output digest agree. Timings
  can be changed freely, nothing else can, unless BLAKE3 collides on the two texts.\<close>

theorem digest_determines_evidence:
  assumes "readable b3 J t" and "readable b3 J u"
    and "no_collision b3 (to_bytes (to_json J (untimed t))) (to_bytes (to_json J (untimed u)))"
  shows "compute_transcript_hash b3 J t = compute_transcript_hash b3 J u \<longleftrightarrow>
    evidence t = evidence u"
proof
  assume "evidence t = evidence u"
  then have "untimed t = untimed u"
    by (cases t, cases u) (simp add: evidence_def untimed_def)
  then show "compute_transcript_hash b3 J t = compute_transcript_hash b3 J u"
    by (simp add: compute_transcript_hash_untimed)
qed (rule tee_digest.hash_binds [OF assms])

theorem digest_determines_evidence_witness:
  "compute_transcript_hash ex_b3 (ex_json ex_digest) ex_transcript =
    compute_transcript_hash ex_b3 (ex_json ex_digest) (untimed ex_transcript)"
proof -
  have u: "untimed (untimed ex_transcript) = untimed ex_transcript"
    by (simp add: untimed_def)
  then have "readable ex_b3 (ex_json ex_digest) (untimed ex_transcript)"
    by (simp add: readable_def)
  from digest_determines_evidence [OF ex_readable(1) this] u show ?thesis
    by (simp add: no_collision_def)
qed

text \<open>The text that the verifier builds from a digest, with its loop over pairs of hex digits,
  is the hexadecimal form of the 64 bytes of report data that the server has signed, last byte
  first, which is how DCAP prints them.\<close>

theorem report_data_as_dcap_prints_it:
  assumes "is_hash32 h"
  shows "expected_report_data_hex h = to_hex (rev (report_data h))"
  by (rule expected_report_data_hex_rev [OF assms])

theorem report_data_as_dcap_prints_it_witness:
  "expected_report_data_hex ex_digest = to_hex (rev (report_data ex_digest))"
  by (rule report_data_as_dcap_prints_it) simp

section \<open>gpucc-vfhe\<close>

text \<open>C26: An honest evaluation of the GPU prototype is accepted, with GPU evidence (through the
  heterogeneous check) and without (through the plain one).\<close>

theorem gpu_honest_evaluation_accepted:
  assumes "json_session (pf_json P) (transcript_members (gpu_server_transcript P D rq out))"
    and "b3_sized (pf_b3 P)" and "ve_json E = pf_json P"
    and "0 < length (nv_json nv)" and "length (nv_json nv) < 2 ^ 32"
    and "quote_works (pf_tdx P) E mr (expected_digest (pf_b3 P) (pf_json P)
      (gpu_server_transcript P D rq out) (gpu_evidence_bytes nv (rq_nonce rq)))"
    and "length (gpu_evaluated_response P D nv rq out) < 2 ^ 64"
  shows "gpu_check_response (pf_b3 P) E mr rq (gpu_evaluated_response P D nv rq out) =
    Inr (Some out)"
  by (rule gpu_honest_response_accepted [OF assms])

definition ex_gpu_request :: gpu_request where
  "ex_gpu_request = request.extend ex_request \<lparr>rq_public_key = [9]\<rparr>"

definition ex_nvat :: nvat where
  "ex_nvat = \<lparr>nv_opts_create = None, nv_sdk_init = None, nv_nonce = None, nv_source = None,
     nv_collect = None, nv_ev_count = 1, nv_ev_array = True, nv_serialize = None,
     nv_json = [123, 125]\<rparr>"

lemma ex_nvat_json: "nv_json ex_nvat = [123, 125]"
  by (simp add: ex_nvat_def)

lemma ex_gpu_transcript [simp]:
  "gpu_server_transcript (ex_platform h) ex_durations ex_gpu_request ex_output = ex_transcript"
  by (simp add: gpu_server_transcript_def ex_gpu_request_def ex_transcript_def ex_durations_def
      request.extend_def)

lemma ex_gpu_evidence: "gpu_evidence_bytes ex_nvat (rq_nonce ex_gpu_request) =
    evidence_serialize \<lparr>evidence_json = [123, 125], detached_eat = [], claims_json = [],
      ev_nonce = nonce_array [1, 2]\<rparr>"
  by (simp add: gpu_evidence_bytes_def ex_nvat_def adapter_init_def collect_evidence_def Let_def
      ex_gpu_request_def request.extend_def ex_request_def)

lemma ex_gpu_digest [simp]:
  "expected_digest ex_b3 (ex_json h) ex_transcript (gpu_evidence_bytes ex_nvat (rq_nonce ex_gpu_request))
    = ex_digest"
proof -
  have "gpu_evidence_bytes ex_nvat (rq_nonce ex_gpu_request) \<noteq> []"
    by (simp add: ex_gpu_evidence evidence_serialize_def write_evidence_blob_def)
  then show ?thesis
    by (simp add: expected_digest_def)
qed

theorem gpu_honest_evaluation_accepted_witness:
  "gpu_check_response ex_b3 (ex_verifier ex_digest) ''ab'' ex_gpu_request
    (gpu_evaluated_response (ex_platform ex_digest) ex_durations ex_nvat ex_gpu_request
      ex_output) = Inr (Some ex_output)"
proof -
  have "length (gpu_quote (ex_platform ex_digest) ex_digest ev) = 64" for ev
    by (simp add: gpu_quote_def generate_tdx_quote_def generate_tdx_quote_heterogeneous_def
        quote_or_empty_def report_data_def Let_def)
  then have "length (gpu_evaluated_response (ex_platform ex_digest) ex_durations ex_nvat
      ex_gpu_request ex_output) < 2 ^ 64"
    by (simp add: gpu_evaluated_response_eq build_bytes string_bytes_def ex_gpu_evidence
        evidence_serialize_def write_evidence_blob_def)
  with gpu_honest_evaluation_accepted [of "ex_platform ex_digest" ex_durations ex_gpu_request
      ex_output "ex_verifier ex_digest" ex_nvat "''ab''"] show ?thesis
    using ex_quote_works [of ex_digest] by (simp add: ex_nvat_json)
qed

text \<open>C19: A quote that the heterogeneous check accepts binds the transcript and the GPU evidence
  together: the same quote is not accepted with another transcript digest or other evidence.\<close>

theorem heterogeneous_quote_binds:
  assumes "b3_sized b3" and "ev \<noteq> []" and "ev' \<noteq> []"
    and "attests E quote (expected_report_data_hex (expected_digest b3 J t ev)) mr"
    and "attests E quote (expected_report_data_hex (expected_digest b3 J t' ev')) mr'"
    and "no_collision b3 (compute_transcript_hash b3 J t @ compute_gpu_evidence_digest b3 ev)
      (compute_transcript_hash b3 J t' @ compute_gpu_evidence_digest b3 ev')"
    and "no_collision b3 ev ev'"
  shows "compute_transcript_hash b3 J t = compute_transcript_hash b3 J t' \<and> ev = ev'"
proof -
  have "expected_digest b3 J t ev = expected_digest b3 J t' ev'"
    using attests_report_data_unique [OF assms(4,5)] assms(1) by simp
  then have "compute_transcript_hash b3 J t = compute_transcript_hash b3 J t' \<and>
      compute_gpu_evidence_digest b3 ev = compute_gpu_evidence_digest b3 ev'"
    using assms(2,3) by (intro binding_digest_binds [OF assms(1) _ _ _ _ assms(6)])
      (simp_all add: assms(1) expected_digest_def)
  moreover from this have "ev = ev'"
    using assms(7) by (simp add: no_collision_def compute_gpu_evidence_digest_def assms(1))
  ultimately show ?thesis by blast
qed

theorem heterogeneous_quote_binds_witness:
  "compute_transcript_hash ex_b3 (ex_json ex_digest) ex_transcript =
      compute_transcript_hash ex_b3 (ex_json ex_digest) (untimed ex_transcript) \<and>
    [123, 125 :: byte] = [123, 125]"
proof -
  have u: "compute_transcript_hash ex_b3 (ex_json h) (untimed ex_transcript) =
      compute_transcript_hash ex_b3 (ex_json h) ex_transcript" for h
    by (simp add: compute_transcript_hash_def untimed_def)
  have d: "expected_digest ex_b3 (ex_json h) ex_transcript [123, 125] = ex_digest"
    "expected_digest ex_b3 (ex_json h) (untimed ex_transcript) [123, 125] = ex_digest" for h
    by (simp_all add: expected_digest_def u)
  show ?thesis
    by (rule heterogeneous_quote_binds [of ex_b3 _ _ "ex_verifier ex_digest" "[]" "ex_json ex_digest"
          _ "''ab''" _ "''ab''"])
      (use ex_attests [of "[]" ex_digest] in
        \<open>simp_all add: d u no_collision_def expected_report_data_hex_rev\<close>)
qed

text \<open>C30: A response without GPU evidence is checked exactly as in \<open>tee-vfhe\<close>: dropping the
  evidence and substituting a quote over the plain transcript digest is not noticed by the client
  of the GPU prototype.\<close>

theorem gpu_evidence_is_optional:
  assumes "length (gpu_build_response p) < 2 ^ 64" and "rs_gpu_evidence p = []"
  shows "gpu_check_response b3 E mr rq (gpu_build_response p) = Inr (Some (rs_output p)) \<longleftrightarrow>
    check_response b3 E mr (request.truncate rq) (build_response (response.truncate p)) =
      Inr (Some (rs_output p))"
  by (rule gpu_downgrade [OF assms])

theorem gpu_evidence_is_optional_witness:
  "gpu_check_response ex_b3 (ex_verifier ex_digest) ''ab'' ex_gpu_request (gpu_build_response
      \<lparr>rs_output = ex_output, rs_transcript = ''timed'', rs_quote = report_data ex_digest,
       rs_gpu_evidence = []\<rparr>) = Inr (Some ex_output)"
proof -
  let ?p = "\<lparr>rs_output = ex_output, rs_transcript = ''timed'', rs_quote = report_data ex_digest,
    rs_gpu_evidence = []\<rparr>"
  have "evaluated_response (ex_platform ex_digest) ex_durations ex_request ex_output =
      build_response (response.truncate ?p)"
    by (simp add: evaluated_response_eq generate_tdx_quote_def quote_or_empty_def
        response.truncate_def)
  moreover have "request.truncate ex_gpu_request = ex_request"
    by (simp add: ex_gpu_request_def request.extend_def request.truncate_def)
  moreover have "length (gpu_build_response ?p) < 2 ^ 64"
    by (simp add: build_bytes string_bytes_def report_data_def)
  ultimately show ?thesis
    using gpu_evidence_is_optional [of ?p ex_b3 "ex_verifier ex_digest" "''ab''" ex_gpu_request]
      ex_accepted by simp
qed

text \<open>C33: The byte format of the GPU evidence: \<open>deserialize\<close> accepts exactly the encodings of
  packages whose blobs fit 32-bit lengths, followed by bytes it does not look at, and returns the
  package that was encoded.\<close>

theorem gpu_evidence_format:
  "evidence_deserialize data = Inr p \<longleftrightarrow>
    wf_package p \<and> (\<exists>tail. data = evidence_serialize p @ tail)"
  using evidence_accepted evidence_round_trip_tail by blast



section \<open>zk-vfhe\<close>

text \<open>C17: The third pass of an honest server yields a proof that the client's verifier accepts
  with the key and the public inputs of the response, for every satisfied constraint system.\<close>

theorem zk_artifacts_are_accepted:
  assumes "third_pass V D ps s = (Inr a, s')" and "za_proof a \<noteq> []" and "za_vk a \<noteq> []"
    and "snark_complete (ze_snark V) (zl_cs (ze_zk V) ps) (zl_primary (ze_zk V) ps)
      (zl_auxiliary (ze_zk V) ps)"
    and "\<And>vk. zr_vk Z (zb_vk (ze_bytes V) vk) = Inr (Some vk)"
    and "\<And>pf. zr_proof Z (zb_proof (ze_bytes V) pf) = Inr (Some pf)"
    and "binary_mode (ze_field V) (zl_primary (ze_zk V) ps)"
    and "length (zl_primary (ze_zk V) ps) < 2 ^ 32"
  shows "zk_verify_proof (ze_snark V) Z (ze_field V) (za_proof a) (za_public_inputs a) (za_vk a) =
    Inr True"
  by (rule zk_artifacts_verify [OF assms])

text \<open>A proof system for examples: a proof is its witness, a constraint system a relation.\<close>

definition ex_snark :: "(unit, byte, byte, byte, byte list, byte, byte) snark" where
  "ex_snark = \<lparr>sn_generate = (\<lambda>_ cs. (cs, cs)), sn_prove = (\<lambda>_ pk x w. pk + sum_list x + w),
     sn_verify = (\<lambda>vk x p. p = 0), sn_satisfied = (\<lambda>cs x w. cs + sum_list x + w = 0),
     sn_pk0 = 0, sn_vk0 = 0\<rparr>"

definition ex_field :: "byte field_io" where
  "ex_field = \<lparr>fe_write = (\<lambda>x. x # replicate 31 0), fe_read = hd\<rparr>"

definition ex_zk_env :: "(unit, unit, byte, byte, byte, byte, byte, byte, byte) zk_env" where
  "ex_zk_env = \<lparr>
     ze_zk = \<lparr>zl_new = (\<lambda>_. 0), zl_set_mode = (\<lambda>m ps. case m of
         Constraint_generation \<Rightarrow> 3 | Witness_generation \<Rightarrow> ps),
       zl_cs = (\<lambda>ps. ps), zl_primary = (\<lambda>_. [1, 2]), zl_auxiliary = (\<lambda>_. 250),
       zl_num_constraints = unat\<rparr>,
     ze_snark = ex_snark, ze_bytes = \<lparr>zb_proof = (\<lambda>p. [p]), zb_vk = (\<lambda>v. [v])\<rparr>,
     ze_field = ex_field, ze_setup_rand = (), ze_prove_rand = ()\<rparr>"

definition ex_readers :: "(byte, byte) zk_readers" where
  "ex_readers = \<lparr>zr_vk = (\<lambda>b. Inr (Some (hd b))), zr_proof = (\<lambda>b. Inr (Some (hd b)))\<rparr>"

definition ex_zk_durations :: zk_durations where
  "ex_zk_durations = \<lparr>zd_load = 1, zd_eval = 1, zd_witness = 1, zd_proof = 1, zd_transcript = 1,
     zd_peak_mem = 1\<rparr>"

definition ex_zk_globals :: "(unit, byte, byte) zk_globals" where
  "ex_zk_globals = \<lparr>zg_lib = (), zg_keys = key_cache_init ex_snark\<rparr>"

theorem zk_artifacts_are_accepted_witness:
  "\<exists>a. third_pass ex_zk_env ex_zk_durations 3 ex_zk_globals = (Inr a, ex_zk_globals) \<and>
    zk_verify_proof ex_snark ex_readers ex_field (za_proof a) (za_public_inputs a) (za_vk a) =
      Inr True"
proof -
  obtain a where a: "third_pass ex_zk_env ex_zk_durations 3 ex_zk_globals = (Inr a, ex_zk_globals)"
    and n: "za_proof a \<noteq> []" "za_vk a \<noteq> []"
    by (simp add: third_pass_def ex_zk_env_def ex_snark_def Let_def bind_p_def in_keys_def
        on_field_def setup_keys_def prove_def clear_cached_keypair_def ex_zk_globals_def
        key_cache_init_def serialize_public_inputs_def)
  have "snark_complete ex_snark 3 [1, 2] 250"
    by (simp add: snark_complete_def ex_snark_def)
  moreover have "binary_mode ex_field [1, 2]"
    by (simp add: binary_mode_def ex_field_def elem_bytes_def)
  ultimately show ?thesis
    using zk_artifacts_are_accepted [OF a n, of ex_readers] a
    by (simp add: ex_zk_env_def ex_readers_def)
qed

text \<open>C27: The client of \<open>zk-vfhe\<close> decides about a response without looking at the ciphertext that
  it decrypts: with the proof, public inputs and key of any acceptable response, every other output
  and every other transcript that is not an error are accepted too.\<close>

theorem zk_acceptance_ignores_output:
  assumes "length (zk_build_response p) < 2 ^ 64"
    and "length (zk_build_response (p\<lparr>zs_output := out, zs_transcript := tj\<rparr>)) < 2 ^ 64"
    and "zk_check_response S Z F (zk_build_response p) = Inr (Some (zs_output p))"
    and "\<not> contains_text error_mark tj"
  shows "zk_check_response S Z F (zk_build_response (p\<lparr>zs_output := out, zs_transcript := tj\<rparr>)) =
    Inr (Some out)"
  using assms(3,4) by (simp add: zk_check_built [OF assms(1)] zk_check_built [OF assms(2)])

definition ex_zk_response :: zk_response where
  "ex_zk_response = \<lparr>zs_output = [1], zs_transcript = ''{}'', zs_proof = [],
     zs_public_inputs = [], zs_vk = []\<rparr>"

theorem zk_acceptance_ignores_output_witness:
  "zk_check_response ex_snark ex_readers ex_field
      (zk_build_response (ex_zk_response\<lparr>zs_output := [6, 6, 6], zs_transcript := []\<rparr>)) =
    Inr (Some [6, 6, 6])"
proof -
  have l: "length (zk_build_response ex_zk_response) < 2 ^ 64"
    "length (zk_build_response (ex_zk_response\<lparr>zs_output := [6, 6, 6], zs_transcript := []\<rparr>)) < 2 ^ 64"
    by (simp_all add: build_bytes ex_zk_response_def string_bytes_def)
  have m: "\<not> contains_text error_mark ''{}''" "\<not> contains_text error_mark []"
    by code_simp+
  have "zk_check_response ex_snark ex_readers ex_field (zk_build_response ex_zk_response) =
      Inr (Some (zs_output ex_zk_response))"
    using m(1) by (simp add: zk_check_built [OF l(1)]) (simp add: ex_zk_response_def)
  from zk_acceptance_ignores_output [OF l this m(2)] show ?thesis .
qed

text \<open>The public inputs of a proof survive their byte format.\<close>

theorem public_inputs_survive:
  assumes "binary_mode F xs" and "length xs < 2 ^ 32"
  shows "\<exists>bs. serialize_public_inputs F xs = Inr bs \<and> length bs = 4 + length xs * elem_bytes \<and>
    deserialize_public_inputs F bs = Inr xs"
  by (rule public_inputs_round_trip [OF assms])

theorem public_inputs_survive_witness:
  "\<exists>bs. serialize_public_inputs ex_field [7, 9] = Inr bs \<and> length bs = 4 + length [7, 9 :: byte] * elem_bytes \<and>
    deserialize_public_inputs ex_field bs = Inr [7, 9]"
  by (rule public_inputs_survive) (simp_all add: binary_mode_def ex_field_def elem_bytes_def)

text \<open>Whatever happens in the ZK phase of a request, no exception leaves it: the handler goes
  on to send the evaluated ciphertext, without proof.\<close>

theorem zk_phase_contains_its_exceptions:
  "case zk_phase V D L w cc cts s of (Inl (Throw e), _) \<Rightarrow> False | _ \<Rightarrow> True"
  using neverD [OF zk_phase_never_throws, of V D L w cc cts s]
  by (auto split: prod.splits sum.splits fault.splits)

end
