(* ===== verification/Slots.thy ===== *)
theory Slots
  imports Khipu_Prelude Complex_Main
begin

text \<open>
  Slot vectors: what a packed ciphertext carries. A vector is a list; \<open>slot v i\<close> reads it as the
  periodic function that rotations act on. The lemmas on sums over windows of slots are what the
  circuits of the workloads are built from.
\<close>

named_theorems slot_simps \<open>slots of vectors\<close>

definition slot :: "'a list \<Rightarrow> int \<Rightarrow> 'a" where
  "slot v i = v ! nat (i mod int (length v))"

definition rot :: "int \<Rightarrow> 'a list \<Rightarrow> 'a list" where
  "rot k v = map (\<lambda>i. slot v (int i + k)) [0..<length v]"

definition vadd :: "('a::plus) list \<Rightarrow> 'a list \<Rightarrow> 'a list" where
  "vadd v w = map2 (+) v w"

definition vsub :: "('a::minus) list \<Rightarrow> 'a list \<Rightarrow> 'a list" where
  "vsub v w = map2 (-) v w"

definition vmul :: "('a::times) list \<Rightarrow> 'a list \<Rightarrow> 'a list" where
  "vmul v w = map2 (*) v w"

lemma length_vops [simp]:
  "length (rot k v) = length v" "length (vadd a b) = min (length a) (length b)"
  "length (vsub c d) = min (length c) (length d)" "length (vmul e f) = min (length e) (length f)"
  by (simp_all add: rot_def vadd_def vsub_def vmul_def)

lemma slot_nth: "i < length v \<Longrightarrow> slot v (int i) = v ! i"
  by (simp add: slot_def flip: zmod_int)

lemma slot_mod [simp]: "length v = n \<Longrightarrow> slot v (i mod int n) = slot v i"
  by (auto simp: slot_def)

lemma index_bound: "v \<noteq> [] \<Longrightarrow> nat (i mod int (length v)) < length v"
  by (simp add: nat_less_iff)

lemma slot_map: "n \<noteq> 0 \<Longrightarrow> slot (map f [0..<n]) i = f (nat (i mod int n))"
  using index_bound [of "[0..<n]" i] by (simp add: slot_def)

lemma slot_rot [slot_simps]: "v \<noteq> [] \<Longrightarrow> slot (rot k v) i = slot v (i + k)"
  unfolding rot_def by (subst slot_map) (simp_all add: slot_def mod_add_left_eq)

lemma slot_vadd [slot_simps]: "length v = length w \<Longrightarrow> v \<noteq> [] \<Longrightarrow> slot (vadd v w) i = slot v i + slot w i"
  and slot_vsub [slot_simps]: "length a = length b \<Longrightarrow> a \<noteq> [] \<Longrightarrow> slot (vsub a b) i = slot a i - slot b i"
  and slot_vmul [slot_simps]: "length c = length d \<Longrightarrow> c \<noteq> [] \<Longrightarrow> slot (vmul c d) i = slot c i * slot d i"
  using index_bound [of v i] index_bound [of a i] index_bound [of c i]
  by (simp_all add: slot_def vadd_def vsub_def vmul_def)

lemma slot_replicate [slot_simps]: "n \<noteq> 0 \<Longrightarrow> slot (replicate n x) i = x"
  using index_bound [of "replicate n x" i] by (simp add: slot_def)

text \<open>Two vectors are equal when they agree on every slot.\<close>

lemma slots_eqI:
  assumes "length v = length w" and "\<And>i. v \<noteq> [] \<Longrightarrow> slot v i = slot w i"
  shows "v = w"
proof (rule nth_equalityI)
  fix i
  assume "i < length v"
  then show "v ! i = w ! i"
    using assms(2) [of "int i"] slot_nth [of i v] slot_nth [of i w] assms(1) by (cases v) auto
qed (rule assms(1))

lemma map_eq_slotsI:
  assumes "length v = n" and "\<And>i. i < n \<Longrightarrow> slot v (int i) = f i"
  shows "v = map f [0..<n]"
  using assms by (intro nth_equalityI) (simp_all add: slot_nth)

section \<open>Sums around the cycle\<close>

lemma sum_cyclic:
  fixes f :: "nat \<Rightarrow> 'a::comm_monoid_add"
  assumes "0 < n"
  shows "(\<Sum>d<n. f ((i + d) mod n)) = (\<Sum>j<n. f j)"
proof -
  have le: "d = e" if "d \<le> e" "e < n" "(i + d) mod n = (i + e) mod n" for d e
  proof -
    from that have "n dvd (i + e) - (i + d)"
      by (metis mod_eq_dvd_iff_nat nat_add_left_cancel_le)
    with that show ?thesis
      using dvd_imp_le [of n "e - d"] by (cases "d = e") auto
  qed
  have inj: "inj_on (\<lambda>d. (i + d) mod n) {..<n}"
  proof (rule inj_onI)
    fix d e
    assume "d \<in> {..<n}" "e \<in> {..<n}" "(i + d) mod n = (i + e) mod n"
    then show "d = e"
      using le by (metis lessThan_iff nat_le_linear)
  qed
  moreover have "(\<lambda>d. (i + d) mod n) ` {..<n} = {..<n}"
    using inj assms by (intro card_subset_eq) (auto simp: card_image)
  ultimately show ?thesis
    by (metis (no_types, lifting) sum.reindex_cong)
qed


section \<open>Windows\<close>

text \<open>\<open>window s m v\<close>: in every slot the sum of \<open>m\<close> slots, \<open>s\<close> apart, from there on.\<close>

definition window :: "int \<Rightarrow> nat \<Rightarrow> ('a::comm_monoid_add) list \<Rightarrow> 'a list" where
  "window s m v = map (\<lambda>i. \<Sum>k<m. slot v (int i + s * int k)) [0..<length v]"

lemma length_window [simp]: "length (window s m v) = length v"
  by (simp add: window_def)

lemma slot_window [slot_simps]:
  assumes "v \<noteq> []"
  shows "slot (window s m v) i = (\<Sum>k<m. slot v (i + s * int k))"
  unfolding window_def using assms
  by (subst slot_map) (simp_all add: slot_def mod_add_left_eq)

lemma window_Nil [simp]: "window s m v = [] \<longleftrightarrow> v = []"
  by (simp add: window_def)

lemma window_1: "window s (Suc 0) v = v"
  by (rule slots_eqI) (simp_all add: slot_window)

lemma sum_split_add:
  fixes f :: "nat \<Rightarrow> 'a::comm_monoid_add"
  shows "(\<Sum>k<m + n. f k) = (\<Sum>k<m. f k) + (\<Sum>k<n. f (m + k))"
  by (induction n) (simp_all add: add.assoc)

text \<open>Adding a window, rotated by its own extent, doubles it.\<close>

lemma window_double: "vadd (window s m v) (rot (s * int m) (window s m v)) = window s (2 * m) v"
proof (rule slots_eqI)
  fix i
  assume "vadd (window s m v) (rot (s * int m) (window s m v)) \<noteq> []"
  then have v: "v \<noteq> []"
    by (auto simp: vadd_def rot_def window_def)
  have "(\<Sum>k<2 * m. slot v (i + s * int k)) = (\<Sum>k<m. slot v (i + s * int k)) +
      (\<Sum>k<m. slot v (i + s * int (m + k)))"
    by (simp only: mult_2 sum_split_add)
  also have "(\<Sum>k<m. slot v (i + s * int (m + k))) = (\<Sum>k<m. slot v (i + s * int m + s * int k))"
    by (simp add: algebra_simps)
  finally show "slot (vadd (window s m v) (rot (s * int m) (window s m v))) i =
      slot (window s (2 * m) v) i"
    using v by (simp add: slot_simps flip: length_greater_0_conv)
qed simp

end
