(* ===== verification/Ckks.thy ===== *)
theory Ckks
  imports Effects Slots
begin

text \<open>
  The CKKS interface of OpenFHE as the workloads use it. The library is a parameter, a record of
  the operations they call; what it documents about them is stated over a view of its values: the
  slots of a ciphertext, its level, the degree of its scale, the keys that are loaded. Slots are
  real numbers: the approximation error of CKKS and of \<open>double\<close> is not part of the view.
\<close>

section \<open>Parameters and operations\<close>

datatype scaling_technique = FIXEDMANUAL | FLEXIBLEAUTO
datatype feature = PKE | KEYSWITCH | LEVELEDSHE | ADVANCEDSHE | FHE
datatype security_level = HEStd_128_classic | HEStd_NotSet
datatype key_switch = HYBRID
datatype secret_dist = SPARSE_TERNARY | UNIFORM_TERNARY

record cc_params =
  cp_depth :: nat
  cp_scaling :: nat
  cp_batch :: nat
  cp_technique :: scaling_technique
  cp_security :: security_level
  cp_ring_dim :: "nat option"
  cp_first_mod :: "nat option"
  cp_key_switch :: "key_switch option"
  cp_digits :: "nat option"
  cp_secret_dist :: "secret_dist option"

text \<open>The setters that all contexts call; the others keep the defaults of the library.\<close>

definition set_params :: "nat \<Rightarrow> nat \<Rightarrow> nat \<Rightarrow> scaling_technique \<Rightarrow> security_level \<Rightarrow> cc_params" where
  "set_params depth scaling batch technique security =
     \<lparr>cp_depth = depth, cp_scaling = scaling, cp_batch = batch, cp_technique = technique,
      cp_security = security, cp_ring_dim = None, cp_first_mod = None, cp_key_switch = None,
      cp_digits = None, cp_secret_dist = None\<rparr>"

record ('g, 'cc, 'ct, 'pt, 'sk) ckks =
  ck_gen :: "cc_params \<Rightarrow> ('g, 'cc) prog"
  ck_enable :: "'cc \<Rightarrow> feature \<Rightarrow> ('g, unit) prog"
  ck_keygen :: "'cc \<Rightarrow> ('g, 'sk) prog"
  ck_pack :: "'cc \<Rightarrow> real list \<Rightarrow> ('g, 'pt) prog"
  ck_pack_slots :: "'cc \<Rightarrow> real list \<Rightarrow> nat \<Rightarrow> nat \<Rightarrow> nat \<Rightarrow> ('g, 'pt) prog"
  ck_pack_at :: "'cc \<Rightarrow> real list \<Rightarrow> nat \<Rightarrow> nat \<Rightarrow> ('g, 'pt) prog"
  ck_encrypt :: "'cc \<Rightarrow> 'sk \<Rightarrow> 'pt \<Rightarrow> ('g, 'ct) prog"
  ck_add :: "'cc \<Rightarrow> 'ct \<Rightarrow> 'ct \<Rightarrow> ('g, 'ct) prog"
  ck_sub :: "'cc \<Rightarrow> 'ct \<Rightarrow> 'ct \<Rightarrow> ('g, 'ct) prog"
  ck_mult :: "'cc \<Rightarrow> 'ct \<Rightarrow> 'ct \<Rightarrow> ('g, 'ct) prog"
  ck_add_pt :: "'cc \<Rightarrow> 'ct \<Rightarrow> 'pt \<Rightarrow> ('g, 'ct) prog"
  ck_mult_pt :: "'cc \<Rightarrow> 'ct \<Rightarrow> 'pt \<Rightarrow> ('g, 'ct) prog"
  ck_mult_const :: "'cc \<Rightarrow> 'ct \<Rightarrow> real \<Rightarrow> ('g, 'ct) prog"
  ck_square :: "'cc \<Rightarrow> 'ct \<Rightarrow> ('g, 'ct) prog"
  ck_rescale :: "'cc \<Rightarrow> 'ct \<Rightarrow> ('g, 'ct) prog"
  ck_relinearize :: "'cc \<Rightarrow> 'ct \<Rightarrow> ('g, 'ct) prog"
  ck_rotate :: "'cc \<Rightarrow> 'ct \<Rightarrow> int \<Rightarrow> ('g, 'ct) prog"
  ck_sum :: "'cc \<Rightarrow> 'ct \<Rightarrow> nat \<Rightarrow> ('g, 'ct) prog"
  ck_mult_keygen :: "'cc \<Rightarrow> 'sk \<Rightarrow> ('g, unit) prog"
  ck_sum_keygen :: "'cc \<Rightarrow> 'sk \<Rightarrow> ('g, unit) prog"
  ck_rotate_keygen :: "'cc \<Rightarrow> 'sk \<Rightarrow> int list \<Rightarrow> ('g, unit) prog"
  ck_boot_setup :: "'cc \<Rightarrow> nat list \<Rightarrow> nat list \<Rightarrow> nat \<Rightarrow> ('g, unit) prog"
  ck_boot_keygen :: "'cc \<Rightarrow> 'sk \<Rightarrow> nat \<Rightarrow> ('g, unit) prog"

text \<open>\<open>GenCryptoContext\<close> and the calls of \<open>Enable\<close> that follow it in every \<open>make_context\<close>.\<close>

definition gen_context :: "('g, 'cc, 'ct, 'pt, 'sk) ckks \<Rightarrow> cc_params \<Rightarrow> feature list \<Rightarrow> ('g, 'cc) prog" where
  "gen_context C ps fs =
     bind_p (ck_gen C ps) (\<lambda>cc. bind_p (for_p (ck_enable C cc) fs) (\<lambda>_. ret cc))"

section \<open>The view\<close>

record ('g, 'cc, 'ct, 'pt) view =
  vs_params :: "'cc \<Rightarrow> cc_params"
  vs_on :: "'g \<Rightarrow> 'cc \<Rightarrow> feature set"
  vs_slots :: "'ct \<Rightarrow> real list"
  vs_level :: "'ct \<Rightarrow> nat"
  vs_degree :: "'ct \<Rightarrow> nat"
  vs_plain :: "'pt \<Rightarrow> real list"
  vs_plain_level :: "'pt \<Rightarrow> nat"
  vs_mult :: "'g \<Rightarrow> bool"
  vs_sum :: "'g \<Rightarrow> bool"
  vs_rotations :: "'g \<Rightarrow> int set"

text \<open>
  \<open>carries V cc c v l\<close>: \<open>c\<close> is a ciphertext of the context with slots \<open>v\<close> at level \<open>l\<close>, after \<open>l\<close>
  rescalings; \<open>encrypts\<close> adds the degree of its scale.
\<close>

definition carries :: "('g, 'cc, 'ct, 'pt) view \<Rightarrow> 'cc \<Rightarrow> 'ct \<Rightarrow> real list \<Rightarrow> nat \<Rightarrow> bool" where
  "carries V cc c v l \<longleftrightarrow> vs_slots V c = v \<and> vs_level V c = l \<and>
     length v = cp_batch (vs_params V cc)"

definition encrypts :: "('g, 'cc, 'ct, 'pt) view \<Rightarrow> 'cc \<Rightarrow> 'ct \<Rightarrow> real list \<Rightarrow> nat \<Rightarrow> nat \<Rightarrow> bool" where
  "encrypts V cc c v l d \<longleftrightarrow> carries V cc c v l \<and> vs_degree V c = d"

definition packs :: "('g, 'cc, 'ct, 'pt) view \<Rightarrow> 'cc \<Rightarrow> 'pt \<Rightarrow> real list \<Rightarrow> bool" where
  "packs V cc p w \<longleftrightarrow> vs_plain V p = w \<and> length w = cp_batch (vs_params V cc)"

lemma carries_length: "carries V cc c v l \<Longrightarrow> length v = cp_batch (vs_params V cc)"
  "encrypts V cc c v l d \<Longrightarrow> length v = cp_batch (vs_params V cc)"
  "packs V cc p w \<Longrightarrow> length w = cp_batch (vs_params V cc)"
  by (simp_all add: carries_def encrypts_def packs_def)

section \<open>Manual rescaling\<close>

text \<open>
  What the library documents for \<open>FIXEDMANUAL\<close>, inside the multiplicative budget only: operands of
  a product have degree 1 and a level to spend, those of a sum the same degree and level, a
  rescaling spends a level, a rotation needs its key. Nothing is said about other calls.
\<close>

definition fixed_manual :: "('g, 'cc, 'ct, 'pt, 'sk) ckks \<Rightarrow> ('g, 'cc, 'ct, 'pt) view \<Rightarrow> 'cc \<Rightarrow> 'g \<Rightarrow> bool" where
  "fixed_manual C V cc g \<longleftrightarrow>
     (let E = encrypts V cc; n = cp_batch (vs_params V cc); dep = cp_depth (vs_params V cc) in
     (\<forall>w. length w = n \<longrightarrow> yields (ck_pack C cc w) g (\<lambda>p. packs V cc p w \<and> vs_plain_level V p = 0)) \<and>
     (\<forall>kp p w. packs V cc p w \<longrightarrow> vs_plain_level V p = 0 \<longrightarrow>
        yields (ck_encrypt C cc kp p) g (\<lambda>c. E c w 0 1)) \<and>
     (\<forall>a b v w l d. E a v l d \<longrightarrow> E b w l d \<longrightarrow> yields (ck_add C cc a b) g (\<lambda>c. E c (vadd v w) l d)) \<and>
     (\<forall>a p v w l. E a v l 1 \<longrightarrow> packs V cc p w \<longrightarrow>
        yields (ck_add_pt C cc a p) g (\<lambda>c. E c (vadd v w) l 1)) \<and>
     (\<forall>a b v w l. E a v l 1 \<longrightarrow> E b w l 1 \<longrightarrow> l < dep \<longrightarrow> vs_mult V g \<longrightarrow>
        yields (ck_mult C cc a b) g (\<lambda>c. E c (vmul v w) l 2)) \<and>
     (\<forall>a p v w l. E a v l 1 \<longrightarrow> packs V cc p w \<longrightarrow> l < dep \<longrightarrow>
        yields (ck_mult_pt C cc a p) g (\<lambda>c. E c (vmul v w) l 2)) \<and>
     (\<forall>a v l. E a v l 2 \<longrightarrow> l < dep \<longrightarrow> yields (ck_rescale C cc a) g (\<lambda>c. E c v (l + 1) 1)) \<and>
     (\<forall>a v l d k. E a v l d \<longrightarrow> k \<in> vs_rotations V g \<longrightarrow>
        yields (ck_rotate C cc a k) g (\<lambda>c. E c (rot k v) l d)) \<and>
     (\<forall>a v l d. E a v l d \<longrightarrow> vs_sum V g \<longrightarrow> ADVANCEDSHE \<in> vs_on V g cc \<longrightarrow>
        yields (ck_sum C cc a n) g (\<lambda>c. E c (replicate n (sum_list v)) l d)))"

lemma fixed_manualD:
  assumes "fixed_manual C V cc g"
  shows fm_pack_fresh: "length w = cp_batch (vs_params V cc) \<Longrightarrow>
      yields (ck_pack C cc w) g (\<lambda>p. packs V cc p w \<and> vs_plain_level V p = 0)"
    and fm_encrypt: "packs V cc p w \<Longrightarrow> vs_plain_level V p = 0 \<Longrightarrow>
      yields (ck_encrypt C cc kp p) g (\<lambda>c. encrypts V cc c w 0 1)"
    and fm_add: "encrypts V cc a v l d \<Longrightarrow> encrypts V cc b v' l d \<Longrightarrow>
      yields (ck_add C cc a b) g (\<lambda>c. encrypts V cc c (vadd v v') l d)"
    and fm_add_pt: "encrypts V cc a v l 1 \<Longrightarrow> packs V cc p w \<Longrightarrow>
      yields (ck_add_pt C cc a p) g (\<lambda>c. encrypts V cc c (vadd v w) l 1)"
    and fm_mult: "encrypts V cc a v l 1 \<Longrightarrow> encrypts V cc b v' l 1 \<Longrightarrow>
      l < cp_depth (vs_params V cc) \<Longrightarrow> vs_mult V g \<Longrightarrow>
      yields (ck_mult C cc a b) g (\<lambda>c. encrypts V cc c (vmul v v') l 2)"
    and fm_mult_pt: "encrypts V cc a v l 1 \<Longrightarrow> packs V cc p w \<Longrightarrow>
      l < cp_depth (vs_params V cc) \<Longrightarrow>
      yields (ck_mult_pt C cc a p) g (\<lambda>c. encrypts V cc c (vmul v w) l 2)"
    and fm_rescale: "encrypts V cc a v l 2 \<Longrightarrow> l < cp_depth (vs_params V cc) \<Longrightarrow>
      yields (ck_rescale C cc a) g (\<lambda>c. encrypts V cc c v (l + 1) 1)"
    and fm_rotate: "encrypts V cc a v l d \<Longrightarrow> k \<in> vs_rotations V g \<Longrightarrow>
      yields (ck_rotate C cc a k) g (\<lambda>c. encrypts V cc c (rot k v) l d)"
    and fm_sum: "encrypts V cc a v l d \<Longrightarrow> vs_sum V g \<Longrightarrow> ADVANCEDSHE \<in> vs_on V g cc \<Longrightarrow>
      yields (ck_sum C cc a (cp_batch (vs_params V cc))) g (\<lambda>c. encrypts V cc c
        (replicate (cp_batch (vs_params V cc)) (sum_list v)) l d)"
  using assms unfolding fixed_manual_def Let_def by simp_all

lemma fm_pack:
  assumes "fixed_manual C V cc g" and "length w = cp_batch (vs_params V cc)"
  shows "yields (ck_pack C cc w) g (\<lambda>p. packs V cc p w)"
  by (rule yields_mono [OF fm_pack_fresh [OF assms]]) simp


section \<open>Automatic rescaling\<close>

text \<open>
  \<open>FLEXIBLEAUTO\<close>: the library aligns levels itself; a product costs one level more than its
  operands have spent. The level counts a rescaling that is still due: a plaintext encoded at level
  \<open>l\<close> with scale degree \<open>d\<close> has spent \<open>l + d - 1\<close>. A vector that is encoded for \<open>m\<close> slots is padded
  with zeros and repeated in the slots of the context.
\<close>

definition repeated :: "nat \<Rightarrow> nat \<Rightarrow> real list \<Rightarrow> real list" where
  "repeated m n w = map (\<lambda>i. (w @ replicate (m - length w) 0) ! (i mod m)) [0..<n]"

definition flexible_auto :: "('g, 'cc, 'ct, 'pt, 'sk) ckks \<Rightarrow> ('g, 'cc, 'ct, 'pt) view \<Rightarrow> 'cc \<Rightarrow> 'g \<Rightarrow> bool" where
  "flexible_auto C V cc g \<longleftrightarrow>
     (let K = carries V cc; n = cp_batch (vs_params V cc); dep = cp_depth (vs_params V cc) in
     (\<forall>w m. length w \<le> m \<longrightarrow> m dvd n \<longrightarrow> yields (ck_pack_slots C cc w 1 0 m) g
        (\<lambda>p. packs V cc p (repeated m n w) \<and> vs_plain_level V p = 0)) \<and>
     (\<forall>w d l. length w = n \<longrightarrow> 0 < d \<longrightarrow> l + d - 1 \<le> dep \<longrightarrow> yields (ck_pack_at C cc w d l) g
        (\<lambda>p. packs V cc p w \<and> vs_plain_level V p = l + d - 1)) \<and>
     (\<forall>kp p w. packs V cc p w \<longrightarrow>
        yields (ck_encrypt C cc kp p) g (\<lambda>c. K c w (vs_plain_level V p))) \<and>
     (\<forall>a b v w l k. K a v l \<longrightarrow> K b w k \<longrightarrow> yields (ck_add C cc a b) g (\<lambda>c. K c (vadd v w) (max l k))) \<and>
     (\<forall>a b v w l k. K a v l \<longrightarrow> K b w k \<longrightarrow> yields (ck_sub C cc a b) g (\<lambda>c. K c (vsub v w) (max l k))) \<and>
     (\<forall>a p v w l. K a v l \<longrightarrow> packs V cc p w \<longrightarrow> yields (ck_add_pt C cc a p) g (\<lambda>c. K c (vadd v w) l)) \<and>
     (\<forall>a b v w l k. K a v l \<longrightarrow> K b w k \<longrightarrow> max l k < dep \<longrightarrow> vs_mult V g \<longrightarrow>
        yields (ck_mult C cc a b) g (\<lambda>c. K c (vmul v w) (max l k + 1))) \<and>
     (\<forall>a v l. K a v l \<longrightarrow> l < dep \<longrightarrow> vs_mult V g \<longrightarrow>
        yields (ck_square C cc a) g (\<lambda>c. K c (vmul v v) (l + 1))) \<and>
     (\<forall>a p v w l. K a v l \<longrightarrow> packs V cc p w \<longrightarrow> l < dep \<longrightarrow>
        yields (ck_mult_pt C cc a p) g (\<lambda>c. K c (vmul v w) (l + 1))) \<and>
     (\<forall>a v l x. K a v l \<longrightarrow> l < dep \<longrightarrow>
        yields (ck_mult_const C cc a x) g (\<lambda>c. K c (map ((*) x) v) (l + 1))) \<and>
     (\<forall>a v l. K a v l \<longrightarrow> vs_mult V g \<longrightarrow> yields (ck_relinearize C cc a) g (\<lambda>c. K c v l)) \<and>
     (\<forall>a v l k. K a v l \<longrightarrow> k \<in> vs_rotations V g \<longrightarrow>
        yields (ck_rotate C cc a k) g (\<lambda>c. K c (rot k v) l)))"

lemma flexible_autoD:
  assumes "flexible_auto C V cc g"
  shows fa_pack: "length w \<le> m \<Longrightarrow> m dvd cp_batch (vs_params V cc) \<Longrightarrow>
      yields (ck_pack_slots C cc w 1 0 m) g (\<lambda>p. packs V cc p (repeated m (cp_batch (vs_params V cc)) w) \<and>
        vs_plain_level V p = 0)"
    and fa_pack_at: "length w = cp_batch (vs_params V cc) \<Longrightarrow> 0 < d \<Longrightarrow>
      l + d - 1 \<le> cp_depth (vs_params V cc) \<Longrightarrow> yields (ck_pack_at C cc w d l) g
        (\<lambda>p. packs V cc p w \<and> vs_plain_level V p = l + d - 1)"
    and fa_encrypt: "packs V cc p w \<Longrightarrow>
      yields (ck_encrypt C cc kp p) g (\<lambda>c. carries V cc c w (vs_plain_level V p))"
    and fa_add: "carries V cc a v l \<Longrightarrow> carries V cc b v' k \<Longrightarrow>
      yields (ck_add C cc a b) g (\<lambda>c. carries V cc c (vadd v v') (max l k))"
    and fa_sub: "carries V cc a v l \<Longrightarrow> carries V cc b v' k \<Longrightarrow>
      yields (ck_sub C cc a b) g (\<lambda>c. carries V cc c (vsub v v') (max l k))"
    and fa_add_pt: "carries V cc a v l \<Longrightarrow> packs V cc p w \<Longrightarrow>
      yields (ck_add_pt C cc a p) g (\<lambda>c. carries V cc c (vadd v w) l)"
    and fa_mult: "carries V cc a v l \<Longrightarrow> carries V cc b v' k \<Longrightarrow>
      max l k < cp_depth (vs_params V cc) \<Longrightarrow> vs_mult V g \<Longrightarrow>
      yields (ck_mult C cc a b) g (\<lambda>c. carries V cc c (vmul v v') (max l k + 1))"
    and fa_square: "carries V cc a v l \<Longrightarrow> l < cp_depth (vs_params V cc) \<Longrightarrow> vs_mult V g \<Longrightarrow>
      yields (ck_square C cc a) g (\<lambda>c. carries V cc c (vmul v v) (l + 1))"
    and fa_mult_pt: "carries V cc a v l \<Longrightarrow> packs V cc p w \<Longrightarrow> l < cp_depth (vs_params V cc) \<Longrightarrow>
      yields (ck_mult_pt C cc a p) g (\<lambda>c. carries V cc c (vmul v w) (l + 1))"
    and fa_mult_const: "carries V cc a v l \<Longrightarrow> l < cp_depth (vs_params V cc) \<Longrightarrow>
      yields (ck_mult_const C cc a x) g (\<lambda>c. carries V cc c (map ((*) x) v) (l + 1))"
    and fa_relinearize: "carries V cc a v l \<Longrightarrow> vs_mult V g \<Longrightarrow>
      yields (ck_relinearize C cc a) g (\<lambda>c. carries V cc c v l)"
    and fa_rotate: "carries V cc a v l \<Longrightarrow> j \<in> vs_rotations V g \<Longrightarrow>
      yields (ck_rotate C cc a j) g (\<lambda>c. carries V cc c (rot j v) l)"
  using assms unfolding flexible_auto_def Let_def by simp_all

section \<open>Contexts and keys\<close>

text \<open>What a call leaves in place: enabled features and loaded keys.\<close>

definition keeps_but_rotations :: "('g, 'cc, 'ct, 'pt) view \<Rightarrow> 'g \<Rightarrow> 'g \<Rightarrow> bool" where
  "keeps_but_rotations V g g' \<longleftrightarrow> (\<forall>cc. vs_on V g cc \<subseteq> vs_on V g' cc) \<and> (vs_mult V g \<longrightarrow> vs_mult V g') \<and>
     (vs_sum V g \<longrightarrow> vs_sum V g')"

definition keeps :: "('g, 'cc, 'ct, 'pt) view \<Rightarrow> 'g \<Rightarrow> 'g \<Rightarrow> bool" where
  "keeps V g g' \<longleftrightarrow> keeps_but_rotations V g g' \<and> vs_rotations V g \<subseteq> vs_rotations V g'"

text \<open>
  The calls of a setup. The generation of bootstrapping keys adds keys in the library as it is; in
  the build that FIDESlib uses it replaces the map of rotation keys.
\<close>

definition ckks_core :: "('g, 'cc, 'ct, 'pt, 'sk) ckks \<Rightarrow> ('g, 'cc, 'ct, 'pt) view \<Rightarrow> bool" where
  "ckks_core C V \<longleftrightarrow>
     (\<forall>ps g. runs (ck_gen C ps) g (\<lambda>cc g'. vs_params V cc = ps \<and> keeps V g g')) \<and>
     (\<forall>cc f g. runs (ck_enable C cc f) g (\<lambda>_ g'. f \<in> vs_on V g' cc \<and> keeps V g g')) \<and>
     (\<forall>cc g. PKE \<in> vs_on V g cc \<longrightarrow> runs (ck_keygen C cc) g (\<lambda>_. keeps V g)) \<and>
     (\<forall>cc sk g. KEYSWITCH \<in> vs_on V g cc \<longrightarrow>
        runs (ck_mult_keygen C cc sk) g (\<lambda>_ g'. vs_mult V g' \<and> keeps V g g')) \<and>
     (\<forall>cc sk g. ADVANCEDSHE \<in> vs_on V g cc \<longrightarrow>
        runs (ck_sum_keygen C cc sk) g (\<lambda>_ g'. vs_sum V g' \<and> keeps V g g')) \<and>
     (\<forall>cc sk ks g. KEYSWITCH \<in> vs_on V g cc \<longrightarrow>
        runs (ck_rotate_keygen C cc sk ks) g (\<lambda>_ g'. set ks \<subseteq> vs_rotations V g' \<and> keeps V g g')) \<and>
     (\<forall>cc lb d1 m g. FHE \<in> vs_on V g cc \<longrightarrow> runs (ck_boot_setup C cc lb d1 m) g (\<lambda>_. keeps V g)) \<and>
     (\<forall>cc g. LEVELEDSHE \<in> vs_on V g cc \<longrightarrow> (case cp_technique (vs_params V cc) of
        FIXEDMANUAL \<Rightarrow> fixed_manual C V cc g | FLEXIBLEAUTO \<Rightarrow> flexible_auto C V cc g))"

definition ckks_works :: "('g, 'cc, 'ct, 'pt, 'sk) ckks \<Rightarrow> ('g, 'cc, 'ct, 'pt) view \<Rightarrow> bool" where
  "ckks_works C V \<longleftrightarrow> ckks_core C V \<and>
     (\<forall>cc sk m g. FHE \<in> vs_on V g cc \<longrightarrow> runs (ck_boot_keygen C cc sk m) g (\<lambda>_. keeps V g))"

definition ckks_replaces :: "('g, 'cc, 'ct, 'pt, 'sk) ckks \<Rightarrow> ('g, 'cc, 'ct, 'pt) view \<Rightarrow> bool" where
  "ckks_replaces C V \<longleftrightarrow> ckks_core C V \<and>
     (\<forall>cc sk m g. FHE \<in> vs_on V g cc \<longrightarrow>
        runs (ck_boot_keygen C cc sk m) g (\<lambda>_. keeps_but_rotations V g))"

lemma keeps_refl [simp]: "keeps V g g"
  by (simp add: keeps_def keeps_but_rotations_def)

lemma keeps_but_rotations_trans:
  "keeps_but_rotations V g g' \<Longrightarrow> keeps_but_rotations V g' g'' \<Longrightarrow> keeps_but_rotations V g g''"
  unfolding keeps_but_rotations_def by blast

lemma keeps_trans: "keeps V g g' \<Longrightarrow> keeps V g' g'' \<Longrightarrow> keeps V g g''"
  unfolding keeps_def by (blast intro: keeps_but_rotations_trans)

lemma keeps_weak: "keeps V g g' \<Longrightarrow> keeps_but_rotations V g g'"
  by (simp add: keeps_def)

lemma keeps_but_rotationsD:
  assumes "keeps_but_rotations V g g'"
  shows "f \<in> vs_on V g cc \<Longrightarrow> f \<in> vs_on V g' cc" and "vs_mult V g \<Longrightarrow> vs_mult V g'"
    and "vs_sum V g \<Longrightarrow> vs_sum V g'"
  using assms unfolding keeps_but_rotations_def by blast+

lemma keepsD:
  assumes "keeps V g g'"
  shows "f \<in> vs_on V g cc \<Longrightarrow> f \<in> vs_on V g' cc" and "vs_mult V g \<Longrightarrow> vs_mult V g'"
    and "vs_sum V g \<Longrightarrow> vs_sum V g'" and "k \<in> vs_rotations V g \<Longrightarrow> k \<in> vs_rotations V g'"
  using assms unfolding keeps_def keeps_but_rotations_def by blast+

lemma keeps_rotations:
  "set ks \<subseteq> vs_rotations V g \<Longrightarrow> keeps V g g' \<Longrightarrow> set ks \<subseteq> vs_rotations V g'"
  unfolding keeps_def by blast

lemma ckks_coreD:
  assumes "ckks_core C V"
  shows ck_gen_runs: "runs (ck_gen C ps) g (\<lambda>cc g'. vs_params V cc = ps \<and> keeps V g g')"
    and ck_enable_runs: "runs (ck_enable C cc f) g (\<lambda>_ g'. f \<in> vs_on V g' cc \<and> keeps V g g')"
    and ck_keygen_runs: "PKE \<in> vs_on V g cc \<Longrightarrow> runs (ck_keygen C cc) g (\<lambda>_. keeps V g)"
    and ck_mult_keygen_runs: "KEYSWITCH \<in> vs_on V g cc \<Longrightarrow>
      runs (ck_mult_keygen C cc sk) g (\<lambda>_ g'. vs_mult V g' \<and> keeps V g g')"
    and ck_sum_keygen_runs: "ADVANCEDSHE \<in> vs_on V g cc \<Longrightarrow>
      runs (ck_sum_keygen C cc sk) g (\<lambda>_ g'. vs_sum V g' \<and> keeps V g g')"
    and ck_rotate_keygen_runs: "KEYSWITCH \<in> vs_on V g cc \<Longrightarrow>
      runs (ck_rotate_keygen C cc sk ks) g (\<lambda>_ g'. set ks \<subseteq> vs_rotations V g' \<and> keeps V g g')"
    and ck_boot_setup_runs: "FHE \<in> vs_on V g cc \<Longrightarrow> runs (ck_boot_setup C cc lb d1 m) g (\<lambda>_. keeps V g)"
    and works_fixed: "LEVELEDSHE \<in> vs_on V g cc \<Longrightarrow> cp_technique (vs_params V cc) = FIXEDMANUAL \<Longrightarrow>
      fixed_manual C V cc g"
    and works_flexible: "LEVELEDSHE \<in> vs_on V g cc \<Longrightarrow> cp_technique (vs_params V cc) = FLEXIBLEAUTO \<Longrightarrow>
      flexible_auto C V cc g"
  using assms unfolding ckks_core_def by (simp_all split: scaling_technique.splits)

lemma ckks_worksD:
  assumes "ckks_works C V"
  shows "ckks_core C V"
    and ck_boot_keygen_runs: "FHE \<in> vs_on V g cc \<Longrightarrow> runs (ck_boot_keygen C cc sk m) g (\<lambda>_. keeps V g)"
  using assms unfolding ckks_works_def by simp_all

lemma ckks_replacesD:
  assumes "ckks_replaces C V"
  shows "ckks_core C V"
    and ck_boot_keygen_replaces: "FHE \<in> vs_on V g cc \<Longrightarrow>
      runs (ck_boot_keygen C cc sk m) g (\<lambda>_. keeps_but_rotations V g)"
  using assms unfolding ckks_replaces_def by simp_all

lemma works_replaces: "ckks_works C V \<Longrightarrow> ckks_replaces C V"
  unfolding ckks_replaces_def by (auto simp: ckks_worksD intro: runs_mono ck_boot_keygen_runs keeps_weak)

text \<open>A context that is ready: its parameters, and the features it was asked for.\<close>

definition ready :: "('g, 'cc, 'ct, 'pt) view \<Rightarrow> 'cc \<Rightarrow> cc_params \<Rightarrow> feature list \<Rightarrow> 'g \<Rightarrow> bool" where
  "ready V cc ps fs g \<longleftrightarrow> vs_params V cc = ps \<and> set fs \<subseteq> vs_on V g cc"

lemma ready_keeps_but: "ready V cc ps fs g \<Longrightarrow> keeps_but_rotations V g g' \<Longrightarrow> ready V cc ps fs g'"
  unfolding ready_def keeps_but_rotations_def by blast

lemma ready_keeps: "ready V cc ps fs g \<Longrightarrow> keeps V g g' \<Longrightarrow> ready V cc ps fs g'"
  by (erule ready_keeps_but) (rule keeps_weak)

lemma ready_on: "ready V cc ps fs g \<Longrightarrow> f \<in> set fs \<Longrightarrow> f \<in> vs_on V g cc"
  unfolding ready_def by blast

lemma enable_all_runs:
  assumes "ckks_core C V"
  shows "runs (for_p (ck_enable C cc) fs) g (\<lambda>_ g'. set fs \<subseteq> vs_on V g' cc \<and> keeps V g g')"
proof (rule runs_for)
  fix ys x zs h
  assume "set ys \<subseteq> vs_on V h cc \<and> keeps V g h"
  then show "runs (ck_enable C cc x) h (\<lambda>_ h'. set (ys @ [x]) \<subseteq> vs_on V h' cc \<and> keeps V g h')"
    by (intro runs_mono [OF ck_enable_runs [OF assms]]) (auto intro: keeps_trans dest: keepsD(1))
qed simp

lemma gen_context_runs:
  assumes "ckks_core C V"
  shows "runs (gen_context C ps fs) g (\<lambda>cc g'. ready V cc ps fs g' \<and> keeps V g g')"
  unfolding gen_context_def
proof (rule runs_bind [OF ck_gen_runs [OF assms]])
  fix cc g1
  assume "vs_params V cc = ps \<and> keeps V g g1"
  then show "runs (bind_p (for_p (ck_enable C cc) fs) (\<lambda>_. ret cc)) g1
      (\<lambda>cc g'. ready V cc ps fs g' \<and> keeps V g g')"
    by (intro runs_bind [OF enable_all_runs [OF assms]]) (auto simp: ready_def intro: keeps_trans)
qed

end
