(* ===== verification/Workloads_Ckks.thy ===== *)
theory Workloads_Ckks
  imports Ckks Server_Tee Client_Tee
begin

text \<open>
  The CKKS workloads of \<open>tee-vfhe\<close> (and, in the same files, of \<open>gpucc-vfhe\<close>), other than the
  logistic regression: contexts, key generation and circuits. For each, what the client sets up is
  enough for the circuit to run within its multiplicative budget, and the result carries the
  function it is meant to compute.
\<close>

section \<open>Workloads with keys\<close>

record ('g, 'cc, 'ct, 'sk) keyed_workload = "('g, 'cc, 'ct) workload" +
  wl_gen_keys :: "('cc \<Rightarrow> 'sk \<Rightarrow> ('g, unit) prog) option"

text \<open>What the client does with a workload before it encrypts.\<close>

definition make_keys :: "('g, 'cc, 'ct, 'pt, 'sk) ckks \<Rightarrow> ('g, 'cc) prog \<Rightarrow>
    ('cc \<Rightarrow> 'sk \<Rightarrow> ('g, unit) prog) option \<Rightarrow> ('g, 'cc \<times> 'sk) prog" where
  "make_keys C make_context gen_keys =
     bind_p make_context (\<lambda>cc.
     bind_p (ck_keygen C cc) (\<lambda>kp.
     bind_p (case gen_keys of None \<Rightarrow> ret () | Some gk \<Rightarrow> gk cc kp) (\<lambda>_.
     bind_p (ck_mult_keygen C cc kp) (\<lambda>_. ret (cc, kp)))))"

definition client_setup :: "('g, 'cc, 'ct, 'pt, 'sk) ckks \<Rightarrow> ('g, 'cc, 'ct, 'sk) keyed_workload \<Rightarrow>
    ('g, 'cc \<times> 'sk) prog" where
  "client_setup C w = make_keys C (wl_make_context w) (wl_gen_keys w)"

lemma make_keys_runs:
  assumes "ckks_core C V" and "PKE \<in> set fs" and "KEYSWITCH \<in> set fs"
    and gk: "\<And>cc sk g. ready V cc ps fs g \<Longrightarrow>
      runs (case gen_keys of None \<Rightarrow> ret () | Some gk \<Rightarrow> gk cc sk) g (\<lambda>_ g'. ready V cc ps fs g' \<and> Q g')"
    and mono: "\<And>g g'. Q g \<Longrightarrow> keeps V g g' \<Longrightarrow> Q g'"
  shows "runs (make_keys C (gen_context C ps fs) gen_keys) g
    (\<lambda>(cc, _) g'. ready V cc ps fs g' \<and> vs_mult V g' \<and> Q g')"
  unfolding make_keys_def
proof (rule runs_bind [OF gen_context_runs [OF assms(1)]])
  fix cc g1
  assume 1: "ready V cc ps fs g1 \<and> keeps V g g1"
  let ?keys = "\<lambda>kp. case gen_keys of None \<Rightarrow> ret () | Some gk \<Rightarrow> gk cc kp"
  show "runs (bind_p (ck_keygen C cc) (\<lambda>kp. bind_p (?keys kp) (\<lambda>_. bind_p (ck_mult_keygen C cc kp)
      (\<lambda>_. ret (cc, kp))))) g1 (\<lambda>(cc, _) g'. ready V cc ps fs g' \<and> vs_mult V g' \<and> Q g')"
  proof (rule runs_bind [OF ck_keygen_runs [OF assms(1)]])
    show "PKE \<in> vs_on V g1 cc" using 1 assms(2) by (blast intro: ready_on)
  next
    fix kp g2
    assume "keeps V g1 g2"
    with 1 have 2: "ready V cc ps fs g2" by (blast intro: ready_keeps)
    show "runs (bind_p (?keys kp) (\<lambda>_. bind_p (ck_mult_keygen C cc kp) (\<lambda>_. ret (cc, kp)))) g2
      (\<lambda>(cc, _) g'. ready V cc ps fs g' \<and> vs_mult V g' \<and> Q g')"
    proof (rule runs_bind [OF gk [OF 2]])
      fix u g3
      assume 3: "ready V cc ps fs g3 \<and> Q g3"
      show "runs (bind_p (ck_mult_keygen C cc kp) (\<lambda>_. ret (cc, kp))) g3
        (\<lambda>(cc, _) g'. ready V cc ps fs g' \<and> vs_mult V g' \<and> Q g')"
        using 3 assms(3)
        by (intro runs_bind [OF ck_mult_keygen_runs [OF assms(1)]])
          (auto intro: ready_on ready_keeps mono)
    qed
  qed
qed

lemma client_setup_runs:
  assumes "ckks_works C V" and "wl_make_context w = gen_context C ps fs"
    and "PKE \<in> set fs" and "KEYSWITCH \<in> set fs"
    and gk: "\<And>cc sk g gen_keys. wl_gen_keys w = Some gen_keys \<Longrightarrow> ready V cc ps fs g \<Longrightarrow>
      runs (gen_keys cc sk) g (\<lambda>_ g'. keeps V g g' \<and> Q g')"
    and nogk: "\<And>g. wl_gen_keys w = None \<Longrightarrow> Q g"
    and mono: "\<And>g g'. Q g \<Longrightarrow> keeps V g g' \<Longrightarrow> Q g'"
  shows "runs (client_setup C w) g (\<lambda>(cc, _) g'. ready V cc ps fs g' \<and> vs_mult V g' \<and> Q g')"
  unfolding client_setup_def assms(2)
proof (rule make_keys_runs [OF ckks_worksD(1) [OF assms(1)] assms(3,4) _ mono])
  fix cc sk h
  assume r: "ready V cc ps fs h"
  show "runs (case wl_gen_keys w of None \<Rightarrow> ret () | Some gk \<Rightarrow> gk cc sk) h
      (\<lambda>_ g'. ready V cc ps fs g' \<and> Q g')"
  proof (cases "wl_gen_keys w")
    case None
    with r nogk show ?thesis by simp
  next
    case (Some gen_keys)
    with r show ?thesis by (auto intro: runs_mono [OF gk [OF Some r]] ready_keeps)
  qed
qed


section \<open>Random constants\<close>

text \<open>The weights of a workload are drawn one after the other from a generator with a fixed seed.\<close>

fun draw_vec :: "('s \<Rightarrow> 'v \<times> 's) \<Rightarrow> nat \<Rightarrow> 's \<Rightarrow> 'v list \<times> 's" where
  "draw_vec nx 0 s = ([], s)"
| "draw_vec nx (Suc n) s = (let (v, s1) = nx s; (vs, s2) = draw_vec nx n s1 in (v # vs, s2))"

fun draw_rows :: "('s \<Rightarrow> 'v \<times> 's) \<Rightarrow> nat \<Rightarrow> nat \<Rightarrow> 's \<Rightarrow> 'v list list \<times> 's" where
  "draw_rows nx 0 cols s = ([], s)"
| "draw_rows nx (Suc rows) cols s =
     (let (r, s1) = draw_vec nx cols s; (rs, s2) = draw_rows nx rows cols s1 in (r # rs, s2))"

lemma draw_vec_length [simp]: "length (fst (draw_vec nx n s)) = n"
  by (induction n arbitrary: s) (simp_all add: Let_def split: prod.splits, metis fst_conv)

lemma draw_rows_length [simp]: "length (fst (draw_rows nx rows cols s)) = rows"
  by (induction rows arbitrary: s) (simp_all add: Let_def split: prod.splits, metis fst_conv)

lemma draw_rows_cols: "r \<in> set (fst (draw_rows nx rows cols s)) \<Longrightarrow> length r = cols"
proof (induction rows arbitrary: s)
  case (Suc rows)
  obtain v s1 where v: "draw_vec nx cols s = (v, s1)" by (cases "draw_vec nx cols s")
  obtain rs s2 where rs: "draw_rows nx rows cols s1 = (rs, s2)"
    by (cases "draw_rows nx rows cols s1")
  have "length v = cols" using draw_vec_length [of nx cols s] v by simp
  with Suc.prems Suc.IH [of s1] v rs show ?case by auto
qed simp

text \<open>A generator that draws the same sequence as \<open>draw\<close>, which forgets its final state.\<close>

lemma draw_vec_draw: "fst (draw_vec nx n s) = draw nx n s"
  by (induction n arbitrary: s) (simp_all add: Let_def split: prod.splits, metis fst_conv)

section \<open>Small circuits\<close>

definition leveled :: "feature list" where
  "leveled = [PKE, KEYSWITCH, LEVELEDSHE]"

definition micro_params :: cc_params where
  "micro_params = set_params 1 40 32 FIXEDMANUAL HEStd_128_classic"

definition make_noop_context :: "('g, 'cc, 'ct, 'pt, 'sk) ckks \<Rightarrow> ('g, 'cc) prog" where
  "make_noop_context C = gen_context C micro_params leveled"

definition noop_eval :: "'cc \<Rightarrow> 'ct list \<Rightarrow> ('g, 'ct) prog" where
  "noop_eval cc inputs =
     (if inputs = [] then
        raise (Throw (Runtime_error ''noop workload requires at least one input ciphertext''))
      else ret (inputs ! 0))"

definition make_toy_context :: "('g, 'cc, 'ct, 'pt, 'sk) ckks \<Rightarrow> ('g, 'cc) prog" where
  "make_toy_context C = gen_context C micro_params leveled"

definition toy_eval :: "('g, 'cc, 'ct, 'pt, 'sk) ckks \<Rightarrow> 'cc \<Rightarrow> 'ct list \<Rightarrow> ('g, 'ct) prog" where
  "toy_eval C cc inputs =
     (if length inputs \<noteq> 2 then
        raise (Throw (Runtime_error ''toy workload requires exactly 2 input ciphertexts''))
      else bind_p (ck_mult C cc (inputs ! 0) (inputs ! 1)) (\<lambda>prod. ck_rescale C cc prod))"

definition make_micro_add_context :: "('g, 'cc, 'ct, 'pt, 'sk) ckks \<Rightarrow> ('g, 'cc) prog" where
  "make_micro_add_context C = gen_context C micro_params leveled"

definition micro_add_eval :: "('g, 'cc, 'ct, 'pt, 'sk) ckks \<Rightarrow> 'cc \<Rightarrow> 'ct list \<Rightarrow> ('g, 'ct) prog" where
  "micro_add_eval C cc inputs =
     (if length inputs \<noteq> 2 then
        raise (Throw (Runtime_error ''micro_add workload requires exactly 2 input ciphertexts''))
      else ck_add C cc (inputs ! 0) (inputs ! 1))"

definition make_micro_mul_context :: "('g, 'cc, 'ct, 'pt, 'sk) ckks \<Rightarrow> ('g, 'cc) prog" where
  "make_micro_mul_context C = gen_context C micro_params leveled"

definition micro_mul_eval :: "('g, 'cc, 'ct, 'pt, 'sk) ckks \<Rightarrow> 'cc \<Rightarrow> 'ct list \<Rightarrow> ('g, 'ct) prog" where
  "micro_mul_eval C cc inputs =
     (if length inputs \<noteq> 2 then
        raise (Throw (Runtime_error ''micro_mul workload requires exactly 2 input ciphertexts''))
      else ck_mult C cc (inputs ! 0) (inputs ! 1))"

definition make_micro_mul_rescale_context :: "('g, 'cc, 'ct, 'pt, 'sk) ckks \<Rightarrow> ('g, 'cc) prog" where
  "make_micro_mul_rescale_context C = gen_context C micro_params leveled"

definition micro_mul_rescale_eval :: "('g, 'cc, 'ct, 'pt, 'sk) ckks \<Rightarrow> 'cc \<Rightarrow> 'ct list \<Rightarrow> ('g, 'ct) prog" where
  "micro_mul_rescale_eval C cc inputs =
     (if length inputs \<noteq> 2 then
        raise (Throw (Runtime_error ''micro_mul_rescale workload requires exactly 2 input ciphertexts''))
      else bind_p (ck_mult C cc (inputs ! 0) (inputs ! 1)) (\<lambda>prod. ck_rescale C cc prod))"

definition make_micro_rotate_context :: "('g, 'cc, 'ct, 'pt, 'sk) ckks \<Rightarrow> ('g, 'cc) prog" where
  "make_micro_rotate_context C = gen_context C micro_params leveled"

definition micro_rotate_eval :: "('g, 'cc, 'ct, 'pt, 'sk) ckks \<Rightarrow> 'cc \<Rightarrow> 'ct list \<Rightarrow> ('g, 'ct) prog" where
  "micro_rotate_eval C cc inputs =
     (if length inputs \<noteq> 1 then
        raise (Throw (Runtime_error ''micro_rotate workload requires exactly 1 input ciphertext''))
      else ck_rotate C cc (inputs ! 0) 1)"

definition micro_rotate_gen_keys :: "('g, 'cc, 'ct, 'pt, 'sk) ckks \<Rightarrow> 'cc \<Rightarrow> 'sk \<Rightarrow> ('g, unit) prog" where
  "micro_rotate_gen_keys C cc kp = ck_rotate_keygen C cc kp [1]"

section \<open>The dot product\<close>

definition make_small_weights :: "('s, real) rng \<Rightarrow> real list" where
  "make_small_weights R = draw (rg_next R) 32 (rg_seed R 42)"

definition make_small_context :: "('g, 'cc, 'ct, 'pt, 'sk) ckks \<Rightarrow> ('g, 'cc) prog" where
  "make_small_context C =
     gen_context C (set_params 2 40 32 FIXEDMANUAL HEStd_128_classic) (leveled @ [ADVANCEDSHE])"

definition small_eval :: "('s, real) rng \<Rightarrow> ('g, 'cc, 'ct, 'pt, 'sk) ckks \<Rightarrow> 'cc \<Rightarrow> 'ct list \<Rightarrow> ('g, 'ct) prog" where
  "small_eval R C cc inputs =
     (if length inputs \<noteq> 1 then
        raise (Throw (Runtime_error ''small workload requires exactly 1 input ciphertext''))
      else
        let w = make_small_weights R in
        bind_p (ck_pack C cc w) (\<lambda>ptxt_w.
        bind_p (ck_mult_pt C cc (inputs ! 0) ptxt_w) (\<lambda>ct_prod.
        bind_p (ck_rescale C cc ct_prod) (\<lambda>ct_rescaled.
        ck_sum C cc ct_rescaled 32))))"

definition small_gen_keys :: "('g, 'cc, 'ct, 'pt, 'sk) ckks \<Rightarrow> 'cc \<Rightarrow> 'sk \<Rightarrow> ('g, unit) prog" where
  "small_gen_keys C cc kp = ck_sum_keygen C cc kp"

end
