(* ===== verification/Workloads_Matvec.thy ===== *)
theory Workloads_Matvec
  imports Workloads_Ckks
begin

text \<open>
  The matrix workloads: \<open>medium_matvec.cpp\<close>, \<open>app_matvec.cpp\<close> and the two-layer network of
  \<open>app_inference.cpp\<close>, all on the diagonal method.
\<close>

section \<open>The diagonal method\<close>

text \<open>
  One iteration of the loop over the diagonals: \<open>acc\<close> is an empty pointer before the first. The
  three workloads share the loop and differ in the diagonal.
\<close>

definition diag_step :: "('g, 'cc, 'ct, 'pt, 'sk) ckks \<Rightarrow> 'cc \<Rightarrow> 'ct \<Rightarrow> (nat \<Rightarrow> real list) \<Rightarrow> nat \<Rightarrow>
    'ct option \<Rightarrow> ('g, 'ct option) prog" where
  "diag_step C cc x diag d acc =
     bind_p (ck_pack C cc (diag d)) (\<lambda>ptxt_diag.
     bind_p (ck_rotate C cc x (int d)) (\<lambda>ct_rot.
     bind_p (ck_mult_pt C cc ct_rot ptxt_diag) (\<lambda>ct_term.
     if d = 0 then ret (Some ct_term)
     else case acc of
         None \<Rightarrow> raise (Ub ''null ciphertext'')
       | Some a \<Rightarrow> bind_p (ck_add C cc a ct_term) (\<lambda>s. ret (Some s)))))"

definition diag_sum :: "('g, 'cc, 'ct, 'pt, 'sk) ckks \<Rightarrow> 'cc \<Rightarrow> 'ct \<Rightarrow> (nat \<Rightarrow> real list) \<Rightarrow> nat \<Rightarrow>
    ('g, 'ct) prog" where
  "diag_sum C cc x diag n =
     bind_p (fold_p (diag_step C cc x diag) [0..<n] None) (\<lambda>acc.
     case acc of None \<Rightarrow> raise (Ub ''null ciphertext'') | Some a \<Rightarrow> ck_rescale C cc a)"

definition rot_keys :: "nat \<Rightarrow> int list" where
  "rot_keys n = map int [0..<n]"

text \<open>What the loop has after some diagonals, as a function of the slot.\<close>

definition partial_sums :: "(nat \<Rightarrow> real list) \<Rightarrow> real list \<Rightarrow> nat \<Rightarrow> real list" where
  "partial_sums diag v m =
     map (\<lambda>i. \<Sum>d<m. slot v (int i + int d) * diag d ! i) [0..<length v]"

lemma partial_sums_1:
  "length (diag 0) = length v \<Longrightarrow> vmul (rot 0 v) (diag 0) = partial_sums diag v (Suc 0)"
  by (rule nth_equalityI) (simp_all add: vmul_def rot_def partial_sums_def)

lemma partial_sums_Suc:
  "length (diag m) = length v \<Longrightarrow>
    vadd (partial_sums diag v m) (vmul (rot (int m) v) (diag m)) = partial_sums diag v (Suc m)"
  by (rule nth_equalityI) (simp_all add: vadd_def vmul_def rot_def partial_sums_def)

lemma diag_step_yields:
  assumes "fixed_manual C V cc g" and "encrypts V cc x v l 1" and "l < cp_depth (vs_params V cc)"
    and "length (diag d) = length v" and "int d \<in> vs_rotations V g"
    and "acc = None \<longleftrightarrow> d = 0"
    and "\<And>a. acc = Some a \<Longrightarrow> encrypts V cc a (partial_sums diag v d) l 2"
  shows "yields (diag_step C cc x diag d acc) g
    (\<lambda>r. \<exists>a. r = Some a \<and> encrypts V cc a (partial_sums diag v (Suc d)) l 2)"
  unfolding diag_step_def
proof (rule yields_bind [OF fm_pack [OF assms(1)]])
  show "length (diag d) = cp_batch (vs_params V cc)"
    using assms(2,4) by (simp add: carries_length(2))
next
  fix p
  assume p: "packs V cc p (diag d)"
  show "yields (bind_p (ck_rotate C cc x (int d)) (\<lambda>ct_rot. bind_p (ck_mult_pt C cc ct_rot p) (\<lambda>t.
      if d = 0 then ret (Some t) else case acc of None \<Rightarrow> raise (Ub ''null ciphertext'')
        | Some a \<Rightarrow> bind_p (ck_add C cc a t) (\<lambda>s. ret (Some s))))) g
    (\<lambda>r. \<exists>a. r = Some a \<and> encrypts V cc a (partial_sums diag v (Suc d)) l 2)"
  proof (rule yields_bind [OF fm_rotate [OF assms(1,2,5)]],
      rule yields_bind [OF fm_mult_pt [OF assms(1) _ p assms(3)]])
    fix t
    assume t: "encrypts V cc t (vmul (rot (int d) v) (diag d)) l 2"
    show "yields (if d = 0 then ret (Some t) else case acc of None \<Rightarrow> raise (Ub ''null ciphertext'')
        | Some a \<Rightarrow> bind_p (ck_add C cc a t) (\<lambda>s. ret (Some s))) g
      (\<lambda>r. \<exists>a. r = Some a \<and> encrypts V cc a (partial_sums diag v (Suc d)) l 2)"
    proof (cases acc)
      case None
      with assms(4,6) t partial_sums_1 [of diag v] show ?thesis by simp
    next
      case (Some a)
      with assms(6) have "d \<noteq> 0" by simp
      moreover have "yields (bind_p (ck_add C cc a t) (\<lambda>s. ret (Some s))) g
          (\<lambda>r. \<exists>a. r = Some a \<and> encrypts V cc a (partial_sums diag v (Suc d)) l 2)"
        by (rule yields_bind [OF fm_add [OF assms(1) assms(7) [OF Some] t]])
          (use assms(4) in \<open>simp add: partial_sums_Suc\<close>)
      ultimately show ?thesis by (simp add: Some)
    qed
  qed simp
qed

lemma diag_sum_yields:
  assumes "fixed_manual C V cc g" and "encrypts V cc x v l 1" and "l < cp_depth (vs_params V cc)"
    and "\<And>d. d < n \<Longrightarrow> length (diag d) = length v" and "set (rot_keys n) \<subseteq> vs_rotations V g"
    and "0 < n"
  shows "yields (diag_sum C cc x diag n) g
    (\<lambda>c. encrypts V cc c (partial_sums diag v n) (l + 1) 1)"
proof -
  let ?I = "\<lambda>ys acc. (acc = None \<longleftrightarrow> ys = ([] :: nat list)) \<and>
    (\<forall>a. acc = Some a \<longrightarrow> encrypts V cc a (partial_sums diag v (length ys)) l 2)"
  have "yields (fold_p (diag_step C cc x diag) [0..<n] None) g (?I [0..<n])"
  proof (rule yields_fold)
    fix ys d zs acc
    assume split: "[0..<n] = ys @ d # zs" and I: "?I ys acc"
    then have d: "d = length ys" "d < n"
      by (metis nth_append_length nth_upt length_append length_upt add_0 diff_zero
          less_add_same_cancel1 length_greater_0_conv list.distinct(1))+
    have "int d \<in> vs_rotations V g"
      using assms(5) d(2) by (force simp: rot_keys_def)
    from diag_step_yields [where diag = diag and acc = acc, OF assms(1-3) assms(4) [OF d(2)] this] I d
    show "yields (diag_step C cc x diag d acc) g (?I (ys @ [d]))"
      by (auto elim: yields_mono)
  qed simp
  then show ?thesis
    unfolding diag_sum_def
  proof (rule yields_bind)
    fix acc
    assume I: "?I [0..<n] acc"
    with assms(6) obtain a where "acc = Some a" "encrypts V cc a (partial_sums diag v n) l 2"
      by auto
    then show "yields (case acc of None \<Rightarrow> raise (Ub ''null ciphertext'') | Some a \<Rightarrow> ck_rescale C cc a)
        g (\<lambda>c. encrypts V cc c (partial_sums diag v n) (l + 1) 1)"
      using fm_rescale [OF assms(1) _ assms(3)] by simp
  qed
qed


section \<open>Square matrices\<close>

definition mat_vec :: "real list list \<Rightarrow> real list \<Rightarrow> real list" where
  "mat_vec W v = map (\<lambda>r. \<Sum>j<length r. r ! j * v ! j) W"

definition pad :: "nat \<Rightarrow> real list \<Rightarrow> real list" where
  "pad n v = v @ replicate (n - length v) 0"

lemma length_mat_vec [simp]: "length (mat_vec W v) = length W"
  by (simp add: mat_vec_def)

text \<open>
  The sum over the diagonals is the sum over the columns: each rotation meets each column once.
\<close>

lemma diagonal_row:
  assumes "i < length v"
  shows "(\<Sum>d<length v. slot v (int i + int d) * f ((i + d) mod length v)) =
    (\<Sum>j<length v. v ! j * f j)"
proof -
  have "slot v (int i + int d) = v ! ((i + d) mod length v)" for d
    using assms by (simp add: slot_def flip: zmod_int of_nat_add)
  with sum_cyclic [of "length v" "\<lambda>j. v ! j * f j" i] assms show ?thesis
    by (cases "v = []") auto
qed

definition square_diag :: "nat \<Rightarrow> real list list \<Rightarrow> nat \<Rightarrow> real list" where
  "square_diag n W d = map (\<lambda>i. W ! i ! ((i + d) mod n)) [0..<n]"

lemma partial_sums_square:
  assumes "length W = length v" and "\<And>r. r \<in> set W \<Longrightarrow> length r = length v"
  shows "partial_sums (square_diag (length v) W) v (length v) = mat_vec W v"
proof (rule nth_equalityI)
  fix i
  assume "i < length (partial_sums (square_diag (length v) W) v (length v))"
  then have "i < length v" by (simp add: partial_sums_def)
  with diagonal_row [of i v "\<lambda>j. W ! i ! j"] assms
  show "partial_sums (square_diag (length v) W) v (length v) ! i = mat_vec W v ! i"
    by (simp add: partial_sums_def square_diag_def mat_vec_def mult.commute)
qed (simp add: partial_sums_def assms)

definition medium_kN :: nat where "medium_kN = 64"

definition make_medium_matrix :: "('s, real) rng \<Rightarrow> real list list" where
  "make_medium_matrix R = fst (draw_rows (rg_next R) medium_kN medium_kN (rg_seed R 42))"

definition make_medium_context :: "('g, 'cc, 'ct, 'pt, 'sk) ckks \<Rightarrow> ('g, 'cc) prog" where
  "make_medium_context C =
     gen_context C (set_params 3 40 medium_kN FIXEDMANUAL HEStd_128_classic) leveled"

definition medium_eval :: "('s, real) rng \<Rightarrow> ('g, 'cc, 'ct, 'pt, 'sk) ckks \<Rightarrow> 'cc \<Rightarrow> 'ct list \<Rightarrow> ('g, 'ct) prog" where
  "medium_eval R C cc inputs =
     (if length inputs \<noteq> 1 then
        raise (Throw (Runtime_error ''medium workload requires exactly 1 input ciphertext''))
      else diag_sum C cc (inputs ! 0) (square_diag medium_kN (make_medium_matrix R)) medium_kN)"

definition medium_gen_keys :: "('g, 'cc, 'ct, 'pt, 'sk) ckks \<Rightarrow> 'cc \<Rightarrow> 'sk \<Rightarrow> ('g, unit) prog" where
  "medium_gen_keys C cc kp = ck_rotate_keygen C cc kp (rot_keys medium_kN)"

definition app_kN :: nat where "app_kN = 256"

definition make_app_matrix :: "('s, real) rng \<Rightarrow> real list list" where
  "make_app_matrix R = fst (draw_rows (rg_next R) app_kN app_kN (rg_seed R 42))"

definition make_app_matvec_context :: "('g, 'cc, 'ct, 'pt, 'sk) ckks \<Rightarrow> ('g, 'cc) prog" where
  "make_app_matvec_context C =
     gen_context C (set_params 4 50 app_kN FIXEDMANUAL HEStd_128_classic) leveled"

definition app_matvec_eval :: "('s, real) rng \<Rightarrow> ('g, 'cc, 'ct, 'pt, 'sk) ckks \<Rightarrow> 'cc \<Rightarrow> 'ct list \<Rightarrow> ('g, 'ct) prog" where
  "app_matvec_eval R C cc inputs =
     (if length inputs \<noteq> 1 then
        raise (Throw (Runtime_error ''app_matvec workload requires exactly 1 input ciphertext''))
      else diag_sum C cc (inputs ! 0) (square_diag app_kN (make_app_matrix R)) app_kN)"

definition app_matvec_gen_keys :: "('g, 'cc, 'ct, 'pt, 'sk) ckks \<Rightarrow> 'cc \<Rightarrow> 'sk \<Rightarrow> ('g, unit) prog" where
  "app_matvec_gen_keys C cc kp = ck_rotate_keygen C cc kp (rot_keys app_kN)"

text \<open>Both circuits compute the product, at the level of one rescaling.\<close>

lemma square_matvec_yields:
  assumes "fixed_manual C V cc g" and "encrypts V cc x v 0 1" and "0 < cp_depth (vs_params V cc)"
    and "length v = n" and "0 < n" and "length W = n" and "\<And>r. r \<in> set W \<Longrightarrow> length r = n"
    and "set (rot_keys n) \<subseteq> vs_rotations V g"
  shows "yields (diag_sum C cc x (square_diag n W) n) g (\<lambda>c. encrypts V cc c (mat_vec W v) 1 1)"
  using diag_sum_yields [OF assms(1-3), of n "square_diag n W"] partial_sums_square [of W v] assms(4-8)
  by (simp add: square_diag_def)

section \<open>The network\<close>

definition kInDim :: nat where "kInDim = 128"
definition kHidden :: nat where "kHidden = 64"
definition kOutDim :: nat where "kOutDim = 10"
definition mlp_kSlots :: nat where "mlp_kSlots = 128"

record mlp_weights =
  mlp_W1 :: "real list list"
  mlp_b1 :: "real list"
  mlp_W2 :: "real list list"
  mlp_b2 :: "real list"

definition make_mlp_weights :: "('s, real) rng \<Rightarrow> mlp_weights" where
  "make_mlp_weights R =
     (let (W1, s1) = draw_rows (rg_next R) kHidden kInDim (rg_seed R 42);
          (b1, s2) = draw_vec (rg_next R) kHidden s1;
          (W2, s3) = draw_rows (rg_next R) kOutDim kHidden s2;
          (b2, s4) = draw_vec (rg_next R) kOutDim s3
      in \<lparr>mlp_W1 = W1, mlp_b1 = b1, mlp_W2 = W2, mlp_b2 = b2\<rparr>)"

definition make_app_inference_context :: "('g, 'cc, 'ct, 'pt, 'sk) ckks \<Rightarrow> ('g, 'cc) prog" where
  "make_app_inference_context C =
     gen_context C (set_params 5 50 mlp_kSlots FIXEDMANUAL HEStd_128_classic) leveled"

definition embedded_diag :: "real list list \<Rightarrow> nat \<Rightarrow> nat \<Rightarrow> nat \<Rightarrow> real list" where
  "embedded_diag M rows cols d =
     map (\<lambda>i. let j = (i + d) mod mlp_kSlots in if i < rows \<and> j < cols then M ! i ! j else 0)
       [0..<mlp_kSlots]"

definition diagonal_matvec :: "('g, 'cc, 'ct, 'pt, 'sk) ckks \<Rightarrow> 'cc \<Rightarrow> 'ct \<Rightarrow> real list list \<Rightarrow> nat \<Rightarrow> nat \<Rightarrow>
    ('g, 'ct) prog" where
  "diagonal_matvec C cc x M rows cols =
     diag_sum C cc x (embedded_diag M rows cols) mlp_kSlots"

definition app_inference_eval :: "('s, real) rng \<Rightarrow> ('g, 'cc, 'ct, 'pt, 'sk) ckks \<Rightarrow> 'cc \<Rightarrow> 'ct list \<Rightarrow>
    ('g, 'ct) prog" where
  "app_inference_eval R C cc inputs =
     (if length inputs \<noteq> 1 then
        raise (Throw (Runtime_error ''app_inference workload requires exactly 1 input ciphertext''))
      else
        let w = make_mlp_weights R; x = inputs ! 0 in
        bind_p (diagonal_matvec C cc x (mlp_W1 w) kHidden kInDim) (\<lambda>t0.
        bind_p (ck_pack C cc (map (\<lambda>i. if i < kHidden then mlp_b1 w ! i else 0) [0..<mlp_kSlots])) (\<lambda>pt_b1.
        bind_p (ck_add_pt C cc t0 pt_b1) (\<lambda>t.
        bind_p (ck_pack C cc (replicate mlp_kSlots 1)) (\<lambda>pt_one.
        bind_p (ck_pack C cc (replicate mlp_kSlots (1/2))) (\<lambda>pt_half.
        bind_p (ck_add_pt C cc t pt_one) (\<lambda>one_plus_t.
        bind_p (ck_mult C cc t one_plus_t) (\<lambda>m1.
        bind_p (ck_rescale C cc m1) (\<lambda>t_times_1pt.
        bind_p (ck_mult_pt C cc t_times_1pt pt_half) (\<lambda>m2.
        bind_p (ck_rescale C cc m2) (\<lambda>act.
        bind_p (diagonal_matvec C cc act (mlp_W2 w) kOutDim kHidden) (\<lambda>out.
        bind_p (ck_pack C cc (map (\<lambda>i. if i < kOutDim then mlp_b2 w ! i else 0) [0..<mlp_kSlots])) (\<lambda>pt_b2.
        ck_add_pt C cc out pt_b2)))))))))))))"

definition app_inference_gen_keys :: "('g, 'cc, 'ct, 'pt, 'sk) ckks \<Rightarrow> 'cc \<Rightarrow> 'sk \<Rightarrow> ('g, unit) prog" where
  "app_inference_gen_keys C cc kp = ck_rotate_keygen C cc kp (rot_keys mlp_kSlots)"


text \<open>The function that the network is meant to compute.\<close>

definition quad_act :: "real \<Rightarrow> real" where
  "quad_act t = 1/2 * t * (1 + t)"

definition layer :: "real list list \<Rightarrow> real list \<Rightarrow> real list \<Rightarrow> real list" where
  "layer W b x = map2 (+) (mat_vec W x) b"

definition mlp :: "mlp_weights \<Rightarrow> real list \<Rightarrow> real list" where
  "mlp w x = layer (mlp_W2 w) (mlp_b2 w) (map quad_act (layer (mlp_W1 w) (mlp_b1 w) x))"

lemma pad_nth: "length v \<le> n \<Longrightarrow> i < n \<Longrightarrow> pad n v ! i = (if i < length v then v ! i else 0)"
  by (simp add: pad_def nth_append)

lemma length_pad [simp]: "length v \<le> n \<Longrightarrow> length (pad n v) = n"
  by (simp add: pad_def)

lemma pad_eq: "length v \<le> n \<Longrightarrow> pad n v = map (\<lambda>i. if i < length v then v ! i else 0) [0..<n]"
  by (rule nth_equalityI) (simp_all add: pad_nth)

lemma pad_bias:
  assumes "length a = k" and "length b = k" and "k \<le> n"
  shows "vadd (pad n a) (map (\<lambda>i. if i < k then b ! i else 0) [0..<n]) = pad n (map2 (+) a b)"
  by (rule nth_equalityI) (use assms in \<open>simp_all add: vadd_def pad_nth\<close>)

lemma pad_act:
  assumes "length a \<le> n"
  shows "vmul (vmul (pad n a) (vadd (pad n a) (replicate n 1))) (replicate n (1/2)) =
    pad n (map quad_act a)"
  by (rule nth_equalityI) (use assms in \<open>simp_all add: vadd_def vmul_def pad_nth quad_act_def\<close>)

lemma mat_vec_pad:
  assumes "\<And>r. r \<in> set W \<Longrightarrow> length r = length x" and "length x \<le> n"
  shows "mat_vec W (pad n x) = mat_vec W x"
  unfolding mat_vec_def
  by (intro list.map_cong0 sum.cong) (use assms in \<open>simp_all add: pad_nth\<close>)

lemma partial_sums_embedded:
  assumes "length v = mlp_kSlots" and "length M = rows" and "rows \<le> mlp_kSlots"
    and "cols \<le> mlp_kSlots" and "\<And>r. r \<in> set M \<Longrightarrow> length r = cols"
  shows "partial_sums (embedded_diag M rows cols) v mlp_kSlots = pad mlp_kSlots (mat_vec M v)"
proof (rule nth_equalityI)
  fix i
  assume "i < length (partial_sums (embedded_diag M rows cols) v mlp_kSlots)"
  then have i: "i < mlp_kSlots" by (simp add: partial_sums_def assms(1))
  let ?f = "\<lambda>j. if i < rows \<and> j < cols then M ! i ! j else 0"
  have "(\<Sum>d<mlp_kSlots. slot v (int i + int d) * ?f ((i + d) mod mlp_kSlots)) =
      (\<Sum>j<mlp_kSlots. v ! j * ?f j)"
    by (rule diagonal_row [of i v ?f, unfolded assms(1), OF i])
  also have "\<dots> = (if i < rows then \<Sum>j<cols. M ! i ! j * v ! j else 0)"
  proof (cases "i < rows")
    case True
    have "(\<Sum>j<mlp_kSlots. v ! j * ?f j) = (\<Sum>j\<in>{..<mlp_kSlots}. if j < cols then M ! i ! j * v ! j else 0)"
      using True by (intro sum.cong) simp_all
    also have "\<dots> = (\<Sum>j\<in>{j \<in> {..<mlp_kSlots}. j < cols}. M ! i ! j * v ! j)"
      by (rule sum.inter_filter [symmetric]) simp
    also have "{j \<in> {..<mlp_kSlots}. j < cols} = {..<cols}"
      using assms(4) by auto
    finally show ?thesis using True by simp
  qed simp
  finally show "partial_sums (embedded_diag M rows cols) v mlp_kSlots ! i =
      pad mlp_kSlots (mat_vec M v) ! i"
    using i assms
    by (simp add: partial_sums_def embedded_diag_def pad_nth Let_def mat_vec_def cong: if_cong)
qed (use assms in \<open>simp add: partial_sums_def\<close>)

lemma diagonal_matvec_yields:
  assumes "fixed_manual C V cc g" and "encrypts V cc x v l 1" and "l < cp_depth (vs_params V cc)"
    and "length v = mlp_kSlots" and "set (rot_keys mlp_kSlots) \<subseteq> vs_rotations V g"
    and "length M = rows" and "rows \<le> mlp_kSlots" and "cols \<le> mlp_kSlots"
    and "\<And>r. r \<in> set M \<Longrightarrow> length r = cols"
  shows "yields (diagonal_matvec C cc x M rows cols) g
    (\<lambda>c. encrypts V cc c (pad mlp_kSlots (mat_vec M v)) (l + 1) 1)"
  using diag_sum_yields [OF assms(1-3), of mlp_kSlots "embedded_diag M rows cols"]
    partial_sums_embedded [of v M rows cols] assms(4-9)
  by (simp add: diagonal_matvec_def embedded_diag_def mlp_kSlots_def)


lemma mlp_weights_shape:
  "length (mlp_W1 (make_mlp_weights R)) = kHidden" "length (mlp_b1 (make_mlp_weights R)) = kHidden"
  "length (mlp_W2 (make_mlp_weights R)) = kOutDim" "length (mlp_b2 (make_mlp_weights R)) = kOutDim"
  "r \<in> set (mlp_W1 (make_mlp_weights R)) \<Longrightarrow> length r = kInDim"
  "r \<in> set (mlp_W2 (make_mlp_weights R)) \<Longrightarrow> length r = kHidden"
proof -
  obtain W1 s1 where 1: "draw_rows (rg_next R) kHidden kInDim (rg_seed R 42) = (W1, s1)"
    by (cases "draw_rows (rg_next R) kHidden kInDim (rg_seed R 42)")
  obtain b1 s2 where 2: "draw_vec (rg_next R) kHidden s1 = (b1, s2)"
    by (cases "draw_vec (rg_next R) kHidden s1")
  obtain W2 s3 where 3: "draw_rows (rg_next R) kOutDim kHidden s2 = (W2, s3)"
    by (cases "draw_rows (rg_next R) kOutDim kHidden s2")
  obtain b2 s4 where 4: "draw_vec (rg_next R) kOutDim s3 = (b2, s4)"
    by (cases "draw_vec (rg_next R) kOutDim s3")
  have w: "make_mlp_weights R = \<lparr>mlp_W1 = W1, mlp_b1 = b1, mlp_W2 = W2, mlp_b2 = b2\<rparr>"
    by (simp add: make_mlp_weights_def 1 2 3 4)
  show "length (mlp_W1 (make_mlp_weights R)) = kHidden" "length (mlp_b1 (make_mlp_weights R)) = kHidden"
    "length (mlp_W2 (make_mlp_weights R)) = kOutDim" "length (mlp_b2 (make_mlp_weights R)) = kOutDim"
    using draw_rows_length [of "rg_next R" kHidden kInDim "rg_seed R 42"]
      draw_vec_length [of "rg_next R" kHidden s1] draw_rows_length [of "rg_next R" kOutDim kHidden s2]
      draw_vec_length [of "rg_next R" kOutDim s3] by (simp_all add: w 1 2 3 4)
  show "r \<in> set (mlp_W1 (make_mlp_weights R)) \<Longrightarrow> length r = kInDim"
    "r \<in> set (mlp_W2 (make_mlp_weights R)) \<Longrightarrow> length r = kHidden"
    using draw_rows_cols [of r "rg_next R" kHidden kInDim "rg_seed R 42"]
      draw_rows_cols [of r "rg_next R" kOutDim kHidden s2] by (simp_all add: w 1 3)
qed

lemma mlp_dims: "kHidden \<le> mlp_kSlots" "kInDim = mlp_kSlots" "kOutDim \<le> mlp_kSlots" "0 < mlp_kSlots"
  by (simp_all add: kHidden_def kInDim_def kOutDim_def mlp_kSlots_def)

lemma app_inference_yields:
  assumes "fixed_manual C V cc g" and "encrypts V cc x v 0 1" and "vs_mult V g"
    and ps: "cp_batch (vs_params V cc) = mlp_kSlots" "3 < cp_depth (vs_params V cc)"
    and "set (rot_keys mlp_kSlots) \<subseteq> vs_rotations V g"
  shows "yields (app_inference_eval R C cc [x]) g
    (\<lambda>c. encrypts V cc c (pad mlp_kSlots (mlp (make_mlp_weights R) v)) 4 1)"
proof -
  let ?w = "make_mlp_weights R" and ?n = mlp_kSlots
  let ?h = "layer (mlp_W1 ?w) (mlp_b1 ?w) v"
  note fm = assms(1) and shape = mlp_weights_shape and dims = mlp_dims
  have v: "length v = ?n" using carries_length(2) [OF assms(2)] ps by simp
  have h: "length ?h = kHidden" by (simp add: layer_def shape)
  have b1: "vadd (pad ?n (mat_vec (mlp_W1 ?w) v))
      (map (\<lambda>i. if i < kHidden then mlp_b1 ?w ! i else 0) [0..<?n]) = pad ?n ?h"
    unfolding layer_def by (rule pad_bias) (simp_all add: shape dims)
  have act: "vmul (vmul (pad ?n ?h) (vadd (pad ?n ?h) (replicate ?n 1))) (replicate ?n (1/2)) =
      pad ?n (map quad_act ?h)"
    by (rule pad_act) (simp add: h dims)
  have "mat_vec (mlp_W2 ?w) (pad ?n (map quad_act ?h)) = mat_vec (mlp_W2 ?w) (map quad_act ?h)"
    by (rule mat_vec_pad) (simp_all add: h dims shape)
  then have b2: "vadd (pad ?n (mat_vec (mlp_W2 ?w) (pad ?n (map quad_act ?h))))
      (map (\<lambda>i. if i < kOutDim then mlp_b2 ?w ! i else 0) [0..<?n]) = pad ?n (mlp ?w v)"
    unfolding mlp_def layer_def [of "mlp_W2 ?w"] by (simp add: pad_bias shape dims)
  show ?thesis
    unfolding app_inference_eval_def Let_def
    apply (simp del: One_nat_def add: v)
    apply (rule yields_bind [OF diagonal_matvec_yields [OF fm assms(2) _ v assms(6)]])
         apply (use ps in \<open>simp_all add: shape dims del: One_nat_def\<close>)
    apply (rule yields_bind [OF fm_pack [OF fm]], simp add: ps)
    apply (rule yields_bind [OF fm_add_pt [OF fm]], assumption, assumption)
    apply (simp only: b1)
    apply (rule yields_bind [OF fm_pack [OF fm]], simp add: ps)
    apply (rule yields_bind [OF fm_pack [OF fm]], simp add: ps)
    apply (rule yields_bind [OF fm_add_pt [OF fm]], assumption, assumption)
    apply (rule yields_bind [OF fm_mult [OF fm]], assumption, assumption, use ps assms(3) in simp, use assms(3) in simp)
    apply (rule yields_bind [OF fm_rescale [OF fm]], assumption, use ps in simp)
    apply (rule yields_bind [OF fm_mult_pt [OF fm]], assumption, assumption, use ps in simp)
    apply (rule yields_bind [OF fm_rescale [OF fm]], assumption, use ps in simp)
    apply (simp only: act)
    apply (rule yields_bind [OF diagonal_matvec_yields [OF fm]], assumption)
          apply (use ps h assms(6) in \<open>simp_all add: shape dims\<close>)
    apply (rule yields_bind [OF fm_pack [OF fm]], simp add: ps)
    apply (rule yields_mono [OF fm_add_pt [OF fm]], simp, assumption)
    apply (simp add: b2 eval_nat_numeral)
    done
qed

end
