(* ===== verification/Batch_Layout.thy ===== *)
theory Batch_Layout
  imports Slots
begin

text \<open>
  How the logistic regression lays a batch out in slots: row after row. A matrix fills all slots;
  labels and errors sit at the heads of the rows; weights are repeated in every row. The sums that
  the circuit forms by windows, along a row, back over a row, and down the columns, are sums over
  rows and columns of the matrix.
\<close>

definition matrix_slots :: "nat \<Rightarrow> nat \<Rightarrow> (nat \<Rightarrow> nat \<Rightarrow> 'a) \<Rightarrow> 'a list" where
  "matrix_slots rows cols M = map (\<lambda>i. M (i div cols) (i mod cols)) [0..<rows * cols]"

definition head_slots :: "nat \<Rightarrow> nat \<Rightarrow> (nat \<Rightarrow> 'a::zero) \<Rightarrow> 'a list" where
  "head_slots rows cols y = map (\<lambda>i. if i mod cols = 0 then y (i div cols) else 0) [0..<rows * cols]"

definition repeat_slots :: "nat \<Rightarrow> nat \<Rightarrow> (nat \<Rightarrow> 'a) \<Rightarrow> 'a list" where
  "repeat_slots rows cols w = map (\<lambda>i. w (i mod cols)) [0..<rows * cols]"

lemma length_layout [simp]:
  "length (matrix_slots rows cols M) = rows * cols" "length (head_slots rows cols y) = rows * cols"
  "length (repeat_slots rows cols w) = rows * cols"
  by (simp_all add: matrix_slots_def head_slots_def repeat_slots_def)

lemma matrix_slots_cong:
  assumes "\<And>r k. r < rows \<Longrightarrow> k < cols \<Longrightarrow> M r k = M' r k"
  shows "matrix_slots rows cols M = matrix_slots rows cols M'"
  unfolding matrix_slots_def
  by (intro map_cong refl assms) (cases "cols = 0"; simp add: less_mult_imp_div_less)+

lemma repeat_slots_matrix: "repeat_slots rows cols w = matrix_slots rows cols (\<lambda>_. w)"
  by (simp add: repeat_slots_def matrix_slots_def)

lemma head_slots_matrix:
  "head_slots rows cols y = matrix_slots rows cols (\<lambda>r k. if k = 0 then y r else 0)"
  by (simp add: head_slots_def matrix_slots_def)

lemma slots_matrix:
  "length v = rows * cols \<Longrightarrow> v = matrix_slots rows cols (\<lambda>r k. v ! (r * cols + k))"
  by (rule nth_equalityI) (simp_all add: matrix_slots_def)

text \<open>Slotwise operations act on the matrices.\<close>

lemma matrix_slots_ops:
  "vadd (matrix_slots rows cols M) (matrix_slots rows cols L) = matrix_slots rows cols (\<lambda>r k. M r k + L r k)"
  "vsub (matrix_slots rows cols A) (matrix_slots rows cols B) = matrix_slots rows cols (\<lambda>r k. A r k - B r k)"
  "vmul (matrix_slots rows cols S) (matrix_slots rows cols T) = matrix_slots rows cols (\<lambda>r k. S r k * T r k)"
  "map f (matrix_slots rows cols N) = matrix_slots rows cols (\<lambda>r k. f (N r k))"
  by (rule nth_equalityI; simp add: vadd_def vsub_def vmul_def matrix_slots_def)+

lemma nat_mod_int: "nat (int i mod int n) = i mod n"
  by (simp flip: zmod_int)

lemma slot_matrix:
  assumes "0 < rows" and "k < cols"
  shows "slot (matrix_slots rows cols M) (int (r * cols + k)) = M (r mod rows) k"
proof -
  let ?i = "r * cols + k"
  have pos: "0 < cols" using assms(2) by simp
  have i: "?i mod (cols * rows) = cols * (r mod rows) + k"
    using assms(2) by (simp add: mod_mult2_eq)
  have "slot (matrix_slots rows cols M) (int ?i) =
      (\<lambda>j. M (j div cols) (j mod cols)) (?i mod (cols * rows))"
    unfolding matrix_slots_def using assms pos
    by (subst slot_map) (simp_all add: nat_mod_int mult.commute [of rows] del: of_nat_mult of_nat_add)
  also have "\<dots> = M (r mod rows) k"
    using assms(2) pos by (simp add: i)
  finally show ?thesis .
qed

section \<open>Sums over rows and columns\<close>

lemma row_window:
  assumes "r < rows" and "0 < cols"
  shows "window 1 cols (matrix_slots rows cols M) ! (r * cols) = (\<Sum>k<cols. M r k)"
proof -
  have "r * cols < rows * cols" using assms by simp
  then have "window 1 cols (matrix_slots rows cols M) ! (r * cols) =
      (\<Sum>k<cols. slot (matrix_slots rows cols M) (int (r * cols + k)))"
    by (simp add: window_def)
  also have "\<dots> = (\<Sum>k<cols. M r k)"
    using assms by (intro sum.cong refl, subst slot_matrix) auto
  finally show ?thesis .
qed

lemma col_window:
  assumes "0 < rows" and "0 < cols"
  shows "window (int cols) rows (matrix_slots rows cols M) =
    repeat_slots rows cols (\<lambda>k. \<Sum>r<rows. M r k)"
proof (rule nth_equalityI)
  fix i
  assume "i < length (window (int cols) rows (matrix_slots rows cols M))"
  then have i: "i < rows * cols" by simp
  have "slot (matrix_slots rows cols M) (int i + int cols * int d) = M ((i div cols + d) mod rows) (i mod cols)" for d
  proof -
    have "int i + int cols * int d = int ((i div cols + d) * cols + i mod cols)"
      by (simp add: algebra_simps flip: of_nat_mult of_nat_add)
    then show ?thesis
      using slot_matrix [of rows "i mod cols" cols M "i div cols + d"] assms by simp
  qed
  then show "window (int cols) rows (matrix_slots rows cols M) ! i =
      repeat_slots rows cols (\<lambda>k. \<Sum>r<rows. M r k) ! i"
    using i sum_cyclic [of rows "\<lambda>r. M r (i mod cols)" "i div cols"] assms
    by (simp add: window_def repeat_slots_def)
qed simp

lemma head_window:
  assumes "0 < rows" and "0 < cols"
  shows "window (-1) cols (head_slots rows cols y) = matrix_slots rows cols (\<lambda>r _. y r)"
proof (rule nth_equalityI)
  fix i
  assume "i < length (window (- 1) cols (head_slots rows cols y))"
  then have i: "i < rows * cols" by simp
  let ?H = "matrix_slots rows cols (\<lambda>r k. if k = 0 then y r else 0)"
  have "slot ?H (int i - int d) = (if d = i mod cols then y (i div cols) else 0)" if "d < cols" for d
  proof (cases "d \<le> i mod cols")
    case True
    then have "i = (i div cols) * cols + (i mod cols - d) + d"
      using div_mult_mod_eq [of i cols] by linarith
    then have "int i - int d = int ((i div cols) * cols + (i mod cols - d))"
      by linarith
    then have "slot ?H (int i - int d) = slot ?H (int ((i div cols) * cols + (i mod cols - d)))"
      by (simp only:)
    also have "\<dots> = (if i mod cols - d = 0 then y ((i div cols) mod rows) else 0)"
      using assms by (intro slot_matrix less_imp_diff_less mod_less_divisor)
    also have "\<dots> = (if d = i mod cols then y (i div cols) else 0)"
      using True less_mult_imp_div_less [OF i] by auto
    finally show ?thesis .
  next
    case False
    let ?q = "i mod cols + cols - d"
    have q: "0 < ?q" "?q < cols" using False that by auto
    have "i + rows * cols = (i div cols + (rows - 1)) * cols + ?q + d"
      using assms that div_mult_mod_eq [of i cols] by (cases rows) (simp_all add: algebra_simps)
    then have e: "int i - int d + int (rows * cols) = int ((i div cols + (rows - 1)) * cols + ?q)"
      by linarith
    have "slot ?H (int i - int d) = slot ?H (int i - int d + int (rows * cols))"
      by (simp add: slot_def)
    also have "\<dots> = slot ?H (int ((i div cols + (rows - 1)) * cols + ?q))"
      by (simp only: e)
    also have "\<dots> = (if ?q = 0 then y ((i div cols + (rows - 1)) mod rows) else 0)"
      using assms(1) q(2) by (rule slot_matrix)
    also have "\<dots> = (if d = i mod cols then y (i div cols) else 0)"
      using q(1) False by auto
    finally show ?thesis .
  qed
  then have "(\<Sum>d<cols. slot ?H (int i - int d)) = (\<Sum>d<cols. if d = i mod cols then y (i div cols) else 0)"
    by (intro sum.cong) simp_all
  also have "\<dots> = y (i div cols)"
    using assms by simp
  finally show "window (-1) cols (head_slots rows cols y) ! i = matrix_slots rows cols (\<lambda>r _. y r) ! i"
    using i by (simp add: window_def head_slots_matrix [symmetric] matrix_slots_def)
qed simp

end
