(* ===== verification/Workload_Logreg.thy ===== *)
theory Workload_Logreg
  imports Workloads_Ckks Batch_Layout
begin

text \<open>
  The logistic regression of \<open>tee-vfhe\<close> (\<open>workloads/logistic_regression.cpp\<close>): training on packed
  batches of 128 rows with 256 columns, with sums over rows and columns by rotate-and-add.
\<close>

section \<open>Rotate and add\<close>

text \<open>The values of the variable of \<open>for (j = 1; j < n; j <<= 1)\<close>.\<close>

function doublings :: "nat \<Rightarrow> nat \<Rightarrow> nat list" where
  "doublings j n = (if 0 < j \<and> j < n then j # doublings (2 * j) n else [])"
  by pat_completeness auto

termination by (relation "measure (\<lambda>(j, n). n - j)") auto

declare doublings.simps [simp del]

lemma doublings_powers: "doublings (2 ^ a) (2 ^ (a + m)) = map (\<lambda>e. 2 ^ (a + e)) [0..<m]"
proof (induction m arbitrary: a)
  case 0
  show ?case by (subst doublings.simps) simp
next
  case (Suc m)
  have "(2::nat) ^ a < 2 ^ (a + Suc m)"
    by (rule power_strict_increasing) simp_all
  then have "doublings (2 ^ a) (2 ^ (a + Suc m)) = 2 ^ a # doublings (2 ^ Suc a) (2 ^ (Suc a + m))"
    by (subst doublings.simps) simp
  also have "\<dots> = 2 ^ a # map (\<lambda>e. 2 ^ (Suc a + e)) [0..<m]"
    by (simp only: Suc.IH)
  also have "\<dots> = map (\<lambda>e. 2 ^ (a + e)) [0..<Suc m]"
    by (rule nth_equalityI) (auto simp: nth_Cons' less_Suc_eq_0_disj simp del: upt_Suc)
  finally show ?case .
qed

text \<open>
  \<open>rotate_add C cc s j ct\<close>: \<open>auto rotated = cc->EvalRotate(ct, s * j); cc->EvalAddInPlace(ct, rotated)\<close>.
  The ciphertext that is changed in place is one the evaluation has made itself.
\<close>

definition rotate_add :: "('g, 'cc, 'ct, 'pt, 'sk) ckks \<Rightarrow> 'cc \<Rightarrow> int \<Rightarrow> nat \<Rightarrow> 'ct \<Rightarrow> ('g, 'ct) prog" where
  "rotate_add C cc s j ct =
     bind_p (ck_rotate C cc ct (s * int j)) (\<lambda>rotated. ck_add C cc ct rotated)"

lemma rotate_add_loop:
  assumes "flexible_auto C V cc g" and "carries V cc ct v l"
    and "\<And>e. e < m \<Longrightarrow> s * 2 ^ e \<in> vs_rotations V g"
  shows "yields (fold_p (rotate_add C cc s) (doublings 1 (2 ^ m)) ct) g
    (\<lambda>c. carries V cc c (window s (2 ^ m) v) l)"
proof -
  have *: "doublings 1 (2 ^ m) = map ((^) 2) [0..<m]"
    using doublings_powers [of 0 m] by simp
  have "yields (fold_p (rotate_add C cc s) (map ((^) 2) [0..<m]) ct) g
    (\<lambda>c. carries V cc c (window s (2 ^ length (map ((^) (2::nat)) [0..<m])) v) l)"
  proof (rule yields_fold [where I = "\<lambda>ys c. carries V cc c (window s (2 ^ length ys) v) l"])
    fix ys j zs c
    assume split: "map ((^) 2) [0..<m] = ys @ (j::nat) # zs"
      and c: "carries V cc c (window s (2 ^ length ys) v) l"
    have "length ys < m"
      using arg_cong [OF split, of length] by simp
    moreover from this have "j = 2 ^ length ys"
      using arg_cong [OF split, of "\<lambda>xs. xs ! length ys"] by (simp add: nth_append)
    ultimately have k: "s * int j \<in> vs_rotations V g" and j: "int j = 2 ^ length ys"
      using assms(3) [of "length ys"] by simp_all
    show "yields (rotate_add C cc s j c) g
        (\<lambda>c. carries V cc c (window s (2 ^ length (ys @ [j])) v) l)"
      unfolding rotate_add_def
    proof (rule yields_bind [OF fa_rotate [OF assms(1) c k]])
      fix r
      assume r: "carries V cc r (rot (s * int j) (window s (2 ^ length ys) v)) l"
      have "vadd (window s (2 ^ length ys) v) (rot (s * int j) (window s (2 ^ length ys) v)) =
          window s (2 ^ length (ys @ [j])) v"
        using window_double [of s "2 ^ length ys" v] by (simp add: j)
      with fa_add [OF assms(1) c r] show "yields (ck_add C cc c r) g
          (\<lambda>c. carries V cc c (window s (2 ^ length (ys @ [j])) v) l)" by simp
    qed
  qed (use assms(2) in \<open>simp add: window_1\<close>)
  then show ?thesis unfolding * by simp
qed

section \<open>Context and keys\<close>

definition lr_kRingDim :: nat where "lr_kRingDim = 65536"
definition lr_kBatchSize :: nat where "lr_kBatchSize = 32768"
definition lr_kMultDepth :: nat where "lr_kMultDepth = 22"
definition lr_kScaleModSize :: nat where "lr_kScaleModSize = 50"
definition lr_kFirstModSize :: nat where "lr_kFirstModSize = 55"
definition lr_kDigits :: nat where "lr_kDigits = 3"
definition lr_kRows :: nat where "lr_kRows = 128"
definition lr_kCols :: nat where "lr_kCols = 256"
definition lr_kNumIterations :: nat where "lr_kNumIterations = 2"
definition lr_kNumBatches :: nat where "lr_kNumBatches = 10"
definition lr_kNumInputs :: nat where "lr_kNumInputs = 21"

definition logistic_params :: cc_params where
  "logistic_params = (set_params lr_kMultDepth lr_kScaleModSize lr_kBatchSize FLEXIBLEAUTO HEStd_NotSet)
     \<lparr>cp_ring_dim := Some lr_kRingDim, cp_first_mod := Some lr_kFirstModSize,
      cp_key_switch := Some HYBRID, cp_digits := Some lr_kDigits,
      cp_secret_dist := Some SPARSE_TERNARY\<rparr>"

definition make_logistic_context :: "('g, 'cc, 'ct, 'pt, 'sk) ckks \<Rightarrow> ('g, 'cc) prog" where
  "make_logistic_context C = gen_context C logistic_params (leveled @ [ADVANCEDSHE, FHE])"

definition logistic_rotations :: "int list" where
  "logistic_rotations =
     concat (map (\<lambda>j. [int j, - int j]) (doublings 1 lr_kCols)) @
     map (\<lambda>j. int (j * lr_kCols)) (doublings 1 lr_kRows)"

definition logistic_gen_keys :: "('g, 'cc, 'ct, 'pt, 'sk) ckks \<Rightarrow> 'cc \<Rightarrow> 'sk \<Rightarrow> ('g, unit) prog" where
  "logistic_gen_keys C cc kp =
     bind_p (ck_mult_keygen C cc kp) (\<lambda>_.
     bind_p (ck_rotate_keygen C cc kp logistic_rotations) (\<lambda>_.
     bind_p (ck_boot_setup C cc [2, 2] [16, 16] lr_kCols) (\<lambda>_.
     ck_boot_keygen C cc kp lr_kCols)))"

section \<open>The circuit\<close>

definition row_accumulate :: "('g, 'cc, 'ct, 'pt, 'sk) ckks \<Rightarrow> 'cc \<Rightarrow> 'ct \<Rightarrow> ('g, 'ct) prog" where
  "row_accumulate C cc ct = fold_p (rotate_add C cc 1) (doublings 1 lr_kCols) ct"

definition row_propagate :: "('g, 'cc, 'ct, 'pt, 'sk) ckks \<Rightarrow> 'cc \<Rightarrow> 'ct \<Rightarrow> ('g, 'ct) prog" where
  "row_propagate C cc ct = fold_p (rotate_add C cc (-1)) (doublings 1 lr_kCols) ct"

definition col_accumulate :: "('g, 'cc, 'ct, 'pt, 'sk) ckks \<Rightarrow> 'cc \<Rightarrow> 'ct \<Rightarrow> ('g, 'ct) prog" where
  "col_accumulate C cc ct = fold_p (rotate_add C cc (int lr_kCols)) (doublings 1 lr_kRows) ct"

definition activation :: "('g, 'cc, 'ct, 'pt, 'sk) ckks \<Rightarrow> 'cc \<Rightarrow> 'ct \<Rightarrow> 'pt \<Rightarrow> 'pt \<Rightarrow> 'pt \<Rightarrow> ('g, 'ct) prog" where
  "activation C cc ct mask_0 mask_1 mask_3 =
     bind_p (ck_square C cc ct) (\<lambda>sq.
     bind_p (ck_mult_pt C cc ct mask_3) (\<lambda>aux.
     bind_p (ck_mult C cc sq aux) (\<lambda>ct3.
     bind_p (ck_mult_pt C cc ct mask_1) (\<lambda>ct1.
     bind_p (ck_add C cc ct1 ct3) (\<lambda>ct2.
     ck_add_pt C cc ct2 mask_0)))))"

definition lr_mask :: "real \<Rightarrow> real list" where
  "lr_mask x = x # replicate (lr_kCols - 1) 0"

definition lr_scale :: "nat \<Rightarrow> real" where
  "lr_scale iter = max (10 / (real iter + 1)) (5/1000) / real lr_kRows"

definition logistic_step :: "('g, 'cc, 'ct, 'pt, 'sk) ckks \<Rightarrow> 'cc \<Rightarrow> 'pt \<Rightarrow> 'pt \<Rightarrow> 'pt \<Rightarrow> 'ct list \<Rightarrow> nat \<Rightarrow>
    'ct \<Rightarrow> ('g, 'ct) prog" where
  "logistic_step C cc mask_0 mask_1 mask_3 inputs iter weights =
     (let data = inputs ! iter; labels = inputs ! (lr_kNumBatches + iter) in
      bind_p (ck_mult C cc data weights) (\<lambda>c0.
      bind_p (ck_relinearize C cc c0) (\<lambda>c1.
      bind_p (row_accumulate C cc c1) (\<lambda>c2.
      bind_p (activation C cc c2 mask_0 mask_1 mask_3) (\<lambda>c3.
      bind_p (ck_sub C cc c3 labels) (\<lambda>c4.
      bind_p (row_propagate C cc c4) (\<lambda>c5.
      bind_p (ck_mult_const C cc data (lr_scale iter)) (\<lambda>data_scaled.
      bind_p (ck_mult C cc c5 data_scaled) (\<lambda>c6.
      bind_p (ck_relinearize C cc c6) (\<lambda>c7.
      bind_p (col_accumulate C cc c7) (\<lambda>c8.
      ck_sub C cc weights c8)))))))))))"

definition logistic_eval :: "('g, 'cc, 'ct, 'pt, 'sk) ckks \<Rightarrow> 'cc \<Rightarrow> 'ct list \<Rightarrow> ('g, 'ct) prog" where
  "logistic_eval C cc inputs =
     (if length inputs \<noteq> lr_kNumInputs then
        raise (Throw (Runtime_error ''logistic-regression workload requires exactly 21 inputs''))
      else
        bind_p (ck_pack_slots C cc (lr_mask (1/2)) 1 0 lr_kCols) (\<lambda>mask_0.
        bind_p (ck_pack_slots C cc (lr_mask (15/100)) 1 0 lr_kCols) (\<lambda>mask_1.
        bind_p (ck_pack_slots C cc (lr_mask (-15/10000)) 1 0 lr_kCols) (\<lambda>mask_3.
        fold_p (logistic_step C cc mask_0 mask_1 mask_3 inputs) [0..<lr_kNumIterations] (inputs ! 20)))))"


section \<open>What it computes\<close>

text \<open>
  The layout of the batches with the dimensions of the workload, the cubic that stands for the
  logistic function, and one step of gradient descent on a batch.
\<close>

abbreviation "batch_slots \<equiv> matrix_slots lr_kRows lr_kCols"
abbreviation "column_slots \<equiv> head_slots lr_kRows lr_kCols"
abbreviation "weight_slots \<equiv> repeat_slots lr_kRows lr_kCols"

definition cubic :: "real \<Rightarrow> real" where
  "cubic x = 1/2 + 15/100 * x - 15/10000 * x ^ 3"

definition descend :: "real \<Rightarrow> (nat \<Rightarrow> nat \<Rightarrow> real) \<Rightarrow> (nat \<Rightarrow> real) \<Rightarrow> (nat \<Rightarrow> real) \<Rightarrow> nat \<Rightarrow> real" where
  "descend scale M y w k =
     w k - (\<Sum>r<lr_kRows. (cubic (\<Sum>j<lr_kCols. M r j * w j) - y r) * (scale * M r k))"

fun train :: "(nat \<Rightarrow> nat \<Rightarrow> nat \<Rightarrow> real) \<Rightarrow> (nat \<Rightarrow> nat \<Rightarrow> real) \<Rightarrow> (nat \<Rightarrow> real) \<Rightarrow> nat \<Rightarrow> nat \<Rightarrow> real" where
  "train M y w 0 = w"
| "train M y w (Suc n) = descend (lr_scale n) (M n) (y n) (train M y w n)"

lemma lr_dims: "lr_kBatchSize = lr_kRows * lr_kCols" "0 < lr_kRows" "0 < lr_kCols"
  "lr_kCols = 2 ^ 8" "lr_kRows = 2 ^ 7" "lr_kCols dvd lr_kBatchSize"
  by (simp_all add: lr_kBatchSize_def lr_kRows_def lr_kCols_def)

lemma lr_mask_length [simp]: "length (lr_mask x) = lr_kCols"
  using lr_dims(3) by (simp add: lr_mask_def)

lemma mask_slots: "repeated lr_kCols lr_kBatchSize (lr_mask x) = column_slots (\<lambda>_. x)"
  by (rule nth_equalityI) (use lr_dims(3) in \<open>simp_all add: repeated_def lr_dims(1) head_slots_def lr_mask_def
    nth_Cons' nth_replicate less_diff_conv2\<close>)

lemma logistic_rotations_cover:
  "e < 8 \<Longrightarrow> 1 * 2 ^ e \<in> set logistic_rotations" "e < 8 \<Longrightarrow> -1 * 2 ^ e \<in> set logistic_rotations"
  "e < 7 \<Longrightarrow> int lr_kCols * 2 ^ e \<in> set logistic_rotations"
proof -
  have *: "doublings 1 lr_kCols = map ((^) 2) [0..<8]" "doublings 1 lr_kRows = map ((^) 2) [0..<7]"
    using doublings_powers [of 0 8] doublings_powers [of 0 7] by (simp_all add: lr_dims(4,5))
  show "e < 8 \<Longrightarrow> 1 * 2 ^ e \<in> set logistic_rotations"
    "e < 8 \<Longrightarrow> -1 * 2 ^ e \<in> set logistic_rotations"
    "e < 7 \<Longrightarrow> int lr_kCols * 2 ^ e \<in> set logistic_rotations"
    unfolding logistic_rotations_def * by (force simp: mult.commute)+
qed

text \<open>The context and the keys that the circuit needs.\<close>

definition circuit_ready :: "('g, 'cc, 'ct, 'pt, 'sk) ckks \<Rightarrow> ('g, 'cc, 'ct, 'pt) view \<Rightarrow> 'cc \<Rightarrow> 'g \<Rightarrow> bool" where
  "circuit_ready C V cc g \<longleftrightarrow> flexible_auto C V cc g \<and> vs_params V cc = logistic_params \<and> vs_mult V g"

lemma circuit_readyD:
  assumes "circuit_ready C V cc g"
  shows "flexible_auto C V cc g" "vs_mult V g" "cp_batch (vs_params V cc) = lr_kBatchSize"
    "cp_depth (vs_params V cc) = lr_kMultDepth"
  using assms by (simp_all add: circuit_ready_def logistic_params_def set_params_def)

definition logistic_ready :: "('g, 'cc, 'ct, 'pt, 'sk) ckks \<Rightarrow> ('g, 'cc, 'ct, 'pt) view \<Rightarrow> 'cc \<Rightarrow> 'g \<Rightarrow> bool" where
  "logistic_ready C V cc g \<longleftrightarrow> circuit_ready C V cc g \<and> set logistic_rotations \<subseteq> vs_rotations V g"

lemma logistic_readyD:
  assumes "logistic_ready C V cc g"
  shows "flexible_auto C V cc g" "vs_mult V g" "cp_batch (vs_params V cc) = lr_kBatchSize"
    "cp_depth (vs_params V cc) = lr_kMultDepth" "set logistic_rotations \<subseteq> vs_rotations V g"
    "circuit_ready C V cc g"
  using assms by (auto simp: logistic_ready_def dest: circuit_readyD)

lemma accumulate_yields:
  assumes "logistic_ready C V cc g" and "carries V cc ct v l"
  shows "yields (row_accumulate C cc ct) g (\<lambda>c. carries V cc c (window 1 lr_kCols v) l)"
    and "yields (row_propagate C cc ct) g (\<lambda>c. carries V cc c (window (-1) lr_kCols v) l)"
    and "yields (col_accumulate C cc ct) g (\<lambda>c. carries V cc c (window (int lr_kCols) lr_kRows v) l)"
proof -
  note ready = logistic_readyD [OF assms(1)]
  show "yields (row_accumulate C cc ct) g (\<lambda>c. carries V cc c (window 1 lr_kCols v) l)"
    using rotate_add_loop [OF ready(1) assms(2), of 8 1] logistic_rotations_cover(1) ready(5)
    by (simp add: row_accumulate_def lr_dims(4) subset_iff)
  show "yields (row_propagate C cc ct) g (\<lambda>c. carries V cc c (window (-1) lr_kCols v) l)"
    using rotate_add_loop [OF ready(1) assms(2), of 8 "-1"] logistic_rotations_cover(2) ready(5)
    by (simp add: row_propagate_def lr_dims(4) subset_iff)
  show "yields (col_accumulate C cc ct) g (\<lambda>c. carries V cc c (window (int lr_kCols) lr_kRows v) l)"
    using rotate_add_loop [OF ready(1) assms(2), of 7 "int lr_kCols"] logistic_rotations_cover(3) ready(5)
    by (simp add: col_accumulate_def lr_dims(5) subset_iff)
qed


lemma slots_activation:
  assumes "length z = lr_kBatchSize"
  shows "vadd (vadd (vmul z (column_slots (\<lambda>_. 15/100)))
      (vmul (vmul z z) (vmul z (column_slots (\<lambda>_. -15/10000))))) (column_slots (\<lambda>_. 1/2)) =
    column_slots (\<lambda>r. cubic (z ! (r * lr_kCols)))"
proof -
  have z: "z = batch_slots (\<lambda>r k. z ! (r * lr_kCols + k))"
    using assms by (simp add: slots_matrix lr_dims(1))
  show ?thesis
    unfolding head_slots_matrix
    by (subst (1 2 3 4) z, unfold matrix_slots_ops, rule matrix_slots_cong)
      (simp add: cubic_def power3_eq_cube algebra_simps)
qed

lemma activation_yields:
  assumes "circuit_ready C V cc g" and "carries V cc ct z l" and "l + 1 < lr_kMultDepth"
    and "packs V cc m0 (column_slots (\<lambda>_. 1/2))" and "packs V cc m1 (column_slots (\<lambda>_. 15/100))"
    and "packs V cc m3 (column_slots (\<lambda>_. -15/10000))"
  shows "yields (activation C cc ct m0 m1 m3) g
    (\<lambda>c. carries V cc c (column_slots (\<lambda>r. cubic (z ! (r * lr_kCols)))) (l + 2))"
proof -
  note ready = circuit_readyD [OF assms(1)]
  have z: "length z = lr_kBatchSize"
    using carries_length(1) [OF assms(2)] ready(3) by simp
  have l: "l < cp_depth (vs_params V cc)" "l + 1 < cp_depth (vs_params V cc)"
    using assms(3) ready(4) by simp_all
  have lev: "max (l + 1) (max (l + 1) (l + 1) + 1) = l + 2" by simp
  show ?thesis
    unfolding activation_def
    apply (rule yields_bind [OF fa_square [OF ready(1) assms(2) l(1) ready(2)]])
    apply (rule yields_bind [OF fa_mult_pt [OF ready(1) assms(2,6) l(1)]])
    apply (rule yields_bind [OF fa_mult [OF ready(1)]], assumption, assumption, use l in simp,
        rule ready(2))
    apply (rule yields_bind [OF fa_mult_pt [OF ready(1) assms(2,5) l(1)]])
    apply (rule yields_bind [OF fa_add [OF ready(1)]], assumption, assumption)
    apply (rule yields_mono [OF fa_add_pt [OF ready(1)]], assumption, rule assms(4))
    apply (simp only: slots_activation [OF z] lev)
    done
qed

text \<open>One iteration of the training loop is one step of gradient descent, and spends four levels.\<close>

lemma slots_descend:
  fixes M y w s
  defines "E \<equiv> \<lambda>r. cubic (\<Sum>j<lr_kCols. M r j * w j) - y r"
  shows "vsub (column_slots (\<lambda>r. cubic (window 1 lr_kCols (vmul (batch_slots M) (weight_slots w)) !
      (r * lr_kCols)))) (column_slots y) = column_slots E"
    and "vsub (weight_slots w) (window (int lr_kCols) lr_kRows (vmul (window (-1) lr_kCols
      (column_slots E)) (map ((*) s) (batch_slots M)))) = weight_slots (descend s M y w)"
proof -
  have "cubic (window 1 lr_kCols (vmul (batch_slots M) (weight_slots w)) ! (r * lr_kCols)) - y r = E r"
    if "r < lr_kRows" for r
    unfolding repeat_slots_matrix matrix_slots_ops E_def
    by (simp only: row_window [OF that lr_dims(3)])
  then show "vsub (column_slots (\<lambda>r. cubic (window 1 lr_kCols (vmul (batch_slots M) (weight_slots w)) !
      (r * lr_kCols)))) (column_slots y) = column_slots E"
    unfolding head_slots_matrix matrix_slots_ops
    by (intro matrix_slots_cong) simp
  show "vsub (weight_slots w) (window (int lr_kCols) lr_kRows (vmul (window (-1) lr_kCols
      (column_slots E)) (map ((*) s) (batch_slots M)))) = weight_slots (descend s M y w)"
    by (simp only: head_window [OF lr_dims(2,3)] matrix_slots_ops col_window [OF lr_dims(2,3)]
        repeat_slots_matrix) (simp add: descend_def [abs_def] E_def)
qed

lemma logistic_step_yields:
  assumes "logistic_ready C V cc g" and "l + 3 < lr_kMultDepth" and "l0 \<le> l"
    and "packs V cc m0 (column_slots (\<lambda>_. 1/2))" and "packs V cc m1 (column_slots (\<lambda>_. 15/100))"
    and "packs V cc m3 (column_slots (\<lambda>_. -15/10000))"
    and "carries V cc (inputs ! iter) (batch_slots M) l0"
    and "carries V cc (inputs ! (lr_kNumBatches + iter)) (column_slots y) l0"
    and "carries V cc weights (weight_slots w) l"
  shows "yields (logistic_step C cc m0 m1 m3 inputs iter weights) g
    (\<lambda>c. carries V cc c (weight_slots (descend (lr_scale iter) M y w)) (l + 4))"
proof -
  note ready = logistic_readyD [OF assms(1)] and acc = accumulate_yields [OF assms(1)]
  have d: "max l0 l < cp_depth (vs_params V cc)" "l0 < cp_depth (vs_params V cc)"
    using assms(2,3) ready(4) by simp_all
  have lev: "max (max l0 l + 1 + 2) l0 = l + 3" "max l (max (l + 3) (l0 + 1) + 1) = l + 4"
    using assms(3) by simp_all
  show ?thesis
    unfolding logistic_step_def Let_def
    apply (rule yields_bind [OF fa_mult [OF ready(1) assms(7,9) d(1) ready(2)]])
    apply (rule yields_bind [OF fa_relinearize [OF ready(1) _ ready(2)]], assumption)
    apply (rule yields_bind [OF acc(1)], assumption)
    apply (rule yields_bind [OF activation_yields [OF ready(6) _ _ assms(4-6)]], assumption,
        use assms(2,3) in simp)
    apply (rule yields_bind [OF fa_sub [OF ready(1) _ assms(8)]], assumption)
    apply (simp only: slots_descend(1) lev)
    apply (rule yields_bind [OF acc(2)], assumption)
    apply (rule yields_bind [OF fa_mult_const [OF ready(1) assms(7) d(2)]])
    apply (rule yields_bind [OF fa_mult [OF ready(1)]], assumption, assumption,
        use assms(2,3) ready(4) in simp, rule ready(2))
    apply (rule yields_bind [OF fa_relinearize [OF ready(1) _ ready(2)]], assumption)
    apply (rule yields_bind [OF acc(3)], assumption)
    apply (rule yields_mono [OF fa_sub [OF ready(1) assms(9)]], assumption)
    apply (simp only: slots_descend(2) lev)
    done
qed


lemma mask_yields:
  assumes "circuit_ready C V cc g"
  shows "yields (ck_pack_slots C cc (lr_mask x) 1 0 lr_kCols) g
    (\<lambda>p. packs V cc p (column_slots (\<lambda>_. x)))"
  by (rule yields_mono [OF fa_pack [OF circuit_readyD(1) [OF assms]]])
    (simp_all add: circuit_readyD [OF assms] lr_dims(6) mask_slots)

definition batches :: "('g, 'cc, 'ct, 'pt) view \<Rightarrow> 'cc \<Rightarrow> 'ct list \<Rightarrow> (nat \<Rightarrow> nat \<Rightarrow> nat \<Rightarrow> real) \<Rightarrow>
    (nat \<Rightarrow> nat \<Rightarrow> real) \<Rightarrow> (nat \<Rightarrow> real) \<Rightarrow> nat \<Rightarrow> bool" where
  "batches V cc inputs M y w l0 \<longleftrightarrow> length inputs = lr_kNumInputs \<and>
     (\<forall>b<lr_kNumBatches. carries V cc (inputs ! b) (batch_slots (M b)) l0 \<and>
        carries V cc (inputs ! (lr_kNumBatches + b)) (column_slots (y b)) l0) \<and>
     carries V cc (inputs ! 20) (weight_slots w) l0"

text \<open>A loop whose body is a step of gradient descent trains.\<close>

lemma training_loop_yields:
  assumes step: "\<And>iter l w c. iter < lr_kNumBatches \<Longrightarrow> l0 \<le> l \<Longrightarrow> l + 3 < lr_kMultDepth \<Longrightarrow>
      carries V cc c (weight_slots w) l \<Longrightarrow> yields (step iter c) g (\<lambda>c. carries V cc c
        (weight_slots (descend (lr_scale iter) (M iter) (y iter) w)) (l + 4))"
    and "carries V cc c0 (weight_slots w) l0" and "l0 + 4 * lr_kNumIterations \<le> lr_kMultDepth"
  shows "yields (fold_p step [0..<lr_kNumIterations] c0) g
    (\<lambda>c. carries V cc c (weight_slots (train M y w lr_kNumIterations)) (l0 + 4 * lr_kNumIterations))"
proof -
  have "yields (fold_p step [0..<lr_kNumIterations] c0) g
      (\<lambda>c. carries V cc c (weight_slots (train M y w (length [0..<lr_kNumIterations])))
        (l0 + 4 * length [0..<lr_kNumIterations]))"
  proof (rule yields_fold [where I = "\<lambda>ys c. carries V cc c (weight_slots (train M y w (length ys)))
      (l0 + 4 * length ys)"])
    fix ys iter zs c
    assume split: "[0..<lr_kNumIterations] = ys @ iter # zs"
      and c: "carries V cc c (weight_slots (train M y w (length ys))) (l0 + 4 * length ys)"
    have ys: "length ys < lr_kNumIterations"
      using arg_cong [OF split, of length] by simp
    moreover from this have "iter = length ys"
      using arg_cong [OF split, of "\<lambda>xs. xs ! length ys"] by (simp add: nth_append)
    ultimately have it: "iter = length ys" "iter < lr_kNumBatches" "l0 + 4 * length ys + 3 < lr_kMultDepth"
      using assms(3) by (simp_all add: lr_kNumIterations_def lr_kNumBatches_def)
    from step [OF it(2) le_add1 it(3) c] show "yields (step iter c) g (\<lambda>c. carries V cc c
        (weight_slots (train M y w (length (ys @ [iter])))) (l0 + 4 * length (ys @ [iter])))"
      by (simp add: it(1) add_ac)
  qed (use assms(2) in simp)
  then show ?thesis by simp
qed

lemma logistic_eval_yields:
  assumes "logistic_ready C V cc g" and "batches V cc inputs M y w l0"
    and "l0 + 4 * lr_kNumIterations \<le> lr_kMultDepth"
  shows "yields (logistic_eval C cc inputs) g
    (\<lambda>c. carries V cc c (weight_slots (train M y w lr_kNumIterations)) (l0 + 4 * lr_kNumIterations))"
proof -
  note b = assms(2) [unfolded batches_def]
  have "yields (fold_p (logistic_step C cc m0 m1 m3 inputs) [0..<lr_kNumIterations] (inputs ! 20)) g
      (\<lambda>c. carries V cc c (weight_slots (train M y w lr_kNumIterations)) (l0 + 4 * lr_kNumIterations))"
    if m: "packs V cc m0 (column_slots (\<lambda>_. 1/2))" "packs V cc m1 (column_slots (\<lambda>_. 15/100))"
      "packs V cc m3 (column_slots (\<lambda>_. -15/10000))" for m0 m1 m3
    by (rule training_loop_yields [OF _ _ assms(3)])
      (use b in \<open>blast intro: logistic_step_yields [OF assms(1) _ _ m]\<close>)+
  then show ?thesis
    unfolding logistic_eval_def using b
    by (simp only: if_False simp_thms)
      (intro yields_bind [OF mask_yields [OF logistic_readyD(6) [OF assms(1)]]], blast)
qed

text \<open>The client's setup makes the context and the keys that the circuit needs.\<close>

definition logistic_workload :: "('g, 'cc, 'ct, 'pt, 'sk) ckks \<Rightarrow> ('g, 'cc, 'ct, 'sk) keyed_workload" where
  "logistic_workload C = \<lparr>wl_make_context = make_logistic_context C, wl_eval = logistic_eval C,
     wl_gen_keys = Some (logistic_gen_keys C)\<rparr>"

lemma logistic_setup_runs:
  assumes "ckks_works C V"
  shows "runs (client_setup C (logistic_workload C)) g (\<lambda>(cc, _) g'. logistic_ready C V cc g')"
proof -
  let ?fs = "leveled @ [ADVANCEDSHE, FHE]"
  note core = ckks_worksD(1) [OF assms]
  have keys: "runs (logistic_gen_keys C cc sk) h (\<lambda>_ h'. keeps V h h' \<and>
      set logistic_rotations \<subseteq> vs_rotations V h')" if r: "ready V cc logistic_params ?fs h" for cc sk h
  proof -
    have on: "KEYSWITCH \<in> vs_on V h' cc" "FHE \<in> vs_on V h' cc" if "keeps V h h'" for h'
      using ready_on [OF ready_keeps [OF r that]] by (simp_all add: leveled_def)
    show ?thesis
      unfolding logistic_gen_keys_def
      apply (rule runs_bind [OF ck_mult_keygen_runs [OF core]], rule on, simp)
      apply (rule runs_bind [OF ck_rotate_keygen_runs [OF core]], rule on, simp)
      apply (rule runs_bind [OF ck_boot_setup_runs [OF core]], rule on, blast intro: keeps_trans)
      apply (rule runs_mono [OF ck_boot_keygen_runs [OF assms]], rule on, blast intro: keeps_trans)
      apply (meson keeps_trans keeps_rotations)
      done
  qed
  have on: "PKE \<in> set ?fs" "KEYSWITCH \<in> set ?fs" "LEVELEDSHE \<in> set ?fs"
    by (simp_all add: leveled_def)
  have "runs (client_setup C (logistic_workload C)) g (\<lambda>(cc, _) g'.
      ready V cc logistic_params ?fs g' \<and> vs_mult V g' \<and> set logistic_rotations \<subseteq> vs_rotations V g')"
  proof (rule client_setup_runs [OF assms _ on(1,2)])
    show "wl_make_context (logistic_workload C) = gen_context C logistic_params ?fs"
      by (simp add: logistic_workload_def make_logistic_context_def)
  next
    fix h h'
    assume "set logistic_rotations \<subseteq> vs_rotations V h" and "keeps V h h'"
    then show "set logistic_rotations \<subseteq> vs_rotations V h'" by (blast dest: keepsD(4))
  next
    fix cc sk h gen_keys
    assume "wl_gen_keys (logistic_workload C) = Some gen_keys" and "ready V cc logistic_params ?fs h"
    with keys show "runs (gen_keys cc sk) h (\<lambda>_ h'. keeps V h h' \<and>
        set logistic_rotations \<subseteq> vs_rotations V h')"
      by (simp add: logistic_workload_def)
  qed (simp add: logistic_workload_def)
  then show ?thesis
  proof (rule runs_mono, clarify)
    fix cc kp h
    assume "ready V cc logistic_params ?fs h" "vs_mult V h" "set logistic_rotations \<subseteq> vs_rotations V h"
    with works_flexible [OF core ready_on [OF _ on(3)]] show "logistic_ready C V cc h"
      by (simp add: logistic_ready_def circuit_ready_def ready_def logistic_params_def set_params_def)
  qed
qed

end
