(* ===== verification/Client_Logreg.thy ===== *)
theory Client_Logreg
  imports Workload_Logreg
begin

text \<open>
  The client's side of the logistic regression: its inputs, read from the file, laid out and
  encrypted as the circuit expects them, and the training session as a whole.
\<close>

section \<open>The client's inputs\<close>

text \<open>
  The client encodes its vectors at level 13 with scale degree 2: fourteen levels are spent before
  the first product.
\<close>

definition encrypt_logreg_inputs :: "('g, 'cc, 'ct, 'pt, 'sk) ckks \<Rightarrow> 'cc \<Rightarrow> 'sk \<Rightarrow> real list list \<Rightarrow>
    ('g, 'ct list) prog" where
  "encrypt_logreg_inputs C cc kp vecs =
     for_p (\<lambda>vals. bind_p (ck_pack_at C cc vals 2 13) (\<lambda>pt. ck_encrypt C cc kp pt)) vecs"

definition gen_logreg_inputs :: "(string \<Rightarrow> real result) \<Rightarrow> string list list option \<Rightarrow>
    ('g, 'cc, 'ct, 'pt, 'sk) ckks \<Rightarrow> 'cc \<Rightarrow> 'sk \<Rightarrow> ('g, 'ct list) prog" where
  "gen_logreg_inputs stod csv C cc kp =
     bind_p (lift_p (logreg_vectors stod 0 csv)) (encrypt_logreg_inputs C cc kp)"

lemma lr_client_dims: "kRows = lr_kRows" "kCols = lr_kCols" "kNumBatches = lr_kNumBatches"
  "kSlots = lr_kRows * lr_kCols" "kNumFeatures < kCols"
  by (simp_all add: kRows_def kCols_def kNumBatches_def kSlots_def lr_kRows_def lr_kCols_def
      lr_kNumBatches_def kNumFeatures_def)

lemma length_concat_blocks:
  "(\<And>r. r < m \<Longrightarrow> length (f r) = n) \<Longrightarrow> length (concat (map f [0..<m])) = m * n"
  by (induction m) simp_all

lemma concat_blocks:
  "(\<And>r. r < m \<Longrightarrow> length (f r) = n) \<Longrightarrow> concat (map f [0..<m]) = matrix_slots m n (\<lambda>r k. f r ! k)"
proof (induction m)
  case (Suc m)
  then have len: "length (concat (map f [0..<m])) = m * n"
    by (intro length_concat_blocks) simp
  show ?case
  proof (rule nth_equalityI)
    fix i
    assume "i < length (concat (map f [0..<Suc m]))"
    then have i: "i < m * n + n" using len Suc.prems by simp
    show "concat (map f [0..<Suc m]) ! i = matrix_slots (Suc m) n (\<lambda>r k. f r ! k) ! i"
    proof (cases "i < m * n")
      case True
      with Suc show ?thesis by (simp add: nth_append len matrix_slots_def)
    next
      case False
      define j where "j = i - m * n"
      with False i have "i = m * n + j" "j < n" by simp_all
      then show ?thesis by (simp add: nth_append len matrix_slots_def)
    qed
  qed (use len Suc.prems in simp)
qed (simp add: matrix_slots_def)

lemma read_row_length: "read_row stod zero cells = Inr (feat, label) \<Longrightarrow> length feat = kCols"
  using lr_client_dims(5)
  by (auto simp: read_row_def bind_r_def less_imp_le dest!: map_r_eq_Inr_length split: sum.splits)

text \<open>What the client reads fills the slots the way the circuit reads them.\<close>

definition row_features :: "(real list \<times> real) list \<Rightarrow> nat \<Rightarrow> nat \<Rightarrow> nat \<Rightarrow> real" where
  "row_features rows b r k = fst (rows ! (b * lr_kRows + r)) ! k"

definition row_labels :: "(real list \<times> real) list \<Rightarrow> nat \<Rightarrow> nat \<Rightarrow> real" where
  "row_labels rows b r = snd (rows ! (b * lr_kRows + r))"

lemma client_vectors:
  assumes "\<And>i. i < length rows \<Longrightarrow> length (fst (rows ! i)) = kCols"
    and "lr_kNumBatches * lr_kRows \<le> length rows" and "b < lr_kNumBatches"
  shows "data_vector 0 rows b = batch_slots (row_features rows b)"
    and "label_vector 0 rows b = column_slots (row_labels rows b)"
proof -
  have "b * lr_kRows + r < length rows" if "r < lr_kRows" for r
  proof -
    have "b * lr_kRows + r < (b + 1) * lr_kRows" using that by simp
    also have "\<dots> \<le> lr_kNumBatches * lr_kRows" using assms(3) by (intro mult_le_mono1) simp
    finally show ?thesis using assms(2) by simp
  qed
  then show "data_vector 0 rows b = batch_slots (row_features rows b)"
    unfolding data_vector_def row_features_def lr_client_dims(1)
    by (intro concat_blocks) (simp add: assms(1) lr_client_dims)
  have "label_vector 0 rows b = batch_slots (\<lambda>r k. (row_labels rows b r # replicate (kCols - 1) 0) ! k)"
    unfolding label_vector_def row_labels_def lr_client_dims(1)
    by (intro concat_blocks) (simp add: lr_client_dims lr_kCols_def)
  also have "\<dots> = column_slots (row_labels rows b)"
    unfolding head_slots_matrix by (rule matrix_slots_cong) (simp add: nth_Cons' lr_client_dims)
  finally show "label_vector 0 rows b = column_slots (row_labels rows b)" .
qed


lemma logreg_inputs_yield:
  assumes "circuit_ready C V cc g" and "map_r (read_row stod 0) (take 1280 file_rows) = Inr rows"
    and "lr_kNumBatches * lr_kRows \<le> length rows"
  shows "yields (gen_logreg_inputs stod (Some file_rows) C cc kp) g
    (\<lambda>ins. batches V cc ins (row_features rows) (row_labels rows) (\<lambda>_. 0) 14)"
proof -
  let ?vecs = "map (data_vector 0 rows) [0..<lr_kNumBatches] @
    map (label_vector 0 rows) [0..<lr_kNumBatches] @ [replicate kSlots 0]"
  note ready = circuit_readyD [OF assms(1)]
  have rows: "length (fst (rows ! i)) = kCols" if "i < length rows" for i
    using map_r_eq_Inr_nth [OF assms(2), of i] map_r_eq_Inr_length [OF assms(2)] that
      read_row_length [of stod 0 _ "fst (rows ! i)" "snd (rows ! i)"] by simp
  note vecs = client_vectors [OF rows assms(3)]
  have zero: "replicate kSlots 0 = weight_slots (\<lambda>_. 0)"
    by (rule nth_equalityI) (simp_all add: lr_client_dims repeat_slots_def)
  have v: "logreg_vectors stod 0 (Some file_rows) = Inr ?vecs"
    using assms(2,3) by (simp add: logreg_vectors_def bind_r_def lr_client_dims not_less)
  have len: "length v = lr_kBatchSize" if "v \<in> set ?vecs" for v
    using that by (auto simp: vecs zero lr_dims(1))
  have "yields (encrypt_logreg_inputs C cc kp ?vecs) g (list_all2 (\<lambda>v c. carries V cc c v 14) ?vecs)"
    unfolding encrypt_logreg_inputs_def
  proof (rule yields_for, rule yields_bind [OF fa_pack_at [OF ready(1)]])
    fix v p
    assume "packs V cc p v \<and> vs_plain_level V p = 13 + 2 - 1"
    then show "yields (ck_encrypt C cc kp p) g (\<lambda>c. carries V cc c v 14)"
      using fa_encrypt [OF ready(1), of p v kp] by simp
  qed (use len ready(3,4) in \<open>simp_all add: lr_kMultDepth_def\<close>)
  then show ?thesis
    unfolding gen_logreg_inputs_def
  proof (intro yields_bind [where p = "lift_p _" and P = "\<lambda>vs. vs = ?vecs"], goal_cases)
    case 1
    show ?case by (simp add: yields_def v)
  next
    case (2 vs)
    from 2(1) show ?case
      unfolding 2(2)
    proof (rule yields_mono)
      fix ins
      assume L: "list_all2 (\<lambda>v c. carries V cc c v 14) ?vecs ins"
      have n: "lr_kNumInputs = 2 * lr_kNumBatches + 1" "lr_kNumBatches = 10"
        by (simp_all add: lr_kNumInputs_def lr_kNumBatches_def)
      have at: "carries V cc (ins ! i) (?vecs ! i) 14" if "i < lr_kNumInputs" for i
        using list_all2_nthD [OF L, of i] that n(1) by simp
      have "length ins = lr_kNumInputs"
        using list_all2_lengthD [OF L] n(1) by simp
      moreover have "carries V cc (ins ! b) (batch_slots (row_features rows b)) 14"
        "carries V cc (ins ! (lr_kNumBatches + b)) (column_slots (row_labels rows b)) 14"
        if "b < lr_kNumBatches" for b
        using at [of b] at [of "lr_kNumBatches + b"] that n(1) by (simp_all add: nth_append vecs)
      moreover have "carries V cc (ins ! 20) (weight_slots (\<lambda>_. 0)) 14"
        using at [of 20] by (simp add: nth_append zero n)
      ultimately show "batches V cc ins (row_features rows) (row_labels rows) (\<lambda>_. 0) 14"
        by (simp add: batches_def)
    qed
  qed
qed

text \<open>The training session: setup, encryption, evaluation.\<close>

definition training_session :: "(string \<Rightarrow> real result) \<Rightarrow> string list list option \<Rightarrow>
    ('g, 'cc, 'ct, 'pt, 'sk) ckks \<Rightarrow> ('g, 'ct) prog" where
  "training_session stod csv C =
     bind_p (client_setup C (logistic_workload C)) (\<lambda>(cc, kp).
     bind_p (gen_logreg_inputs stod csv C cc kp) (\<lambda>inputs.
     wl_eval (logistic_workload C) cc inputs))"

lemma training_session_runs:
  assumes "ckks_works C V" and "map_r (read_row stod 0) (take 1280 file_rows) = Inr rows"
    and "length rows = 1280"
  shows "runs (training_session stod (Some file_rows) C) g (\<lambda>out _.
    vs_slots V out = weight_slots (train (row_features rows) (row_labels rows) (\<lambda>_. 0) lr_kNumIterations) \<and>
    vs_level V out = lr_kMultDepth)"
  unfolding training_session_def
proof (rule runs_bind [OF logistic_setup_runs [OF assms(1)]], clarify)
  fix cc kp h
  assume r: "logistic_ready C V cc h"
  have rows: "lr_kNumBatches * lr_kRows \<le> length rows"
    by (simp add: assms(3) lr_kNumBatches_def lr_kRows_def)
  have lev: "14 + 4 * lr_kNumIterations = lr_kMultDepth"
    by (simp add: lr_kNumIterations_def lr_kMultDepth_def)
  have "yields (bind_p (gen_logreg_inputs stod (Some file_rows) C cc kp) (logistic_eval C cc)) h
    (\<lambda>c. carries V cc c (weight_slots (train (row_features rows) (row_labels rows) (\<lambda>_. 0)
      lr_kNumIterations)) (14 + 4 * lr_kNumIterations))"
    by (rule yields_bind [OF logreg_inputs_yield [OF logistic_readyD(6) [OF r] assms(2) rows]],
        rule logistic_eval_yields [OF r], assumption) (simp only: lev order_refl)
  then show "runs (bind_p (gen_logreg_inputs stod (Some file_rows) C cc kp)
      (wl_eval (logistic_workload C) cc)) h (\<lambda>out _.
    vs_slots V out = weight_slots (train (row_features rows) (row_labels rows) (\<lambda>_. 0) lr_kNumIterations) \<and>
    vs_level V out = lr_kMultDepth)"
    unfolding lev by (auto simp: logistic_workload_def carries_def elim: runs_mono [OF yields_runsD])
qed

end
