(* ===== verification/Workloads_Tee.thy ===== *)
theory Workloads_Tee
  imports Workloads_Matvec Client_Logreg
begin

text \<open>
  The registered workloads of \<open>tee-vfhe\<close>: what each file registers, and for each what its setup
  provides and its circuit computes.
\<close>

section \<open>Registrations\<close>

definition noop_workload :: "('g, 'cc, 'ct, 'pt, 'sk) ckks \<Rightarrow> ('g, 'cc, 'ct, 'sk) keyed_workload" where
  "noop_workload C = \<lparr>wl_make_context = make_noop_context C, wl_eval = noop_eval, wl_gen_keys = None\<rparr>"

definition toy_workload :: "('g, 'cc, 'ct, 'pt, 'sk) ckks \<Rightarrow> ('g, 'cc, 'ct, 'sk) keyed_workload" where
  "toy_workload C = \<lparr>wl_make_context = make_toy_context C, wl_eval = toy_eval C, wl_gen_keys = None\<rparr>"

definition micro_add_workload :: "('g, 'cc, 'ct, 'pt, 'sk) ckks \<Rightarrow> ('g, 'cc, 'ct, 'sk) keyed_workload" where
  "micro_add_workload C =
     \<lparr>wl_make_context = make_micro_add_context C, wl_eval = micro_add_eval C, wl_gen_keys = None\<rparr>"

definition micro_mul_workload :: "('g, 'cc, 'ct, 'pt, 'sk) ckks \<Rightarrow> ('g, 'cc, 'ct, 'sk) keyed_workload" where
  "micro_mul_workload C =
     \<lparr>wl_make_context = make_micro_mul_context C, wl_eval = micro_mul_eval C, wl_gen_keys = None\<rparr>"

definition micro_mul_rescale_workload :: "('g, 'cc, 'ct, 'pt, 'sk) ckks \<Rightarrow> ('g, 'cc, 'ct, 'sk) keyed_workload" where
  "micro_mul_rescale_workload C = \<lparr>wl_make_context = make_micro_mul_rescale_context C,
     wl_eval = micro_mul_rescale_eval C, wl_gen_keys = None\<rparr>"

definition micro_rotate_workload :: "('g, 'cc, 'ct, 'pt, 'sk) ckks \<Rightarrow> ('g, 'cc, 'ct, 'sk) keyed_workload" where
  "micro_rotate_workload C = \<lparr>wl_make_context = make_micro_rotate_context C,
     wl_eval = micro_rotate_eval C, wl_gen_keys = Some (micro_rotate_gen_keys C)\<rparr>"

definition small_workload :: "('s, real) rng \<Rightarrow> ('g, 'cc, 'ct, 'pt, 'sk) ckks \<Rightarrow> ('g, 'cc, 'ct, 'sk) keyed_workload" where
  "small_workload R C = \<lparr>wl_make_context = make_small_context C, wl_eval = small_eval R C,
     wl_gen_keys = Some (small_gen_keys C)\<rparr>"

definition medium_workload :: "('s, real) rng \<Rightarrow> ('g, 'cc, 'ct, 'pt, 'sk) ckks \<Rightarrow> ('g, 'cc, 'ct, 'sk) keyed_workload" where
  "medium_workload R C = \<lparr>wl_make_context = make_medium_context C, wl_eval = medium_eval R C,
     wl_gen_keys = Some (medium_gen_keys C)\<rparr>"

definition app_matvec_workload :: "('s, real) rng \<Rightarrow> ('g, 'cc, 'ct, 'pt, 'sk) ckks \<Rightarrow> ('g, 'cc, 'ct, 'sk) keyed_workload" where
  "app_matvec_workload R C = \<lparr>wl_make_context = make_app_matvec_context C,
     wl_eval = app_matvec_eval R C, wl_gen_keys = Some (app_matvec_gen_keys C)\<rparr>"

definition app_inference_workload :: "('s, real) rng \<Rightarrow> ('g, 'cc, 'ct, 'pt, 'sk) ckks \<Rightarrow> ('g, 'cc, 'ct, 'sk) keyed_workload" where
  "app_inference_workload R C = \<lparr>wl_make_context = make_app_inference_context C,
     wl_eval = app_inference_eval R C, wl_gen_keys = Some (app_inference_gen_keys C)\<rparr>"

lemmas workload_defs = noop_workload_def toy_workload_def micro_add_workload_def
  micro_mul_workload_def micro_mul_rescale_workload_def micro_rotate_workload_def
  small_workload_def medium_workload_def app_matvec_workload_def app_inference_workload_def
  logistic_workload_def

lemmas context_defs = make_noop_context_def make_toy_context_def make_micro_add_context_def
  make_micro_mul_context_def make_micro_mul_rescale_context_def make_micro_rotate_context_def
  make_small_context_def make_medium_context_def make_app_matvec_context_def
  make_app_inference_context_def make_logistic_context_def

text \<open>
  The registry after static initialization. The order of the registrations is not fixed, and does
  not matter: the names are distinct.
\<close>

definition tee_registrations :: "('s, real) rng \<Rightarrow> ('g, 'cc, 'ct, 'pt, 'sk) ckks \<Rightarrow>
    (string \<times> ('g, 'cc, 'ct, 'sk) keyed_workload) list" where
  "tee_registrations R C =
     [(''noop'', noop_workload C), (''toy'', toy_workload C), (''micro_add'', micro_add_workload C),
      (''micro_mul'', micro_mul_workload C), (''micro_mul_rescale'', micro_mul_rescale_workload C),
      (''micro_rotate'', micro_rotate_workload C), (''small'', small_workload R C),
      (''medium'', medium_workload R C), (''app_matvec'', app_matvec_workload R C),
      (''app_inference'', app_inference_workload R C),
      (''logistic-regression'', logistic_workload C)]"

definition register_all :: "(string \<times> 'w) list \<Rightarrow> 'w registry" where
  "register_all ws = fold (\<lambda>(wid, w). register wid w) ws Map.empty"

lemma register_all_snoc: "register_all (ws @ [(wid, w)]) = register wid w (register_all ws)"
  by (simp add: register_all_def)

text \<open>With distinct names the registry is the table, in whichever order it was filled.\<close>

lemma register_all_lookup:
  "distinct (map fst ws) \<Longrightarrow> register_all ws wid = Some w \<longleftrightarrow> (wid, w) \<in> set ws"
proof (induction ws arbitrary: wid w rule: rev_induct)
  case Nil
  show ?case by (simp add: register_all_def)
next
  case (snoc x ws)
  obtain v z where x: "x = (v, z)" by (cases x)
  from snoc.prems have d: "distinct (map fst ws)" and new: "(v, u) \<notin> set ws" for u
    by (auto simp: x image_iff)
  have "register_all ws v = None"
    using snoc.IH [OF d, of v] new by (cases "register_all ws v") blast+
  with snoc.IH [OF d, of wid w] new show ?case
    by (auto simp: x register_all_snoc register_lookup)
qed

definition tee_registry :: "('s, real) rng \<Rightarrow> ('g, 'cc, 'ct, 'pt, 'sk) ckks \<Rightarrow>
    ('g, 'cc, 'ct, 'sk) keyed_workload registry" where
  "tee_registry R C = register_all (tee_registrations R C)"

lemma tee_registry_lookup:
  "tee_registry R C wid = Some w \<longleftrightarrow> (wid, w) \<in> set (tee_registrations R C)"
  unfolding tee_registry_def by (rule register_all_lookup) (simp add: tee_registrations_def)

section \<open>Setup\<close>

lemma fixed_setup_runs:
  assumes "ckks_works C V" and "wl_make_context w = gen_context C ps (leveled @ fs)"
    and "cp_technique ps = FIXEDMANUAL"
    and "\<And>cc sk g gen_keys. wl_gen_keys w = Some gen_keys \<Longrightarrow> ready V cc ps (leveled @ fs) g \<Longrightarrow>
      runs (gen_keys cc sk) g (\<lambda>_ g'. keeps V g g' \<and> Q g')"
    and "\<And>g. wl_gen_keys w = None \<Longrightarrow> Q g" and "\<And>g g'. Q g \<Longrightarrow> keeps V g g' \<Longrightarrow> Q g'"
  shows "runs (client_setup C w) g (\<lambda>(cc, _) g'. ready V cc ps (leveled @ fs) g' \<and>
    fixed_manual C V cc g' \<and> vs_mult V g' \<and> Q g')"
proof -
  have on: "PKE \<in> set (leveled @ fs)" "KEYSWITCH \<in> set (leveled @ fs)" "LEVELEDSHE \<in> set (leveled @ fs)"
    by (simp_all add: leveled_def)
  have "runs (client_setup C w) g (\<lambda>(cc, _) g'. ready V cc ps (leveled @ fs) g' \<and> vs_mult V g' \<and> Q g')"
    by (rule client_setup_runs [where Q = Q, OF assms(1,2) on(1,2)]) (blast intro: assms(4-6))+
  then show ?thesis
  proof (rule runs_mono)
    fix x h
    assume *: "(\<lambda>(cc, _) g'. ready V cc ps (leveled @ fs) g' \<and> vs_mult V g' \<and> Q g') x h"
    obtain cc kp where x: "x = (cc, kp)" by (cases x)
    with * have r: "ready V cc ps (leveled @ fs) h" by simp
    from works_fixed [OF ckks_worksD(1) [OF assms(1)] ready_on [OF r on(3)]] r assms(3)
    have "fixed_manual C V cc h" by (simp add: ready_def)
    with * x show "(\<lambda>(cc, _) g'. ready V cc ps (leveled @ fs) g' \<and> fixed_manual C V cc g' \<and>
        vs_mult V g' \<and> Q g') x h" by simp
  qed
qed

text \<open>Key generation by rotation indices.\<close>

lemma rotation_setup_runs:
  assumes "ckks_works C V" and "wl_make_context w = gen_context C ps (leveled @ fs)"
    and "cp_technique ps = FIXEDMANUAL"
    and "wl_gen_keys w = Some (\<lambda>cc kp. ck_rotate_keygen C cc kp ks)"
  shows "runs (client_setup C w) g (\<lambda>(cc, _) g'. ready V cc ps (leveled @ fs) g' \<and>
    fixed_manual C V cc g' \<and> vs_mult V g' \<and> set ks \<subseteq> vs_rotations V g')"
proof (rule fixed_setup_runs [OF assms(1-3)])
  fix cc sk h gen_keys
  assume *: "wl_gen_keys w = Some gen_keys" "ready V cc ps (leveled @ fs) h"
  have "KEYSWITCH \<in> vs_on V h cc" using ready_on [OF *(2)] by (simp add: leveled_def)
  then have "runs (ck_rotate_keygen C cc sk ks) h (\<lambda>_ h'. keeps V h h' \<and> set ks \<subseteq> vs_rotations V h')"
    by (intro runs_mono [OF ck_rotate_keygen_runs [OF ckks_worksD(1) [OF assms(1)]]]) simp_all
  moreover have "gen_keys = (\<lambda>cc kp. ck_rotate_keygen C cc kp ks)"
    using *(1) assms(4) by simp
  ultimately show "runs (gen_keys cc sk) h (\<lambda>_ h'. keeps V h h' \<and> set ks \<subseteq> vs_rotations V h')"
    by simp
qed (simp_all add: assms(4) keeps_rotations)

lemma plain_setup_runs:
  assumes "ckks_works C V" and "wl_make_context w = gen_context C ps (leveled @ fs)"
    and "cp_technique ps = FIXEDMANUAL" and "wl_gen_keys w = None"
  shows "runs (client_setup C w) g (\<lambda>(cc, _) g'. ready V cc ps (leveled @ fs) g' \<and>
    fixed_manual C V cc g' \<and> vs_mult V g')"
  using fixed_setup_runs [OF assms(1-3), of "\<lambda>_. True" g] assms(4) by simp

end
