(* ===== verification/Examples_Ckks.thy ===== *)
theory Examples_Ckks
  imports Workloads_Tee
begin

text \<open>
  A CKKS without noise: ciphertexts are their slots, level and scale degree, the global state the
  enabled features and the indices of the loaded keys. It shows that what \<open>ckks_works\<close> asks of the
  library can be had.
\<close>

record ideal_state =
  id_on :: "feature set"
  id_mult :: bool
  id_sum :: bool
  id_rotations :: "int list"

record ideal_ct =
  ic_slots :: "real list"
  ic_level :: nat
  ic_degree :: nat

definition ideal_ct :: "real list \<Rightarrow> nat \<Rightarrow> nat \<Rightarrow> ideal_ct" where
  "ideal_ct v l d = \<lparr>ic_slots = v, ic_level = l, ic_degree = d\<rparr>"

text \<open>A product: by hand its degree grows, automatically its level.\<close>

definition ideal_product :: "cc_params \<Rightarrow> real list \<Rightarrow> nat \<Rightarrow> ideal_ct" where
  "ideal_product ps v l = (case cp_technique ps of
      FIXEDMANUAL \<Rightarrow> ideal_ct v l 2 | FLEXIBLEAUTO \<Rightarrow> ideal_ct v (l + 1) 1)"

definition ideal_level :: "ideal_ct \<Rightarrow> ideal_ct \<Rightarrow> nat" where
  "ideal_level a b = max (ic_level a) (ic_level b)"

definition ideal_ckks :: "(ideal_state, cc_params, ideal_ct, real list \<times> nat, unit) ckks" where
  "ideal_ckks = \<lparr>
     ck_gen = (\<lambda>ps. ret ps),
     ck_enable = (\<lambda>cc f g. (Inr (), g\<lparr>id_on := insert f (id_on g)\<rparr>)),
     ck_keygen = (\<lambda>cc. ret ()),
     ck_pack = (\<lambda>cc v. ret (v, 0)),
     ck_pack_slots = (\<lambda>cc v d l m. ret (repeated m (cp_batch cc) v, l + d - 1)),
     ck_pack_at = (\<lambda>cc v d l. ret (v, l + d - 1)),
     ck_encrypt = (\<lambda>cc kp p. ret (ideal_ct (fst p) (snd p) 1)),
     ck_add = (\<lambda>cc a b. ret (ideal_ct (vadd (ic_slots a) (ic_slots b)) (ideal_level a b) (ic_degree a))),
     ck_sub = (\<lambda>cc a b. ret (ideal_ct (vsub (ic_slots a) (ic_slots b)) (ideal_level a b) (ic_degree a))),
     ck_mult = (\<lambda>cc a b. ret (ideal_product cc (vmul (ic_slots a) (ic_slots b)) (ideal_level a b))),
     ck_add_pt = (\<lambda>cc a p. ret (ideal_ct (vadd (ic_slots a) (fst p)) (ic_level a) (ic_degree a))),
     ck_mult_pt = (\<lambda>cc a p. ret (ideal_product cc (vmul (ic_slots a) (fst p)) (ic_level a))),
     ck_mult_const = (\<lambda>cc a x. ret (ideal_product cc (map ((*) x) (ic_slots a)) (ic_level a))),
     ck_square = (\<lambda>cc a. ret (ideal_product cc (vmul (ic_slots a) (ic_slots a)) (ic_level a))),
     ck_rescale = (\<lambda>cc a. ret (ideal_ct (ic_slots a) (ic_level a + 1) 1)),
     ck_relinearize = (\<lambda>cc a. ret a),
     ck_rotate = (\<lambda>cc a k g. if k \<in> set (id_rotations g)
        then (Inr (ideal_ct (rot k (ic_slots a)) (ic_level a) (ic_degree a)), g)
        else (throw (Lib_error ''rotation key not found''), g)),
     ck_sum = (\<lambda>cc a n. ret (ideal_ct (replicate n (sum_list (ic_slots a))) (ic_level a) (ic_degree a))),
     ck_mult_keygen = (\<lambda>cc kp g. (Inr (), g\<lparr>id_mult := True\<rparr>)),
     ck_sum_keygen = (\<lambda>cc kp g. (Inr (), g\<lparr>id_sum := True\<rparr>)),
     ck_rotate_keygen = (\<lambda>cc kp ks g. (Inr (), g\<lparr>id_rotations := ks @ id_rotations g\<rparr>)),
     ck_boot_setup = (\<lambda>cc lb d1 m. ret ()),
     ck_boot_keygen = (\<lambda>cc kp m. ret ())\<rparr>"

definition ideal_view :: "(ideal_state, cc_params, ideal_ct, real list \<times> nat) view" where
  "ideal_view = \<lparr>vs_params = (\<lambda>cc. cc), vs_on = (\<lambda>g _. id_on g), vs_slots = ic_slots,
     vs_level = ic_level, vs_degree = ic_degree, vs_plain = fst, vs_plain_level = snd,
     vs_mult = id_mult, vs_sum = id_sum, vs_rotations = (\<lambda>g. set (id_rotations g))\<rparr>"

definition ideal_start :: ideal_state where
  "ideal_start = \<lparr>id_on = {}, id_mult = False, id_sum = False, id_rotations = []\<rparr>"

lemma ideal_ct_simps [simp]:
  "ic_slots (ideal_ct v l d) = v" "ic_level (ideal_ct v l d) = l" "ic_degree (ideal_ct v l d) = d"
  by (simp_all add: ideal_ct_def)

lemma length_repeated [simp]: "length (repeated m n w) = n"
  by (simp add: repeated_def)

lemmas ideal_defs = ideal_ckks_def ideal_view_def ideal_product_def ideal_level_def carries_def
  encrypts_def packs_def yields_def

lemma ideal_fixed: "cp_technique cc = FIXEDMANUAL \<Longrightarrow> fixed_manual ideal_ckks ideal_view cc g"
  unfolding fixed_manual_def Let_def by (intro conjI allI impI; simp add: ideal_defs)

lemma ideal_flexible: "cp_technique cc = FLEXIBLEAUTO \<Longrightarrow> flexible_auto ideal_ckks ideal_view cc g"
  unfolding flexible_auto_def Let_def by (intro conjI allI impI; simp add: ideal_defs)

lemma ideal_params [simp]: "vs_params ideal_view cc = cc"
  by (simp add: ideal_view_def)

lemma ideal_technique: "case cp_technique (vs_params ideal_view cc) of
    FIXEDMANUAL \<Rightarrow> fixed_manual ideal_ckks ideal_view cc g
  | FLEXIBLEAUTO \<Rightarrow> flexible_auto ideal_ckks ideal_view cc g"
  by (simp add: ideal_fixed ideal_flexible split: scaling_technique.split)

lemma ideal_works: "ckks_works ideal_ckks ideal_view"
  unfolding ckks_works_def ckks_core_def
  by (intro conjI allI impI ideal_technique)
    (auto simp: ideal_ckks_def ideal_view_def keeps_def keeps_but_rotations_def runs_def)

lemma ideal_encrypts [simp]:
  "encrypts ideal_view cc (ideal_ct v l d) w k e \<longleftrightarrow> v = w \<and> l = k \<and> d = e \<and> length w = cp_batch cc"
  by (auto simp: encrypts_def carries_def ideal_view_def)


text \<open>The context of a setup is the parameters that were asked for.\<close>

lemma ideal_setup:
  assumes "runs (client_setup ideal_ckks w) g (\<lambda>(cc, _) g'. P cc g')"
    and "wl_make_context w = gen_context ideal_ckks ps fs"
  obtains kp g' where "client_setup ideal_ckks w g = (Inr (ps, kp), g')" "P ps g'"
proof -
  from assms(1) obtain x g' where "client_setup ideal_ckks w g = (Inr x, g')" "(\<lambda>(cc, _) g'. P cc g') x g'"
    by (rule runsE)
  moreover obtain cc kp where x: "x = (cc, kp)" by (cases x)
  ultimately have s: "client_setup ideal_ckks w g = (Inr (cc, kp), g')" and P: "P cc g'"
    by simp_all
  from s have "cc = ps"
    by (auto simp: client_setup_def make_keys_def assms(2) gen_context_def ideal_ckks_def elim!: bind_p_cases)
  with s P that show thesis by blast
qed


text \<open>A generator that always draws one, and a result at the context of the setup.\<close>

definition ones_rng :: "(unit, real) rng" where
  "ones_rng = \<lparr>rg_seed = (\<lambda>_. ()), rg_next = (\<lambda>s. (1, s))\<rparr>"

definition ideal_result :: "(ideal_state, cc_params, ideal_ct, unit) keyed_workload \<Rightarrow> cc_params \<Rightarrow> real list \<Rightarrow>
    real list \<Rightarrow> nat \<Rightarrow> bool" where
  "ideal_result w ps v z l \<longleftrightarrow> (\<exists>kp g'. client_setup ideal_ckks w ideal_start = (Inr (ps, kp), g') \<and>
     yields (wl_eval w ps [ideal_ct v 0 1]) g' (\<lambda>c. encrypts ideal_view ps c z l 1))"

lemma ideal_resultI:
  assumes "runs (client_setup ideal_ckks w) ideal_start (\<lambda>(cc, _) g'. \<forall>a v. encrypts ideal_view cc a v 0 1 \<longrightarrow>
      yields (wl_eval w cc [a]) g' (\<lambda>c. encrypts ideal_view cc c (f v) l 1))"
    and "wl_make_context w = gen_context ideal_ckks ps fs" and "length v = cp_batch ps"
  shows "ideal_result w ps v (f v) l"
proof (rule ideal_setup [OF assms(1,2)])
  fix kp g'
  assume "client_setup ideal_ckks w ideal_start = (Inr (ps, kp), g')"
    and "\<forall>a v. encrypts ideal_view ps a v 0 1 \<longrightarrow>
      yields (wl_eval w ps [a]) g' (\<lambda>c. encrypts ideal_view ps c (f v) l 1)"
  moreover have "encrypts ideal_view ps (ideal_ct v 0 1) v 0 1"
    using assms(3) by simp
  ultimately show ?thesis unfolding ideal_result_def by blast
qed

end
