(* ===== verification/Properties_Workloads.thy ===== *)
theory Properties_Workloads
  imports Examples_Ckks
begin

text \<open>
  The properties of the workloads of \<open>tee-vfhe\<close>: after what the client sets up, each circuit stays
  within its multiplicative budget, finds its keys, and computes its function.
\<close>

lemma runs_pair:
  assumes "runs p g (\<lambda>(a, _) g'. P a g')" and "\<And>a g'. P a g' \<Longrightarrow> Q a g'"
  shows "runs p g (\<lambda>(a, _) g'. Q a g')"
  using assms(1) by (rule runs_mono) (auto dest: assms(2))

text \<open>What a small circuit leaves of one or two fresh ciphertexts.\<close>

definition micro_results :: "('g, 'cc, 'ct, 'pt, 'sk) ckks \<Rightarrow> ('g, 'cc, 'ct, 'pt) view \<Rightarrow> 'cc \<Rightarrow> 'g \<Rightarrow>
    'ct \<Rightarrow> real list \<Rightarrow> 'ct \<Rightarrow> real list \<Rightarrow> bool" where
  "micro_results C V cc g a v b w \<longleftrightarrow>
     yields (wl_eval (toy_workload C) cc [a, b]) g (\<lambda>c. encrypts V cc c (vmul v w) 1 1) \<and>
     yields (wl_eval (micro_add_workload C) cc [a, b]) g (\<lambda>c. encrypts V cc c (vadd v w) 0 1) \<and>
     yields (wl_eval (micro_mul_workload C) cc [a, b]) g (\<lambda>c. encrypts V cc c (vmul v w) 0 2) \<and>
     yields (wl_eval (micro_mul_rescale_workload C) cc [a, b]) g (\<lambda>c. encrypts V cc c (vmul v w) 1 1)"

lemma micro_resultsI:
  assumes "fixed_manual C V cc g" and "vs_mult V g" and "0 < cp_depth (vs_params V cc)"
    and "encrypts V cc a v 0 1" and "encrypts V cc b w 0 1"
  shows "micro_results C V cc g a v b w"
proof -
  note mult = fm_mult [OF assms(1,4,5,3,2)]
  have prod: "yields (bind_p (ck_mult C cc a b) (ck_rescale C cc)) g
      (\<lambda>c. encrypts V cc c (vmul v w) 1 1)"
    by (rule yields_bind [OF mult]) (use fm_rescale [OF assms(1) _ assms(3)] in simp)
  with fm_add [OF assms(1,4,5)] mult show ?thesis
    by (simp add: micro_results_def workload_defs toy_eval_def micro_mul_rescale_eval_def
        micro_add_eval_def micro_mul_eval_def)
qed

text \<open>The small circuits compute what they are named after: after the client's setup, the
  product of two fresh ciphertexts is available and can be rescaled within the depth of one, and the
  rotation by one finds its key.\<close>

theorem micro_workloads_compute:
  assumes "ckks_works C V"
  shows "runs (client_setup C (toy_workload C)) g (\<lambda>(cc, _) g'. \<forall>a b v w.
      encrypts V cc a v 0 1 \<and> encrypts V cc b w 0 1 \<longrightarrow> micro_results C V cc g' a v b w) \<and>
    runs (client_setup C (micro_rotate_workload C)) g (\<lambda>(cc, _) g'. \<forall>a v. encrypts V cc a v 0 1 \<longrightarrow>
      yields (wl_eval (micro_rotate_workload C) cc [a]) g' (\<lambda>c. encrypts V cc c (rot 1 v) 0 1))"
proof (rule conjI)
  have "runs (client_setup C (toy_workload C)) g (\<lambda>(cc, _) g'. ready V cc micro_params (leveled @ []) g' \<and>
      fixed_manual C V cc g' \<and> vs_mult V g')"
    by (rule plain_setup_runs [OF assms])
      (simp_all add: toy_workload_def make_toy_context_def micro_params_def set_params_def)
  then show "runs (client_setup C (toy_workload C)) g (\<lambda>(cc, _) g'. \<forall>a b v w.
      encrypts V cc a v 0 1 \<and> encrypts V cc b w 0 1 \<longrightarrow> micro_results C V cc g' a v b w)"
    by (rule runs_pair)
      (intro allI impI, rule micro_resultsI, auto simp: micro_params_def set_params_def ready_def)
  have "runs (client_setup C (micro_rotate_workload C)) g (\<lambda>(cc, _) g'.
      ready V cc micro_params (leveled @ []) g' \<and> fixed_manual C V cc g' \<and> vs_mult V g' \<and>
      set [1] \<subseteq> vs_rotations V g')"
    by (rule rotation_setup_runs [OF assms])
      (simp_all add: micro_rotate_workload_def make_micro_rotate_context_def micro_params_def
        set_params_def micro_rotate_gen_keys_def [abs_def])
  then show "runs (client_setup C (micro_rotate_workload C)) g (\<lambda>(cc, _) g'. \<forall>a v. encrypts V cc a v 0 1 \<longrightarrow>
      yields (wl_eval (micro_rotate_workload C) cc [a]) g' (\<lambda>c. encrypts V cc c (rot 1 v) 0 1))"
    by (rule runs_pair) (simp add: micro_rotate_workload_def micro_rotate_eval_def fm_rotate)
qed

theorem micro_workloads_compute_witness:
  "ideal_result (micro_rotate_workload ideal_ckks) micro_params (3 # replicate 31 0)
    (rot 1 (3 # replicate 31 0)) 0"
  by (rule ideal_resultI [OF conjunct2 [OF micro_workloads_compute [OF ideal_works]]])
    (simp_all add: micro_rotate_workload_def make_micro_rotate_context_def micro_params_def
      set_params_def)

definition small_params :: cc_params where
  "small_params = set_params 2 40 32 FIXEDMANUAL HEStd_128_classic"

lemma sum_list_vmul: "length v = length w \<Longrightarrow> sum_list (vmul v w) = (\<Sum>i<length w. v ! i * w ! i)"
  for v w :: "real list"
  by (simp add: sum_list_sum_nth vmul_def lessThan_atLeast0)

text \<open>The dot product ends up in every slot: the rescaled product is summed over all of them.\<close>

theorem small_is_dot_product:
  assumes "ckks_works C V"
  shows "runs (client_setup C (small_workload R C)) g (\<lambda>(cc, _) g'. \<forall>a v. encrypts V cc a v 0 1 \<longrightarrow>
    yields (wl_eval (small_workload R C) cc [a]) g' (\<lambda>c. encrypts V cc c
      (replicate 32 (\<Sum>i<32. v ! i * make_small_weights R ! i)) 1 1))"
proof -
  have "runs (client_setup C (small_workload R C)) g (\<lambda>(cc, _) g'.
      ready V cc small_params (leveled @ [ADVANCEDSHE]) g' \<and> fixed_manual C V cc g' \<and> vs_mult V g' \<and>
      vs_sum V g')"
  proof (rule fixed_setup_runs [OF assms])
    fix cc sk h gen_keys
    assume *: "wl_gen_keys (small_workload R C) = Some gen_keys"
      "ready V cc small_params (leveled @ [ADVANCEDSHE]) h"
    have "ADVANCEDSHE \<in> vs_on V h cc" using ready_on [OF *(2)] by simp
    then have "runs (ck_sum_keygen C cc sk) h (\<lambda>_ h'. keeps V h h' \<and> vs_sum V h')"
      by (intro runs_mono [OF ck_sum_keygen_runs [OF ckks_worksD(1) [OF assms]]]) simp_all
    with *(1) show "runs (gen_keys cc sk) h (\<lambda>_ h'. keeps V h h' \<and> vs_sum V h')"
      by (auto simp: small_workload_def small_gen_keys_def)
  qed (auto simp: small_workload_def make_small_context_def small_params_def set_params_def
      dest: keepsD(3))
  then show ?thesis
  proof (rule runs_pair, intro allI impI)
    fix cc h a v
    assume "ready V cc small_params (leveled @ [ADVANCEDSHE]) h \<and> fixed_manual C V cc h \<and>
      vs_mult V h \<and> vs_sum V h" and a: "encrypts V cc a v 0 1"
    then have r: "ready V cc small_params (leveled @ [ADVANCEDSHE]) h" and fm: "fixed_manual C V cc h"
      and s: "vs_sum V h" by simp_all
    have ps: "cp_batch (vs_params V cc) = 32" "cp_depth (vs_params V cc) = 2"
      using r by (simp_all add: ready_def small_params_def set_params_def)
    have on: "ADVANCEDSHE \<in> vs_on V h cc" using ready_on [OF r] by simp
    have v: "length v = 32" using carries_length(2) [OF a] ps by simp
    have w: "length (make_small_weights R) = 32"
      by (simp add: make_small_weights_def flip: draw_vec_draw)
    have "yields (small_eval R C cc [a]) h (\<lambda>c. encrypts V cc c
        (replicate 32 (sum_list (vmul v (make_small_weights R)))) (0 + 1) 1)"
      unfolding small_eval_def Let_def
      apply (simp del: One_nat_def)
      apply (rule yields_bind [OF fm_pack [OF fm]], simp add: w ps)
      apply (rule yields_bind [OF fm_mult_pt [OF fm a]], assumption, simp add: ps)
      apply (rule yields_bind [OF fm_rescale [OF fm]], assumption, simp add: ps)
      using fm_sum [OF fm _ s on] by (simp add: ps)
    then show "yields (wl_eval (small_workload R C) cc [a]) h (\<lambda>c. encrypts V cc c
        (replicate 32 (\<Sum>i<32. v ! i * make_small_weights R ! i)) 1 1)"
      using sum_list_vmul [of v "make_small_weights R"] v w by (simp add: small_workload_def)
  qed
qed


theorem small_is_dot_product_witness:
  "ideal_result (small_workload ones_rng ideal_ckks) small_params (replicate 32 2)
    (replicate 32 (\<Sum>i<32. replicate 32 2 ! i * make_small_weights ones_rng ! i)) 1"
  by (rule ideal_resultI [OF small_is_dot_product [OF ideal_works]])
    (simp_all add: small_workload_def make_small_context_def small_params_def set_params_def)

section \<open>Matrices\<close>

definition medium_params :: cc_params where
  "medium_params = set_params 3 40 medium_kN FIXEDMANUAL HEStd_128_classic"

definition app_params :: cc_params where
  "app_params = set_params 4 50 app_kN FIXEDMANUAL HEStd_128_classic"

definition mlp_params :: cc_params where
  "mlp_params = set_params 5 50 mlp_kSlots FIXEDMANUAL HEStd_128_classic"

lemmas matrix_params = medium_params_def app_params_def mlp_params_def set_params_def

lemma matvec_setup:
  assumes "ckks_works C V"
  shows "runs (client_setup C (medium_workload R C)) g (\<lambda>(cc, _) g'. ready V cc medium_params (leveled @ []) g' \<and>
      fixed_manual C V cc g' \<and> vs_mult V g' \<and> set (rot_keys medium_kN) \<subseteq> vs_rotations V g')"
    and "runs (client_setup C (app_matvec_workload R C)) g (\<lambda>(cc, _) g'. ready V cc app_params (leveled @ []) g' \<and>
      fixed_manual C V cc g' \<and> vs_mult V g' \<and> set (rot_keys app_kN) \<subseteq> vs_rotations V g')"
    and "runs (client_setup C (app_inference_workload R C)) g (\<lambda>(cc, _) g'. ready V cc mlp_params (leveled @ []) g' \<and>
      fixed_manual C V cc g' \<and> vs_mult V g' \<and> set (rot_keys mlp_kSlots) \<subseteq> vs_rotations V g')"
  by (rule rotation_setup_runs [OF assms]; simp add: workload_defs context_defs matrix_params
      medium_gen_keys_def [abs_def] app_matvec_gen_keys_def [abs_def] app_inference_gen_keys_def [abs_def])+

text \<open>C22: The two matrix workloads multiply: with the rotation keys of the setup, the diagonals and
  one rescaling make the product of the drawn matrix with the encrypted vector.\<close>

theorem matvec_workloads_multiply:
  assumes "ckks_works C V"
  shows "runs (client_setup C (medium_workload R C)) g (\<lambda>(cc, _) g'. \<forall>a v. encrypts V cc a v 0 1 \<longrightarrow>
      yields (wl_eval (medium_workload R C) cc [a]) g' (\<lambda>c. encrypts V cc c
        (mat_vec (make_medium_matrix R) v) 1 1)) \<and>
    runs (client_setup C (app_matvec_workload R C)) g (\<lambda>(cc, _) g'. \<forall>a v. encrypts V cc a v 0 1 \<longrightarrow>
      yields (wl_eval (app_matvec_workload R C) cc [a]) g' (\<lambda>c. encrypts V cc c
        (mat_vec (make_app_matrix R) v) 1 1))"
proof (rule conjI)
  have "yields (medium_eval R C cc [a]) h (\<lambda>c. encrypts V cc c (mat_vec (make_medium_matrix R) v) 1 1)"
    if "ready V cc medium_params (leveled @ []) h" "fixed_manual C V cc h"
      "set (rot_keys medium_kN) \<subseteq> vs_rotations V h" "encrypts V cc a v 0 1" for cc a v h
    using square_matvec_yields [OF that(2,4) _ _ _ _ _ that(3), of "make_medium_matrix R"]
      carries_length(2) [OF that(4)] that(1) draw_rows_cols [of _ "rg_next R" medium_kN medium_kN]
    by (simp add: medium_eval_def make_medium_matrix_def ready_def matrix_params medium_kN_def)
  then show "runs (client_setup C (medium_workload R C)) g (\<lambda>(cc, _) g'. \<forall>a v. encrypts V cc a v 0 1 \<longrightarrow>
      yields (wl_eval (medium_workload R C) cc [a]) g' (\<lambda>c. encrypts V cc c
        (mat_vec (make_medium_matrix R) v) 1 1))"
    by (intro runs_pair [OF matvec_setup(1) [OF assms]]) (simp add: medium_workload_def)
  have "yields (app_matvec_eval R C cc [a]) h (\<lambda>c. encrypts V cc c (mat_vec (make_app_matrix R) v) 1 1)"
    if "ready V cc app_params (leveled @ []) h" "fixed_manual C V cc h"
      "set (rot_keys app_kN) \<subseteq> vs_rotations V h" "encrypts V cc a v 0 1" for cc a v h
    using square_matvec_yields [OF that(2,4) _ _ _ _ _ that(3), of "make_app_matrix R"]
      carries_length(2) [OF that(4)] that(1) draw_rows_cols [of _ "rg_next R" app_kN app_kN]
    by (simp add: app_matvec_eval_def make_app_matrix_def ready_def matrix_params app_kN_def)
  then show "runs (client_setup C (app_matvec_workload R C)) g (\<lambda>(cc, _) g'. \<forall>a v. encrypts V cc a v 0 1 \<longrightarrow>
      yields (wl_eval (app_matvec_workload R C) cc [a]) g' (\<lambda>c. encrypts V cc c
        (mat_vec (make_app_matrix R) v) 1 1))"
    by (intro runs_pair [OF matvec_setup(2) [OF assms]]) (simp add: app_matvec_workload_def)
qed

theorem matvec_workloads_multiply_witness:
  "ideal_result (medium_workload ones_rng ideal_ckks) medium_params (replicate 64 2)
    (mat_vec (make_medium_matrix ones_rng) (replicate 64 2)) 1"
  by (rule ideal_resultI [OF conjunct1 [OF matvec_workloads_multiply [OF ideal_works]]])
    (simp_all add: medium_workload_def make_medium_context_def matrix_params medium_kN_def)

text \<open>C14: The encrypted network evaluates the network: both layers, their biases and the quadratic
  activation, in the first ten slots, with one of its five levels to spare.\<close>

theorem network_is_evaluated:
  assumes "ckks_works C V"
  shows "runs (client_setup C (app_inference_workload R C)) g (\<lambda>(cc, _) g'. \<forall>a v. encrypts V cc a v 0 1 \<longrightarrow>
    yields (wl_eval (app_inference_workload R C) cc [a]) g' (\<lambda>c. encrypts V cc c
      (pad mlp_kSlots (mlp (make_mlp_weights R) v)) 4 1))"
proof (rule runs_pair [OF matvec_setup(3) [OF assms]], intro allI impI)
  fix cc h a v
  assume *: "ready V cc mlp_params (leveled @ []) h \<and> fixed_manual C V cc h \<and> vs_mult V h \<and>
    set (rot_keys mlp_kSlots) \<subseteq> vs_rotations V h" and "encrypts V cc a v 0 1"
  then have "yields (app_inference_eval R C cc [a]) h
      (\<lambda>c. encrypts V cc c (pad mlp_kSlots (mlp (make_mlp_weights R) v)) 4 1)"
    by (intro app_inference_yields) (simp_all add: ready_def matrix_params)
  then show "yields (wl_eval (app_inference_workload R C) cc [a]) h
      (\<lambda>c. encrypts V cc c (pad mlp_kSlots (mlp (make_mlp_weights R) v)) 4 1)"
    by (simp add: app_inference_workload_def)
qed

theorem network_is_evaluated_witness:
  "ideal_result (app_inference_workload ones_rng ideal_ckks) mlp_params (replicate 128 (1/2))
    (pad mlp_kSlots (mlp (make_mlp_weights ones_rng) (replicate 128 (1/2)))) 4"
  by (rule ideal_resultI [OF network_is_evaluated [OF ideal_works]])
    (simp_all add: app_inference_workload_def make_app_inference_context_def matrix_params mlp_kSlots_def)


section \<open>Training\<close>

text \<open>Training on encrypted batches is training: from the rows of the file to the last
  ciphertext, the session of the logistic regression leaves in every row of the result the weights
  after two steps of gradient descent, and it has spent the whole multiplicative depth.\<close>

theorem training_session_trains:
  assumes "ckks_works C V" and "map_r (read_row stod 0) (take 1280 file_rows) = Inr rows"
    and "length rows = 1280"
  shows "runs (training_session stod (Some file_rows) C) g (\<lambda>out _.
    vs_slots V out = weight_slots (train (row_features rows) (row_labels rows) (\<lambda>_. 0) lr_kNumIterations) \<and>
    vs_level V out = lr_kMultDepth)"
  by (rule training_session_runs [OF assms])

definition ones_file :: "string list list" where
  "ones_file = replicate 1280 (replicate 197 ''1'')"

theorem training_session_trains_witness:
  "\<exists>rows. runs (training_session (\<lambda>_. Inr 1) (Some ones_file) ideal_ckks) ideal_start (\<lambda>out _.
    ic_slots out = weight_slots (train (row_features rows) (row_labels rows) (\<lambda>_. 0) lr_kNumIterations))"
proof -
  have row: "read_row (\<lambda>_. Inr 1) 0 c = Inr (replicate 196 1 @ replicate 60 0, 1 :: real)" for c
    by (simp add: read_row_def map_r_Inr bind_r_def kNumFeatures_def kCols_def map_replicate_const)
  let ?rows = "map (\<lambda>_. (replicate 196 1 @ replicate 60 0, 1 :: real)) (take 1280 ones_file)"
  have rows: "map_r (read_row (\<lambda>_. Inr 1) 0) (take 1280 ones_file) = Inr ?rows"
    by (rule map_r_Inr) (rule row)
  have len: "length ?rows = 1280"
    by (simp add: ones_file_def)
  show ?thesis
    by (rule exI [of _ ?rows], rule runs_mono [OF training_session_trains [OF ideal_works rows len]])
      (simp add: ideal_view_def)
qed

section \<open>The table of the client\<close>

definition context_fits :: "('g, 'cc, 'ct, 'pt, 'sk) ckks \<Rightarrow> ('g, 'cc, 'ct, 'sk) keyed_workload \<Rightarrow> int \<Rightarrow> bool" where
  "context_fits C w n \<longleftrightarrow>
     (\<exists>ps fs. wl_make_context w = gen_context C ps fs \<and> int (cp_batch ps) = n)"

lemma context_fitsI:
  "wl_make_context w = gen_context C ps fs \<Longrightarrow> int (cp_batch ps) = n \<Longrightarrow> context_fits C w n"
  unfolding context_fits_def by blast

lemma contexts_fit:
  "context_fits C (noop_workload C) 32" "context_fits C (toy_workload C) 32"
  "context_fits C (micro_add_workload C) 32" "context_fits C (micro_mul_workload C) 32"
  "context_fits C (micro_mul_rescale_workload C) 32" "context_fits C (micro_rotate_workload C) 32"
  "context_fits C (small_workload R C) 32" "context_fits C (medium_workload R C) 64"
  "context_fits C (app_matvec_workload R C) 256" "context_fits C (app_inference_workload R C) 128"
  "context_fits C (logistic_workload C) 32768"
  by (rule context_fitsI, simp add: workload_defs context_defs,
      simp add: micro_params_def logistic_params_def set_params_def medium_kN_def app_kN_def
        mlp_kSlots_def lr_kBatchSize_def)+

text \<open>C36: The client's table and the registry agree: every workload the client knows is registered,
  and its context has as many slots as the client fills.\<close>

theorem client_table_is_registered:
  "list_all (\<lambda>s. case tee_registry R C (ws_id s) of
      None \<Rightarrow> False | Some w \<Rightarrow> context_fits C w (ws_slots s)) kWorkloads"
proof -
  have "tee_registry R C wid = Some w" if "(wid, w) \<in> set (tee_registrations R C)" for wid w
    using that by (simp add: tee_registry_lookup)
  then show ?thesis
    by (simp add: kWorkloads_def mk_spec_def tee_registrations_def contexts_fit)
qed


text \<open>No workload reads past its inputs: a request that carries no ciphertexts (what the client
  sends for a workload it has no inputs for) makes every registered circuit throw before it calls
  the library.\<close>

theorem workloads_reject_no_inputs:
  assumes "tee_registry R C wid = Some w"
  shows "\<exists>m. wl_eval w cc [] g = (Inl (Throw (Runtime_error m)), g)"
  using assms unfolding tee_registry_lookup tee_registrations_def
  by (auto simp: workload_defs noop_eval_def toy_eval_def micro_add_eval_def micro_mul_eval_def
      micro_mul_rescale_eval_def micro_rotate_eval_def small_eval_def medium_eval_def
      app_matvec_eval_def app_inference_eval_def logistic_eval_def lr_kNumInputs_def)

theorem workloads_reject_no_inputs_witness:
  "\<exists>m. wl_eval (medium_workload ones_rng ideal_ckks) medium_params [] ideal_start =
    (Inl (Throw (Runtime_error m)), ideal_start)"
  by (rule workloads_reject_no_inputs [of ones_rng ideal_ckks "''medium''"])
    (simp add: tee_registry_lookup tee_registrations_def)

end
