(* ===== verification/Accumulate.thy ===== *)
theory Accumulate
  imports Ckks "HOL-Library.Signed_Division"
begin

text \<open>
  \<open>AccumulateSumInPlace\<close> of FIDESlib (\<open>CKKS/AccumulateBroadcast.cu\<close>), the primitive that the GPU
  training uses for its sums: instead of one rotation for every power of two it takes steps of
  \<open>bStep\<close>, with all rotations of a step made from the same ciphertext. Rotation, addition and the
  number of slots a ciphertext is marked with are operations of the library.
\<close>

section \<open>The loops\<close>

text \<open>The values of \<open>for (s = start; s < extent; s <<= l)\<close> and of
  \<open>for (idx = start; idx < bound; idx += step)\<close>, for the positive \<open>l\<close> and \<open>start\<close> of the calls.\<close>

function shift_steps :: "nat \<Rightarrow> nat \<Rightarrow> nat \<Rightarrow> nat list" where
  "shift_steps l s extent = (if 0 < l \<and> 0 < s \<and> s < extent then s # shift_steps l (s * 2 ^ l) extent else [])"
  by pat_completeness auto

termination
proof (relation "measure (\<lambda>(l, s, extent). extent - s)")
  fix l s extent :: nat
  assume "0 < l \<and> 0 < s \<and> s < extent"
  moreover from this have "s * 1 < s * 2 ^ l"
    by (intro mult_strict_left_mono one_less_power) simp_all
  ultimately show "((l, s * 2 ^ l, extent), l, s, extent) \<in> measure (\<lambda>(l, s, extent). extent - s)"
    unfolding in_measure prod.case by linarith
qed simp

function idx_range :: "nat \<Rightarrow> nat \<Rightarrow> nat \<Rightarrow> nat list" where
  "idx_range step idx bound =
     (if 0 < step \<and> idx < bound then idx # idx_range step (idx + step) bound else [])"
  by pat_completeness auto

termination by (relation "measure (\<lambda>(step, idx, bound). bound - idx)") auto

declare shift_steps.simps [simp del] idx_range.simps [simp del]

lemma idx_range_multiples:
  assumes "0 < t"
  shows "idx_range t (t * a) (t * c) = map ((*) t) [a..<c]"
proof (induction "c - a" arbitrary: a)
  case 0
  then show ?case by (subst idx_range.simps) simp
next
  case (Suc n)
  then have "idx_range t (t * Suc a) (t * c) = map ((*) t) [Suc a..<c]"
    by (intro Suc.hyps(1)) simp
  with Suc.hyps(2) assms show ?case
    by (subst idx_range.simps) (simp add: upt_conv_Cons add.commute [of "t * a"])
qed

text \<open>\<open>std::bit_width\<close>.\<close>

fun bit_width :: "nat \<Rightarrow> nat" where
  "bit_width n = (if n = 0 then 0 else Suc (bit_width (n div 2)))"

declare bit_width.simps [simp del]

lemma bit_width_4: "bit_width 4 - 1 = 2"
  by (simp add: bit_width.simps)

section \<open>Accumulation\<close>

text \<open>
  The library: its CKKS operations, the number of slots a ciphertext is marked with, and the
  assignment to it.
\<close>

record ('g, 'cc, 'ct, 'pt, 'sk) fides =
  fd_api :: "('g, 'cc, 'ct, 'pt, 'sk) ckks"
  fd_slots :: "'ct \<Rightarrow> nat"
  fd_set_slots :: "'ct \<Rightarrow> nat \<Rightarrow> 'ct"

definition acc_indexes :: "nat \<Rightarrow> nat \<Rightarrow> nat \<Rightarrow> nat \<Rightarrow> nat list" where
  "acc_indexes bStep stride extent s =
     idx_range (stride * s) (stride * s) (min (stride * extent) (bStep * stride * s))"

text \<open>
  One step: \<open>rotate_hoisted\<close> makes all rotations of the ciphertext, then they are added to it. (The
  extended representation that the code uses in between is internal to the library.)
\<close>

definition acc_step :: "('g, 'cc, 'ct, 'pt, 'sk, 'x) fides_scheme \<Rightarrow> 'cc \<Rightarrow> nat \<Rightarrow> nat \<Rightarrow> nat \<Rightarrow> nat \<Rightarrow>
    'ct \<Rightarrow> ('g, 'ct) prog" where
  "acc_step F cc bStep stride extent s ctxt =
     bind_p (for_p (\<lambda>idx. ck_rotate (fd_api F) cc ctxt (int idx)) (acc_indexes bStep stride extent s)) (\<lambda>aux.
     fold_p (\<lambda>a c. ck_add (fd_api F) cc c a) aux ctxt)"

definition accumulate :: "('g, 'cc, 'ct, 'pt, 'sk, 'x) fides_scheme \<Rightarrow> 'cc \<Rightarrow> nat \<Rightarrow> nat \<Rightarrow> nat \<Rightarrow> 'ct \<Rightarrow>
    ('g, 'ct) prog" where
  "accumulate F cc bStep stride extent ctxt =
     (let logbStep = bit_width bStep - 1 in
      bind_p (fold_p (acc_step F cc bStep stride extent) (shift_steps logbStep 1 extent) ctxt) (\<lambda>c.
      ret (if extent * stride = fd_slots F c then fd_set_slots F c stride else c)))"

definition accumulate_cascade :: "('g, 'cc, 'ct, 'pt, 'sk, 'x) fides_scheme \<Rightarrow> 'cc \<Rightarrow> nat \<Rightarrow> nat \<Rightarrow> nat \<Rightarrow>
    nat \<Rightarrow> 'ct \<Rightarrow> ('g, 'ct) prog" where
  "accumulate_cascade F cc bStep stride extent startFactor ctxt =
     (if bStep \<le> 1 \<or> startFactor \<le> 0 \<or> extent \<le> 0 then ret ctxt
      else let logbStep = bit_width bStep - 1 in
      bind_p (fold_p (acc_step F cc bStep stride extent) (shift_steps logbStep startFactor extent) ctxt) (\<lambda>c.
      ret (if extent * stride = fd_slots F c then fd_set_slots F c (stride * startFactor) else c)))"

text \<open>The two overloads of the API, on the GPU path.\<close>

definition accumulate_sum :: "('g, 'cc, 'ct, 'pt, 'sk, 'x) fides_scheme \<Rightarrow> 'cc \<Rightarrow> 'ct \<Rightarrow> nat \<Rightarrow> nat \<Rightarrow>
    ('g, 'ct) prog" where
  "accumulate_sum F cc ct slots stride = accumulate F cc 4 stride slots ct"

definition accumulate_sum_from :: "('g, 'cc, 'ct, 'pt, 'sk, 'x) fides_scheme \<Rightarrow> 'cc \<Rightarrow> 'ct \<Rightarrow> nat \<Rightarrow> nat \<Rightarrow>
    nat \<Rightarrow> ('g, 'ct) prog" where
  "accumulate_sum_from F cc ct slots stride start = accumulate_cascade F cc 4 stride slots start ct"

section \<open>What it computes\<close>

text \<open>Another window, rotated to where the sum so far ends, extends it.\<close>

lemma window_extend: "vadd (window t (s * c) v) (rot (t * int (s * c)) (window t s v)) = window t (s * Suc c) v"
proof (rule slots_eqI)
  fix i
  assume "vadd (window t (s * c) v) (rot (t * int (s * c)) (window t s v)) \<noteq> []"
  then have v: "v \<noteq> []"
    by (auto simp: vadd_def rot_def window_def)
  have "(\<Sum>k< s * Suc c. slot v (i + t * int k)) = (\<Sum>k< s * c. slot v (i + t * int k)) +
      (\<Sum>k< s. slot v (i + t * int (s * c + k)))"
    by (simp only: mult_Suc_right add.commute [of s] sum_split_add)
  also have "(\<Sum>k< s. slot v (i + t * int (s * c + k))) = (\<Sum>k< s. slot v (i + t * int (s * c) + t * int k))"
    by (simp add: algebra_simps)
  finally show "slot (vadd (window t (s * c) v) (rot (t * int (s * c)) (window t s v))) i =
      slot (window t (s * Suc c) v) i"
    using v by (simp add: slot_simps flip: length_greater_0_conv)
qed simp

text \<open>A window around the whole cycle looks the same from every slot of its stride.\<close>

lemma window_periodic:
  fixes v :: "real list"
  assumes "v \<noteq> []" and "\<And>i. slot v (i + s * int m) = slot v i"
  shows "slot (window s m v) (i + s) = slot (window s m v) i"
proof -
  let ?f = "\<lambda>k. slot v (i + s * int k)"
  have "(\<Sum>k<m. ?f (Suc k)) + ?f 0 = (\<Sum>k<Suc m. ?f k)"
    by (simp only: sum.lessThan_Suc_shift add.commute)
  also have "\<dots> = (\<Sum>k<m. ?f k) + ?f m"
    by (rule sum.lessThan_Suc)
  finally have "(\<Sum>k<m. ?f (Suc k)) = (\<Sum>k<m. ?f k)"
    using assms(2) [of i] by (simp del: of_nat_Suc)
  then show ?thesis
    using assms(1) by (simp add: slot_window algebra_simps)
qed


lemma acc_indexes_multiples:
  assumes "0 < stride" and "0 < start" and "0 < p"
  shows "acc_indexes b stride (start * (p * r)) (start * p) =
    map (\<lambda>k. stride * start * (p * k)) [1..<min r b]"
proof -
  let ?t = "stride * start * p"
  have "min (stride * (start * (p * r))) (b * stride * (start * p)) = ?t * min r b"
    by (simp add: mult_ac nat_mult_min_right)
  then have "acc_indexes b stride (start * (p * r)) (start * p) = idx_range ?t (?t * 1) (?t * min r b)"
    by (simp add: acc_indexes_def mult.assoc)
  also have "\<dots> = map (\<lambda>k. stride * start * (p * k)) [1..<min r b]"
    using assms by (subst idx_range_multiples) (simp_all add: mult_ac)
  finally show ?thesis .
qed

text \<open>
  A ciphertext that is marked with fewer slots than its context has carries a vector that repeats
  in them, and may be marked so when it does. A rotation keeps the mark, a sum has the larger one.
\<close>

definition marks_slots :: "('g, 'cc, 'ct, 'pt, 'sk, 'x) fides_scheme \<Rightarrow> ('g, 'cc, 'ct, 'pt) view \<Rightarrow> 'cc \<Rightarrow>
    'g \<Rightarrow> bool" where
  "marks_slots F V cc g \<longleftrightarrow>
     (\<forall>c v l i. carries V cc c v l \<longrightarrow> slot v (i + int (fd_slots F c)) = slot v i) \<and>
     (\<forall>c v l m. carries V cc c v l \<longrightarrow> (\<forall>i. slot v (i + int m) = slot v i) \<longrightarrow>
        carries V cc (fd_set_slots F c m) v l) \<and>
     (\<forall>c k r. ck_rotate (fd_api F) cc c k g = (Inr r, g) \<longrightarrow> fd_slots F r = fd_slots F c) \<and>
     (\<forall>a b v w l k r. carries V cc a v l \<longrightarrow> carries V cc b w k \<longrightarrow> ck_add (fd_api F) cc a b g = (Inr r, g) \<longrightarrow>
        fd_slots F r = max (fd_slots F a) (fd_slots F b))"

lemma marks_slotsD:
  assumes "marks_slots F V cc g"
  shows "carries V cc c v l \<Longrightarrow> slot v (i + int (fd_slots F c)) = slot v i"
    and "carries V cc c v l \<Longrightarrow> (\<And>i. slot v (i + int m) = slot v i) \<Longrightarrow> carries V cc (fd_set_slots F c m) v l"
    and "ck_rotate (fd_api F) cc c k g = (Inr r, g) \<Longrightarrow> fd_slots F r = fd_slots F c"
    and "carries V cc a v l \<Longrightarrow> carries V cc b w n \<Longrightarrow> ck_add (fd_api F) cc a b g = (Inr r, g) \<Longrightarrow>
      fd_slots F r = max (fd_slots F a) (fd_slots F b)"
  using assms unfolding marks_slots_def by blast+

definition marked :: "('g, 'cc, 'ct, 'pt, 'sk, 'x) fides_scheme \<Rightarrow> ('g, 'cc, 'ct, 'pt) view \<Rightarrow> 'cc \<Rightarrow> nat \<Rightarrow>
    'ct \<Rightarrow> real list \<Rightarrow> nat \<Rightarrow> bool" where
  "marked F V cc n c v l \<longleftrightarrow> carries V cc c v l \<and> fd_slots F c = n"

definition sum_ready :: "('g, 'cc, 'ct, 'pt, 'sk, 'x) fides_scheme \<Rightarrow> ('g, 'cc, 'ct, 'pt) view \<Rightarrow> 'cc \<Rightarrow> 'g \<Rightarrow> bool" where
  "sum_ready F V cc g \<longleftrightarrow> flexible_auto (fd_api F) V cc g \<and> marks_slots F V cc g"

lemma marked_rotate:
  assumes "sum_ready F V cc g" and "marked F V cc n a v l" and "k \<in> vs_rotations V g"
  shows "yields (ck_rotate (fd_api F) cc a k) g (\<lambda>c. marked F V cc n c (rot k v) l)"
  using fa_rotate [of "fd_api F" V cc g a v l k] marks_slotsD(3) [of F V cc g a k] assms
  by (auto simp: sum_ready_def marked_def yields_def)

lemma marked_add:
  assumes "sum_ready F V cc g" and "marked F V cc n a v l" and "marked F V cc n b w l"
  shows "yields (ck_add (fd_api F) cc a b) g (\<lambda>c. marked F V cc n c (vadd v w) l)"
  using fa_add [of "fd_api F" V cc g a v l b w l] marks_slotsD(4) [of F V cc g a v l b w l] assms
  by (auto simp: sum_ready_def marked_def yields_def)

lemma marked_window:
  assumes "sum_ready F V cc g" and "marked F V cc n ct v l" and "marked F V cc n c (window (int t) m v) l"
    and "t * m = n" and "v \<noteq> []"
  shows "carries V cc (fd_set_slots F c t) (window (int t) m v) l"
proof (rule marks_slotsD(2) [of F V cc g])
  have "slot v (i + int t * int m) = slot v i" for i
    using marks_slotsD(1) [of F V cc g ct v l i] assms by (simp add: sum_ready_def marked_def flip: of_nat_mult)
  then show "slot (window (int t) m v) (i + int t) = slot (window (int t) m v) i" for i
    by (rule window_periodic [OF assms(5)])
qed (use assms(1,3) in \<open>simp_all add: sum_ready_def marked_def\<close>)

lemma add_rotations_yields:
  assumes "sum_ready F V cc g"
    and "list_all2 (\<lambda>k a. marked F V cc n a (rot (t * int (p * k)) (window t p v)) l) [1..<N] aux"
    and "marked F V cc n ct (window t p v) l"
  shows "yields (fold_p (\<lambda>a c. ck_add (fd_api F) cc c a) aux ct) g
    (\<lambda>c. marked F V cc n c (window t (p * max 1 N) v) l)"
proof -
  have len: "length aux = N - 1"
    using list_all2_lengthD [OF assms(2)] by simp
  have "yields (fold_p (\<lambda>a c. ck_add (fd_api F) cc c a) aux ct) g
    (\<lambda>c. marked F V cc n c (window t (p * Suc (length aux)) v) l)"
  proof (rule yields_fold [where I = "\<lambda>ys c. marked F V cc n c (window t (p * Suc (length ys)) v) l"])
    fix ys a zs c
    assume split: "aux = ys @ a # zs" and c: "marked F V cc n c (window t (p * Suc (length ys)) v) l"
    have "length ys < length [1..<N]"
      using len split by simp
    from list_all2_nthD [OF assms(2) this] have
      "marked F V cc n a (rot (t * int (p * Suc (length ys))) (window t p v)) l"
      using len split by (simp add: nth_append del: of_nat_mult of_nat_Suc mult_Suc_right)
    from marked_add [OF assms(1) c this] show "yields (ck_add (fd_api F) cc c a) g
        (\<lambda>c. marked F V cc n c (window t (p * Suc (length (ys @ [a]))) v) l)"
      by (simp only: window_extend length_append_singleton)
  qed (use assms(3) in simp)
  then show ?thesis
    by (simp add: len max_def split: if_splits) (cases N; simp)
qed

lemma acc_step_yields:
  assumes fa: "sum_ready F V cc g" and pos: "0 < stride" "0 < start" "0 < p"
    and keys: "\<And>i. i \<in> set (acc_indexes b stride (start * (p * r)) (start * p)) \<Longrightarrow>
      int i \<in> vs_rotations V g"
    and ct: "marked F V cc n ct (window (int (stride * start)) p v) l"
  shows "yields (acc_step F cc b stride (start * (p * r)) (start * p) ct) g
    (\<lambda>c. marked F V cc n c (window (int (stride * start)) (p * max 1 (min r b)) v) l)"
proof -
  let ?t = "int (stride * start)" and ?idx = "acc_indexes b stride (start * (p * r)) (start * p)"
  have idx: "?idx = map (\<lambda>k. stride * start * (p * k)) [1..<min r b]"
    by (rule acc_indexes_multiples [OF pos])
  have "yields (for_p (\<lambda>i. ck_rotate (fd_api F) cc ct (int i)) ?idx) g
      (list_all2 (\<lambda>i a. marked F V cc n a (rot (int i) (window ?t p v)) l) ?idx)"
    by (rule yields_for) (rule marked_rotate [OF fa ct keys])
  then show ?thesis
    unfolding acc_step_def
  proof (rule yields_bind)
    fix aux
    assume "list_all2 (\<lambda>i a. marked F V cc n a (rot (int i) (window ?t p v)) l) ?idx aux"
    then have "list_all2 (\<lambda>k a. marked F V cc n a (rot (?t * int (p * k)) (window ?t p v)) l) [1..<min r b] aux"
      by (simp only: idx list.rel_map of_nat_mult)
    from add_rotations_yields [OF fa this ct] show "yields (fold_p (\<lambda>a c. ck_add (fd_api F) cc c a) aux ct) g
      (\<lambda>c. marked F V cc n c (window ?t (p * max 1 (min r b)) v) l)" .
  qed
qed

text \<open>All rotations of an accumulation.\<close>

definition acc_rotations :: "nat \<Rightarrow> nat \<Rightarrow> nat \<Rightarrow> nat \<Rightarrow> nat list" where
  "acc_rotations bStep stride start extent =
     concat (map (acc_indexes bStep stride extent) (shift_steps (bit_width bStep - 1) start extent))"

lemma acc_loop_yields:
  assumes fa: "sum_ready F V cc g" and pos: "0 < stride" "0 < start"
    and keys: "\<And>i. i \<in> set (concat (map (acc_indexes 4 stride (start * 2 ^ m))
      (shift_steps 2 (start * 2 ^ a) (start * 2 ^ m)))) \<Longrightarrow> int i \<in> vs_rotations V g"
    and ct: "marked F V cc n ct (window (int (stride * start)) (2 ^ a) v) l" and am: "a \<le> m"
  shows "yields (fold_p (acc_step F cc 4 stride (start * 2 ^ m)) (shift_steps 2 (start * 2 ^ a)
    (start * 2 ^ m)) ct) g (\<lambda>c. marked F V cc n c (window (int (stride * start)) (2 ^ m) v) l)"
  using am ct keys
proof (induction "m - a" arbitrary: a ct rule: less_induct)
  case less
  let ?t = "int (stride * start)"
  show ?case
  proof (cases "a = m")
    case True
    with less.prems(2) show ?thesis by (subst shift_steps.simps) simp
  next
    case False
    with less.prems(1) obtain d where d: "m = a + Suc d"
      using less_imp_Suc_add [of a m] by auto
    have steps: "shift_steps 2 (start * 2 ^ a) (start * 2 ^ m) =
        start * 2 ^ a # shift_steps 2 (start * 2 ^ (a + 2)) (start * 2 ^ m)"
    proof -
      have "start * 2 ^ a < start * 2 ^ m"
        using pos(2) power_strict_increasing [of a m "2::nat"] by (simp add: d del: power_Suc)
      then show ?thesis
        using pos(2) by (subst shift_steps.simps) (simp add: power_add mult_ac)
    qed
    have ext: "start * 2 ^ m = start * (2 ^ a * 2 ^ Suc d)"
      by (simp add: d power_add)
    have keys: "int i \<in> vs_rotations V g"
      if "i \<in> set (acc_indexes 4 stride (start * 2 ^ m) (start * 2 ^ a))" for i
      by (rule less.prems(3)) (use that in \<open>simp add: steps\<close>)
    have step: "yields (acc_step F cc 4 stride (start * 2 ^ m) (start * 2 ^ a) ct) g
        (\<lambda>c. marked F V cc n c (window ?t (2 ^ a * max 1 (min (2 ^ Suc d) 4)) v) l)"
      unfolding ext
      by (rule acc_step_yields [OF fa pos _ keys [unfolded ext] less.prems(2)]) simp_all
    show ?thesis
      unfolding steps fold_p.simps
    proof (rule yields_bind [OF step])
      fix c
      assume c: "marked F V cc n c (window ?t (2 ^ a * max 1 (min (2 ^ Suc d) 4)) v) l"
      show "yields (fold_p (acc_step F cc 4 stride (start * 2 ^ m)) (shift_steps 2 (start * 2 ^ (a + 2))
          (start * 2 ^ m)) c) g (\<lambda>c. marked F V cc n c (window ?t (2 ^ m) v) l)"
      proof (cases d)
        case 0
        have "shift_steps 2 (start * 2 ^ (a + 2)) (start * 2 ^ m) = []"
          by (subst shift_steps.simps) (simp add: d 0)
        moreover have "2 ^ a * max 1 (min (2 ^ Suc d) 4) = (2::nat) ^ m"
          by (simp add: d 0)
        ultimately show ?thesis using c by (simp only: fold_p.simps yields_ret)
      next
        case (Suc e)
        have "(4::nat) \<le> 2 ^ Suc d"
          by (simp add: Suc)
        then have "2 ^ a * max 1 (min (2 ^ Suc d) 4) = (2::nat) ^ (a + 2)"
          by (simp add: power_add min_def)
        with c have "marked F V cc n c (window ?t (2 ^ (a + 2)) v) l" by (simp only:)
        moreover have "m - (a + 2) < m - a" "a + 2 \<le> m"
          by (simp_all add: d Suc)
        moreover have "int i \<in> vs_rotations V g" if "i \<in> set (concat (map (acc_indexes 4 stride
          (start * 2 ^ m)) (shift_steps 2 (start * 2 ^ (a + 2)) (start * 2 ^ m))))" for i
          by (rule less.prems(3)) (use that in \<open>simp only: steps list.map concat.simps set_append Un_iff simp_thms\<close>)
        ultimately show ?thesis
          by (intro less.hyps)
      qed
    qed
  qed
qed

section \<open>The primitives\<close>

lemma accumulate_sum_yields:
  assumes "sum_ready F V cc g" and "carries V cc ct v l" and "v \<noteq> []" and "0 < stride"
    and "\<And>i. i \<in> set (acc_rotations 4 stride 1 (2 ^ m)) \<Longrightarrow> int i \<in> vs_rotations V g"
  shows "yields (accumulate_sum F cc ct (2 ^ m) stride) g (\<lambda>c. carries V cc c (window (int stride) (2 ^ m) v) l)"
proof -
  let ?n = "fd_slots F ct"
  have ct: "marked F V cc ?n ct v l" using assms(2) by (simp add: marked_def)
  note keys = assms(5) [unfolded acc_rotations_def bit_width_4]
  have "yields (fold_p (acc_step F cc 4 stride (2 ^ m)) (shift_steps 2 1 (2 ^ m)) ct) g
      (\<lambda>c. marked F V cc ?n c (window (int stride) (2 ^ m) v) l)"
    using acc_loop_yields [OF assms(1,4), of 1 m 0 ?n ct v l] keys ct
    by (simp add: window_1)
  then show ?thesis
    unfolding accumulate_sum_def accumulate_def Let_def bit_width_4
    using marked_window [OF assms(1) ct _ _ assms(3), of _ stride "2 ^ m"]
    by (elim yields_bind) (auto simp: marked_def mult.commute)
qed

lemma accumulate_sum_from_yields:
  assumes "sum_ready F V cc g" and "carries V cc ct v l" and "v \<noteq> []" and "0 < stride" "0 < start"
    and "\<And>i. i \<in> set (acc_rotations 4 stride start (start * 2 ^ m)) \<Longrightarrow> int i \<in> vs_rotations V g"
  shows "yields (accumulate_sum_from F cc ct (start * 2 ^ m) stride start) g
    (\<lambda>c. carries V cc c (window (int (stride * start)) (2 ^ m) v) l)"
proof -
  let ?n = "fd_slots F ct"
  have ct: "marked F V cc ?n ct v l" using assms(2) by (simp add: marked_def)
  note keys = assms(6) [unfolded acc_rotations_def bit_width_4]
  have "yields (fold_p (acc_step F cc 4 stride (start * 2 ^ m)) (shift_steps 2 start (start * 2 ^ m)) ct) g
      (\<lambda>c. marked F V cc ?n c (window (int (stride * start)) (2 ^ m) v) l)"
    using acc_loop_yields [OF assms(1,4,5), of m 0 ?n ct v l] keys ct
    by (simp add: window_1)
  then show ?thesis
    unfolding accumulate_sum_from_def accumulate_cascade_def Let_def bit_width_4
    using marked_window [OF assms(1) ct _ _ assms(3), of _ "stride * start" "2 ^ m"] assms(5)
    by (auto elim!: yields_bind simp: marked_def mult_ac)
qed

end
