(* ===== verification/Gpu_Training.thy ===== *)
theory Gpu_Training
  imports Accumulate Client_Logreg Server_Gpu
begin

text \<open>
  The logistic regression of \<open>gpucc-vfhe\<close> (\<open>workloads/logistic_regression.cpp\<close>): the same training
  on a GPU, through FIDESlib. The client generates all keys; the server binds the GPU context to the
  public key it stored last, uploads the ciphertexts, trains, and brings the result back.
\<close>

section \<open>Rotation indices\<close>

definition kAccBStep :: nat where "kAccBStep = 4"

text \<open>\<open>%\<close> and \<open>/\<close> of C++ round towards zero.\<close>

definition reduce_rotation :: "int \<Rightarrow> int" where
  "reduce_rotation idx =
     (let n = int lr_kBatchSize;
          r = ((idx smod n) + n) smod n
      in if r > n sdiv 2 then r - n else r)"

definition emit_accumulate_indices :: "int list \<Rightarrow> nat \<Rightarrow> nat \<Rightarrow> int list" where
  "emit_accumulate_indices out stride extent =
     (let logbStep = 2 in
      out @ map (\<lambda>idx. reduce_rotation (int idx)) (concat (map
        (\<lambda>s. idx_range (stride * s) (stride * s) (min (stride * extent) (kAccBStep * stride * s)))
        (shift_steps logbStep 1 extent))))"

definition emit_accumulate_cascade_indices :: "int list \<Rightarrow> nat \<Rightarrow> nat \<Rightarrow> nat \<Rightarrow> int list" where
  "emit_accumulate_cascade_indices out stride extent startFactor =
     (let logbStep = 2 in
      out @ map (\<lambda>idx. reduce_rotation (int idx)) (concat (map
        (\<lambda>s. idx_range (stride * s) (stride * s) (min (stride * extent) (kAccBStep * stride * s)))
        (shift_steps logbStep startFactor extent))))"

text \<open>The client makes keys for these, sorted and without duplicates; the server loads them.\<close>

definition logreg_rotation_indices :: "int list" where
  "logreg_rotation_indices =
     (let r1 = emit_accumulate_indices [] 1 lr_kCols;
          r2 = emit_accumulate_indices r1 (lr_kBatchSize - 1) lr_kCols;
          r3 = emit_accumulate_cascade_indices r2 1 (lr_kRows * lr_kCols) lr_kCols;
          rotations = r3 @ [3, 5, 6, 7, 9, 10, 11, 12, 13, 14, 15, 257]
      in remdups_adj (sort rotations))"

lemma smod_wrap:
  fixes n :: int
  assumes "0 < n"
  shows "(k smod n + n) smod n = k mod n"
proof -
  have pos: "x smod n = x mod n" if "0 < x" for x
    using that assms by (simp add: smod_int_alt_def)
  have "0 < k smod n + n"
    using smod_int_range [of n k] assms by auto
  from pos [OF this] have "(k smod n + n) smod n = (k smod n + n) mod n" .
  also have "\<dots> = k smod n mod n"
    by simp
  also have "\<dots> = k mod n"
    by (simp add: signed_modulo_int_eq_modulo_int mod_diff_eq)
  finally show ?thesis .
qed

text \<open>The reduced index is the one in \<open>(-n/2, n/2]\<close> that rotates the same way.\<close>

lemma reduce_rotation:
  "int lr_kBatchSize dvd k - reduce_rotation k"
  "- (int lr_kBatchSize div 2) < reduce_rotation k" "reduce_rotation k \<le> int lr_kBatchSize div 2"
proof -
  let ?n = "int lr_kBatchSize"
  have n: "0 < ?n" "?n sdiv 2 = ?n div 2" "2 * (?n div 2) = ?n"
    by (simp_all add: lr_kBatchSize_def signed_divide_int_def)
  have r: "reduce_rotation k = (if k mod ?n > ?n div 2 then k mod ?n - ?n else k mod ?n)"
    using n by (simp add: reduce_rotation_def smod_wrap Let_def)
  have d: "?n dvd k - k mod ?n" by (simp add: minus_mod_eq_mult_div)
  then have "?n dvd (k - k mod ?n) + ?n" by (rule dvd_add) simp
  then have "?n dvd k - (k mod ?n - ?n)" by (simp only: diff_diff_eq2 diff_add_eq)
  with d show "?n dvd k - reduce_rotation k"
    by (simp only: r split: if_split) simp
  show "- (?n div 2) < reduce_rotation k" "reduce_rotation k \<le> ?n div 2"
    using n pos_mod_bound [OF n(1), of k] pos_mod_sign [OF n(1), of k] by (simp_all add: r)
qed

text \<open>The client makes keys for what the accumulations of the training rotate by.\<close>

lemma emit_acc_rotations:
  "emit_accumulate_indices out stride n =
    out @ map (\<lambda>i. reduce_rotation (int i)) (acc_rotations 4 stride 1 n)"
  "emit_accumulate_cascade_indices out stride n start =
    out @ map (\<lambda>i. reduce_rotation (int i)) (acc_rotations 4 stride start n)"
  by (simp_all add: emit_accumulate_indices_def emit_accumulate_cascade_indices_def acc_rotations_def
      acc_indexes_def [abs_def] bit_width_4 [simplified] kAccBStep_def)

lemma rotation_keys_suffice:
  assumes "i \<in> set (acc_rotations 4 1 1 lr_kCols) \<or> i \<in> set (acc_rotations 4 (lr_kBatchSize - 1) 1 lr_kCols) \<or>
    i \<in> set (acc_rotations 4 1 lr_kCols (lr_kRows * lr_kCols))"
  shows "reduce_rotation (int i) \<in> set logreg_rotation_indices"
  using assms by (auto simp: logreg_rotation_indices_def Let_def emit_acc_rotations)

section \<open>The GPU library\<close>

text \<open>
  The context object of FIDESlib with the fields that the server assigns before \<open>LoadContext\<close>, and
  the calls that go beyond its CKKS operations. Ciphertexts are values: \<open>Clone\<close> and the operations
  in place return what the ciphertext becomes.
\<close>

record ('gcc, 'cc) gpu_context =
  gc_handle :: 'gcc
  gc_cpu :: 'cc
  gc_rotation_indexes :: "int list"
  gc_slots_bootstrap :: "nat list"

record ('g, 'gcc, 'gct, 'gpt, 'gsk, 'cc, 'ct, 'pt, 'pk) gpu_fides =
  "('g, 'gcc, 'gct, 'gpt, 'gsk) fides" +
  fd_gen :: "cc_params \<Rightarrow> int list \<Rightarrow> ('g, 'gcc) prog"
  fd_pk_context :: "'pk \<Rightarrow> 'cc"
  fd_encrypt :: "'cc \<Rightarrow> 'pk \<Rightarrow> 'pt \<Rightarrow> ('g, 'ct) prog"
  fd_load_context :: "('gcc, 'cc) gpu_context \<Rightarrow> 'pk \<Rightarrow> ('g, unit) prog"
  fd_load_ciphertext :: "'gcc \<Rightarrow> 'ct \<Rightarrow> ('g, 'gct) prog"
  fd_clone :: "'gct \<Rightarrow> ('g, 'gct) prog"
  fd_synchronize :: "'gcc \<Rightarrow> ('g, unit) prog"
  fd_shadow :: "'gct \<Rightarrow> 'ct"
  fd_sync_to_cpu :: "'gcc \<Rightarrow> 'ct \<Rightarrow> 'gct \<Rightarrow> ('g, 'ct) prog"

type_synonym ('g, 'gcc, 'gct, 'gpt, 'gsk, 'cc, 'ct, 'pt, 'pk) gpu =
  "('g, 'gcc, 'gct, 'gpt, 'gsk, 'cc, 'ct, 'pt, 'pk) gpu_fides"

section \<open>Client keys and server context\<close>

definition make_gpu_logistic_context :: "('g, 'cc, 'ct, 'pt, 'sk) ckks \<Rightarrow> ('g, 'cc) prog" where
  "make_gpu_logistic_context C =
     gen_context C logistic_params [PKE, KEYSWITCH, LEVELEDSHE, ADVANCEDSHE, FHE]"

definition gpu_logistic_gen_keys :: "('g, 'cc, 'ct, 'pt, 'sk) ckks \<Rightarrow> 'cc \<Rightarrow> 'sk \<Rightarrow> ('g, unit) prog" where
  "gpu_logistic_gen_keys C cc kp =
     bind_p (ck_mult_keygen C cc kp) (\<lambda>_.
     bind_p (ck_boot_setup C cc [2, 2] [16, 16] lr_kCols) (\<lambda>_.
     bind_p (ck_boot_keygen C cc kp lr_kCols) (\<lambda>_.
     ck_rotate_keygen C cc kp logreg_rotation_indices)))"

definition create_gpu_context :: "('g, 'gcc, 'gct, 'gpt, 'gsk, 'cc, 'ct, 'pt, 'pk) gpu \<Rightarrow>
    ('g, 'cc, 'ct, 'pt, 'sk) ckks \<Rightarrow> 'pk option \<Rightarrow> ('g, ('gcc, 'cc) gpu_context) prog" where
  "create_gpu_context F C g_client_pk = (case g_client_pk of
      None \<Rightarrow> raise (Throw (Runtime_error
        ''create_gpu_context: client public key not set (call set_client_public_key first)''))
    | Some pk \<Rightarrow>
        bind_p (fd_gen F logistic_params [0]) (\<lambda>h.
        bind_p (for_p (ck_enable (fd_api F) h) [PKE, KEYSWITCH, LEVELEDSHE, ADVANCEDSHE, FHE]) (\<lambda>_.
        let client_cc = fd_pk_context F pk in
        bind_p (ck_boot_setup C client_cc [2, 2] [16, 16] lr_kCols) (\<lambda>_.
        let gpu_cc = \<lparr>gc_handle = h, gc_cpu = client_cc,
              gc_rotation_indexes = logreg_rotation_indices, gc_slots_bootstrap = [lr_kCols]\<rparr> in
        bind_p (fd_load_context F gpu_cc pk) (\<lambda>_. ret gpu_cc)))))"

definition gpu_to_openfhe :: "('g, 'gcc, 'gct, 'gpt, 'gsk, 'cc, 'ct, 'pt, 'pk) gpu \<Rightarrow>
    ('g, 'cc, 'ct, 'pt, 'sk) ckks \<Rightarrow> 'pk option \<Rightarrow> ('gcc, 'cc) gpu_context \<Rightarrow> 'gct \<Rightarrow> ('g, 'ct) prog" where
  "gpu_to_openfhe F C g_client_pk gpu_cc gpu_ct = (case g_client_pk of
      None \<Rightarrow> fd_sync_to_cpu F (gc_handle gpu_cc) (fd_shadow F gpu_ct) gpu_ct
    | Some pk \<Rightarrow>
        let client_cc = fd_pk_context F pk in
        bind_p (ck_pack_slots C client_cc (replicate lr_kCols 0) 1 0 lr_kBatchSize) (\<lambda>tmpl_pt.
        bind_p (fd_encrypt F client_cc pk tmpl_pt) (\<lambda>tmpl_ct.
        fd_sync_to_cpu F (gc_handle gpu_cc) tmpl_ct gpu_ct)))"

section \<open>Training on the GPU\<close>

definition gpu_row_accumulate :: "('g, 'cc, 'ct, 'pt, 'sk, 'x) fides_scheme \<Rightarrow> 'cc \<Rightarrow> 'ct \<Rightarrow> ('g, 'ct) prog" where
  "gpu_row_accumulate F cc ct = accumulate_sum F cc ct lr_kCols 1"

definition gpu_row_propagate :: "('g, 'cc, 'ct, 'pt, 'sk, 'x) fides_scheme \<Rightarrow> 'cc \<Rightarrow> 'ct \<Rightarrow> ('g, 'ct) prog" where
  "gpu_row_propagate F cc ct = accumulate_sum F cc ct lr_kCols (lr_kBatchSize - 1)"

definition gpu_col_accumulate :: "('g, 'cc, 'ct, 'pt, 'sk, 'x) fides_scheme \<Rightarrow> 'cc \<Rightarrow> 'ct \<Rightarrow> ('g, 'ct) prog" where
  "gpu_col_accumulate F cc ct = accumulate_sum_from F cc ct (lr_kRows * lr_kCols) 1 lr_kCols"

definition activation_gpu :: "('g, 'cc, 'ct, 'pt, 'sk, 'x) fides_scheme \<Rightarrow> 'cc \<Rightarrow> 'ct \<Rightarrow> 'pt \<Rightarrow> 'pt \<Rightarrow> 'pt \<Rightarrow>
    ('g, 'ct) prog" where
  "activation_gpu F cc ct mask_0 mask_1 mask_3 =
     bind_p (ck_square (fd_api F) cc ct) (\<lambda>ct3.
     bind_p (ck_mult_pt (fd_api F) cc ct mask_3) (\<lambda>aux.
     bind_p (ck_mult (fd_api F) cc ct3 aux) (\<lambda>ct3'.
     bind_p (ck_mult_pt (fd_api F) cc ct mask_1) (\<lambda>ct'.
     bind_p (ck_add (fd_api F) cc ct' ct3') (\<lambda>ct''.
     ck_add_pt (fd_api F) cc ct'' mask_0)))))"

definition gpu_logistic_step :: "('g, 'gcc, 'gct, 'gpt, 'gsk, 'cc, 'ct, 'pt, 'pk) gpu \<Rightarrow> 'gcc \<Rightarrow>
    'gpt \<Rightarrow> 'gpt \<Rightarrow> 'gpt \<Rightarrow> 'gct list \<Rightarrow> nat \<Rightarrow> 'gct \<Rightarrow> ('g, 'gct) prog" where
  "gpu_logistic_step F cc mask_0 mask_1 mask_3 gpu_inputs iter weights =
     bind_p (fd_clone F (gpu_inputs ! iter)) (\<lambda>data.
     let labels = gpu_inputs ! (lr_kNumBatches + iter) in
     bind_p (ck_mult (fd_api F) cc data weights) (\<lambda>c0.
     bind_p (gpu_row_accumulate F cc c0) (\<lambda>c1.
     bind_p (activation_gpu F cc c1 mask_0 mask_1 mask_3) (\<lambda>c2.
     bind_p (ck_sub (fd_api F) cc c2 labels) (\<lambda>c3.
     bind_p (gpu_row_propagate F cc c3) (\<lambda>c4.
     bind_p (ck_mult_const (fd_api F) cc data (lr_scale iter)) (\<lambda>data_scaled.
     bind_p (ck_mult (fd_api F) cc c4 data_scaled) (\<lambda>c5.
     bind_p (gpu_col_accumulate F cc c5) (\<lambda>c6.
     ck_sub (fd_api F) cc weights c6)))))))))"

text \<open>
  The evaluation, on the public key that the static variable holds when it starts: a context, and in
  it the masks, the upload, the loop and the way back.
\<close>

definition train_in_context :: "('g, 'gcc, 'gct, 'gpt, 'gsk, 'cc, 'ct, 'pt, 'pk) gpu \<Rightarrow>
    ('g, 'cc, 'ct, 'pt, 'sk) ckks \<Rightarrow> 'pk option \<Rightarrow> ('gcc, 'cc) gpu_context \<Rightarrow> 'ct list \<Rightarrow> ('g, 'ct) prog" where
  "train_in_context F C g_client_pk gpu_cc inputs =
     (let h = gc_handle gpu_cc in
      bind_p (ck_pack_slots (fd_api F) h (lr_mask (1/2)) 1 0 lr_kCols) (\<lambda>mask_0.
      bind_p (ck_pack_slots (fd_api F) h (lr_mask (15/100)) 1 0 lr_kCols) (\<lambda>mask_1.
      bind_p (ck_pack_slots (fd_api F) h (lr_mask (-15/10000)) 1 0 lr_kCols) (\<lambda>mask_3.
      bind_p (for_p (fd_load_ciphertext F h) inputs) (\<lambda>gpu_inputs.
      bind_p (fd_synchronize F h) (\<lambda>_.
      bind_p (fold_p (gpu_logistic_step F h mask_0 mask_1 mask_3 gpu_inputs) [0..<lr_kNumIterations]
        (gpu_inputs ! 20)) (\<lambda>weights.
      bind_p (fd_synchronize F h) (\<lambda>_.
      gpu_to_openfhe F C g_client_pk gpu_cc weights))))))))"

definition gpu_train :: "('g, 'gcc, 'gct, 'gpt, 'gsk, 'cc, 'ct, 'pt, 'pk) gpu \<Rightarrow>
    ('g, 'cc, 'ct, 'pt, 'sk) ckks \<Rightarrow> 'pk option \<Rightarrow> 'ct list \<Rightarrow> ('g, 'ct) prog" where
  "gpu_train F C g_client_pk inputs =
     (if length inputs \<noteq> lr_kNumInputs then
        raise (Throw (Runtime_error (''logistic-regression requires '' @ dec_str lr_kNumInputs @
          '' inputs, got '' @ dec_str (length inputs))))
      else
        bind_p (create_gpu_context F C g_client_pk) (\<lambda>gpu_cc.
        train_in_context F C g_client_pk gpu_cc inputs))"

definition gpu_logistic_eval :: "('g, 'gcc, 'gct, 'gpt, 'gsk, 'cc, 'ct, 'pt, 'pk) gpu \<Rightarrow>
    ('g, 'cc, 'ct, 'pt, 'sk) ckks \<Rightarrow> ('g, 'cc, 'ct, 'pk) gpu_workload" where
  "gpu_logistic_eval F C cc inputs = (\<lambda>s. in_gpu_lib (gpu_train F C (gg_client_pk s) inputs) s)"

section \<open>What the library promises\<close>

text \<open>
  A loaded context computes on what is uploaded to it, rotates by every index that is congruent to
  a loaded one modulo the number of slots, and brings a result back into a template that has at
  least as many levels left.
\<close>

definition gpu_loaded :: "('g, 'gcc, 'gct, 'gpt, 'gsk, 'cc, 'ct, 'pt, 'pk) gpu \<Rightarrow>
    ('g, 'cc, 'ct, 'pt) view \<Rightarrow> ('g, 'gcc, 'gct, 'gpt) view \<Rightarrow> ('gcc, 'cc) gpu_context \<Rightarrow> 'g \<Rightarrow> bool" where
  "gpu_loaded F V W gx g \<longleftrightarrow>
     (let h = gc_handle gx; cc = gc_cpu gx in
     sum_ready F W h g \<and> vs_mult W g \<and>
     (\<forall>k r. r \<in> set (gc_rotation_indexes gx) \<longrightarrow> int (cp_batch (vs_params W h)) dvd k - r \<longrightarrow>
        k \<in> vs_rotations W g) \<and>
     (\<forall>c v l. carries V cc c v l \<longrightarrow> yields (fd_load_ciphertext F h c) g (\<lambda>d. carries W h d v l)) \<and>
     (\<forall>d v l. carries W h d v l \<longrightarrow> yields (fd_clone F d) g (\<lambda>e. carries W h e v l)) \<and>
     yields (fd_synchronize F h) g (\<lambda>_. True) \<and>
     (\<forall>d v l t u k. carries W h d v l \<longrightarrow> carries V cc t u k \<longrightarrow> k \<le> l \<longrightarrow>
        yields (fd_sync_to_cpu F h t d) g (\<lambda>c. carries V cc c v l)))"

lemma gpu_loadedD:
  assumes "gpu_loaded F V W gx g"
  shows "sum_ready F W (gc_handle gx) g" and "vs_mult W g"
    and "r \<in> set (gc_rotation_indexes gx) \<Longrightarrow> int (cp_batch (vs_params W (gc_handle gx))) dvd k - r \<Longrightarrow>
      k \<in> vs_rotations W g"
    and "carries V (gc_cpu gx) c v l \<Longrightarrow>
      yields (fd_load_ciphertext F (gc_handle gx) c) g (\<lambda>d. carries W (gc_handle gx) d v l)"
    and "carries W (gc_handle gx) d v l \<Longrightarrow> yields (fd_clone F d) g (\<lambda>e. carries W (gc_handle gx) e v l)"
    and "yields (fd_synchronize F (gc_handle gx)) g (\<lambda>_. True)"
    and "carries W (gc_handle gx) d v l \<Longrightarrow> carries V (gc_cpu gx) t u m \<Longrightarrow> m \<le> l \<Longrightarrow>
      yields (fd_sync_to_cpu F (gc_handle gx) t d) g (\<lambda>c. carries V (gc_cpu gx) c v l)"
  using assms unfolding gpu_loaded_def Let_def by blast+

text \<open>
  \<open>LoadContext\<close> needs the keys that the client made: for relinearization, and for every rotation in
  the list that it is given.
\<close>

definition gpu_works :: "('g, 'gcc, 'gct, 'gpt, 'gsk, 'cc, 'ct, 'pt, 'pk) gpu \<Rightarrow>
    ('g, 'cc, 'ct, 'pt) view \<Rightarrow> ('g, 'gcc, 'gct, 'gpt) view \<Rightarrow> bool" where
  "gpu_works F V W \<longleftrightarrow>
     (\<forall>ps ds g. runs (fd_gen F ps ds) g (\<lambda>h g'. vs_params W h = ps \<and> keeps V g g')) \<and>
     (\<forall>h f g. runs (ck_enable (fd_api F) h f) g (\<lambda>_. keeps V g)) \<and>
     (\<forall>cc pk p w g. packs V cc p w \<longrightarrow>
        yields (fd_encrypt F cc pk p) g (\<lambda>c. carries V cc c w (vs_plain_level V p))) \<and>
     (\<forall>gx pk g. vs_params V (gc_cpu gx) = vs_params W (gc_handle gx) \<longrightarrow>
        cp_technique (vs_params W (gc_handle gx)) = FLEXIBLEAUTO \<longrightarrow> vs_mult V g \<longrightarrow>
        set (gc_rotation_indexes gx) \<subseteq> vs_rotations V g \<longrightarrow>
        runs (fd_load_context F gx pk) g (\<lambda>_ g'. keeps V g g' \<and> gpu_loaded F V W gx g'))"

lemma gpu_worksD:
  assumes "gpu_works F V W"
  shows "runs (fd_gen F ps ds) g (\<lambda>h g'. vs_params W h = ps \<and> keeps V g g')"
    and "runs (ck_enable (fd_api F) h f) g (\<lambda>_. keeps V g)"
    and "packs V cc p w \<Longrightarrow> yields (fd_encrypt F cc pk p) g (\<lambda>c. carries V cc c w (vs_plain_level V p))"
    and "vs_params V (gc_cpu gx) = vs_params W (gc_handle gx) \<Longrightarrow>
      cp_technique (vs_params W (gc_handle gx)) = FLEXIBLEAUTO \<Longrightarrow> vs_mult V g \<Longrightarrow>
      set (gc_rotation_indexes gx) \<subseteq> vs_rotations V g \<Longrightarrow>
      runs (fd_load_context F gx pk) g (\<lambda>_ g'. keeps V g g' \<and> gpu_loaded F V W gx g')"
  using assms unfolding gpu_works_def by blast+

section \<open>The sums of the GPU\<close>

text \<open>A context that is loaded for the training.\<close>

definition gpu_ready :: "('g, 'gcc, 'gct, 'gpt, 'gsk, 'cc, 'ct, 'pt, 'pk) gpu \<Rightarrow>
    ('g, 'cc, 'ct, 'pt) view \<Rightarrow> ('g, 'gcc, 'gct, 'gpt) view \<Rightarrow> ('gcc, 'cc) gpu_context \<Rightarrow> 'g \<Rightarrow> bool" where
  "gpu_ready F V W gx g \<longleftrightarrow> gpu_loaded F V W gx g \<and> vs_params W (gc_handle gx) = logistic_params \<and>
     gc_rotation_indexes gx = logreg_rotation_indices"

lemma gpu_readyD:
  assumes "gpu_ready F V W gx g"
  shows "gpu_loaded F V W gx g" and "sum_ready F W (gc_handle gx) g"
    and "circuit_ready (fd_api F) W (gc_handle gx) g"
    and "reduce_rotation k \<in> set logreg_rotation_indices \<Longrightarrow> k \<in> vs_rotations W g"
    and "vs_params W (gc_handle gx) = logistic_params"
proof -
  show loaded: "gpu_loaded F V W gx g" and ps: "vs_params W (gc_handle gx) = logistic_params"
    using assms by (simp_all add: gpu_ready_def)
  show "sum_ready F W (gc_handle gx) g" "circuit_ready (fd_api F) W (gc_handle gx) g"
    using gpu_loadedD(1,2) [OF loaded] ps by (simp_all add: circuit_ready_def sum_ready_def)
  have "cp_batch (vs_params W (gc_handle gx)) = lr_kBatchSize"
    by (simp add: ps logistic_params_def set_params_def)
  then show "reduce_rotation k \<in> set logreg_rotation_indices \<Longrightarrow> k \<in> vs_rotations W g"
    using gpu_loadedD(3) [OF loaded, of "reduce_rotation k" k] assms reduce_rotation(1) [of k]
    by (simp add: gpu_ready_def)
qed

text \<open>A stride of all slots but one is a step back.\<close>

lemma window_back: "window (int (length v - 1)) n v = window (-1) n v"
proof (rule slots_eqI)
  fix i
  assume "window (int (length v - 1)) n v \<noteq> []"
  then have v: "v \<noteq> []" by simp
  then have l: "int (length v - 1) = int (length v) - 1" by (cases v) simp_all
  have "slot v (i + int (length v - 1) * int k) = slot v (i + -1 * int k)" for k
  proof -
    have "i + int (length v - 1) * int k = (i + -1 * int k) + int k * int (length v)"
      by (simp only: l) (simp add: algebra_simps)
    then show ?thesis by (simp only: slot_def mod_mult_self1)
  qed
  with v show "slot (window (int (length v - 1)) n v) i = slot (window (-1) n v) i"
    by (simp only: slot_window not_False_eq_True)
qed simp

lemma gpu_sums_yield:
  assumes "gpu_ready F V W gx g" and "carries W (gc_handle gx) ct v l"
  shows "yields (gpu_row_accumulate F (gc_handle gx) ct) g
      (\<lambda>c. carries W (gc_handle gx) c (window 1 lr_kCols v) l)"
    and "yields (gpu_row_propagate F (gc_handle gx) ct) g
      (\<lambda>c. carries W (gc_handle gx) c (window (-1) lr_kCols v) l)"
    and "yields (gpu_col_accumulate F (gc_handle gx) ct) g
      (\<lambda>c. carries W (gc_handle gx) c (window (int lr_kCols) lr_kRows v) l)"
proof -
  note ready = gpu_readyD [OF assms(1)]
  have len: "length v = lr_kBatchSize"
    using carries_length(1) [OF assms(2)] by (simp add: ready(5) logistic_params_def set_params_def)
  have ne: "v \<noteq> []"
    using len by (auto simp: lr_kBatchSize_def)
  have pos: "0 < lr_kBatchSize - 1" "0 < lr_kCols"
    by (simp_all add: lr_kBatchSize_def lr_kCols_def)
  note sum = accumulate_sum_yields [OF ready(2) assms(2) ne, of _ 8, folded lr_dims(4)]
  show "yields (gpu_row_accumulate F (gc_handle gx) ct) g
      (\<lambda>c. carries W (gc_handle gx) c (window 1 lr_kCols v) l)"
    unfolding gpu_row_accumulate_def
    using sum [of 1] ready(4) rotation_keys_suffice by simp
  show "yields (gpu_row_propagate F (gc_handle gx) ct) g
      (\<lambda>c. carries W (gc_handle gx) c (window (-1) lr_kCols v) l)"
    unfolding gpu_row_propagate_def
    using sum [OF pos(1)] ready(4) rotation_keys_suffice window_back [of v lr_kCols] by (simp add: len)
  have dims: "(2::nat) ^ 7 = lr_kRows" "1 * lr_kCols = lr_kCols"
    by (simp_all add: lr_dims(5))
  show "yields (gpu_col_accumulate F (gc_handle gx) ct) g
      (\<lambda>c. carries W (gc_handle gx) c (window (int lr_kCols) lr_kRows v) l)"
    unfolding gpu_col_accumulate_def mult.commute [of lr_kRows]
    by (rule accumulate_sum_from_yields [OF ready(2) assms(2) ne _ pos(2), of 1 7, unfolded dims])
      (simp_all add: ready(4) rotation_keys_suffice mult.commute [of lr_kCols])
qed

section \<open>The training\<close>

lemma activation_gpu_eq: "activation_gpu F = activation (fd_api F)"
  by (intro ext) (simp add: activation_gpu_def activation_def)

lemma gpu_logistic_step_yields:
  assumes "gpu_ready F V W gx g" and "l + 3 < lr_kMultDepth" and "l0 \<le> l"
    and "packs W (gc_handle gx) m0 (column_slots (\<lambda>_. 1/2))"
    and "packs W (gc_handle gx) m1 (column_slots (\<lambda>_. 15/100))"
    and "packs W (gc_handle gx) m3 (column_slots (\<lambda>_. -15/10000))"
    and "carries W (gc_handle gx) (inputs ! iter) (batch_slots M) l0"
    and "carries W (gc_handle gx) (inputs ! (lr_kNumBatches + iter)) (column_slots y) l0"
    and "carries W (gc_handle gx) weights (weight_slots w) l"
  shows "yields (gpu_logistic_step F (gc_handle gx) m0 m1 m3 inputs iter weights) g
    (\<lambda>c. carries W (gc_handle gx) c (weight_slots (descend (lr_scale iter) M y w)) (l + 4))"
proof -
  note gpu = gpu_readyD [OF assms(1)] and acc = gpu_sums_yield [OF assms(1)]
  note ready = circuit_readyD [OF gpu(3)]
  have d: "max l0 l < cp_depth (vs_params W (gc_handle gx))" "l0 < cp_depth (vs_params W (gc_handle gx))"
    using assms(2,3) ready(4) by simp_all
  have lev: "max (max l0 l + 1 + 2) l0 = l + 3" "max l (max (l + 3) (l0 + 1) + 1) = l + 4"
    using assms(3) by simp_all
  show ?thesis
    unfolding gpu_logistic_step_def Let_def activation_gpu_eq
    apply (rule yields_bind [OF gpu_loadedD(5) [OF gpu(1) assms(7)]])
    apply (rule yields_bind [OF fa_mult [OF ready(1) _ assms(9) d(1) ready(2)]], assumption)
    apply (rule yields_bind [OF acc(1)], assumption)
    apply (rule yields_bind [OF activation_yields [OF gpu(3) _ _ assms(4-6)]], assumption,
        use assms(2,3) in simp)
    apply (rule yields_bind [OF fa_sub [OF ready(1) _ assms(8)]], assumption)
    apply (simp only: slots_descend(1) lev)
    apply (rule yields_bind [OF acc(2)], assumption)
    apply (rule yields_bind [OF fa_mult_const [OF ready(1) _ d(2)]], assumption)
    apply (rule yields_bind [OF fa_mult [OF ready(1)]], assumption, assumption,
        use assms(2,3) ready(4) in simp, rule ready(2))
    apply (rule yields_bind [OF acc(3)], assumption)
    apply (rule yields_mono [OF fa_sub [OF ready(1) assms(9)]], assumption)
    apply (simp only: slots_descend(2) lev)
    done
qed

text \<open>What the client uploads is on the GPU what it was.\<close>

lemma upload_batches:
  assumes "gpu_loaded F V W gx g" and "batches V (gc_cpu gx) inputs M y w l"
  shows "yields (for_p (fd_load_ciphertext F (gc_handle gx)) inputs) g
    (\<lambda>ins. batches W (gc_handle gx) ins M y w l)"
proof -
  let ?P = "\<lambda>c d. \<forall>v l. carries V (gc_cpu gx) c v l \<longrightarrow> carries W (gc_handle gx) d v l"
  let ?there = "\<lambda>c. \<exists>v l. carries V (gc_cpu gx) c v l"
  have one: "yields (fd_load_ciphertext F (gc_handle gx) c) g (?P c)" if "?there c" for c
    using that gpu_loadedD(4) [OF assms(1), of c] by (fastforce simp: yields_def carries_def)
  have n: "lr_kNumInputs = 2 * lr_kNumBatches + 1" "lr_kNumBatches = 10"
    by (simp_all add: lr_kNumInputs_def lr_kNumBatches_def)
  note b = assms(2) [unfolded batches_def]
  have "?there c" if "c \<in> set inputs" for c
  proof -
    from that b obtain i where i: "i < lr_kNumInputs" "c = inputs ! i"
      by (auto simp: in_set_conv_nth)
    show ?thesis
    proof (cases "i < 2 * lr_kNumBatches")
      case True
      then have "i < lr_kNumBatches \<or> i - lr_kNumBatches < lr_kNumBatches \<and>
          i = lr_kNumBatches + (i - lr_kNumBatches)" by linarith
      with b show ?thesis by (metis i(2))
    next
      case False
      with i(1) n have "i = 20" by simp
      with b i(2) show ?thesis by blast
    qed
  qed
  then have "yields (for_p (fd_load_ciphertext F (gc_handle gx)) inputs) g (list_all2 ?P inputs)"
    by (intro yields_for one)
  then show ?thesis
  proof (rule yields_mono)
    fix ins
    assume L: "list_all2 ?P inputs ins"
    have at: "carries W (gc_handle gx) (ins ! i) v l" if "i < lr_kNumInputs"
      "carries V (gc_cpu gx) (inputs ! i) v l" for i v
      using list_all2_nthD [OF L, of i] that b by simp
    have "length ins = lr_kNumInputs"
      using list_all2_lengthD [OF L] b by simp
    then show "batches W (gc_handle gx) ins M y w l"
      unfolding batches_def using b n by (auto intro!: at)
  qed
qed

lemma gpu_template_yields:
  assumes "flexible_auto C V cc g" and "gpu_works F V W" and "vs_params V cc = logistic_params"
  shows "yields (bind_p (ck_pack_slots C cc (replicate lr_kCols 0) 1 0 lr_kBatchSize) (fd_encrypt F cc pk)) g
    (\<lambda>t. \<exists>u. carries V cc t u 0)"
proof -
  have "lr_kCols \<le> lr_kBatchSize" "lr_kBatchSize dvd cp_batch (vs_params V cc)"
    using lr_dims(2) by (simp_all add: lr_dims(1) assms(3) logistic_params_def set_params_def)
  moreover have "yields (fd_encrypt F cc pk p) g (\<lambda>t. \<exists>u. carries V cc t u 0)"
    if "packs V cc p w \<and> vs_plain_level V p = 0" for p w
    by (rule yields_mono [OF gpu_worksD(3) [OF assms(2)]]) (use that in auto)
  ultimately show ?thesis
    by (intro yields_bind [OF fa_pack [OF assms(1)]]) simp_all
qed

lemma create_gpu_context_runs:
  assumes works: "gpu_works F V W" and core: "ckks_core C V"
    and on: "FHE \<in> vs_on V g (fd_pk_context F pk)"
    and ps: "vs_params V (fd_pk_context F pk) = logistic_params"
    and keys: "vs_mult V g" "set logreg_rotation_indices \<subseteq> vs_rotations V g"
  shows "runs (create_gpu_context F C (Some pk)) g (\<lambda>gx g'. keeps V g g' \<and>
    gpu_ready F V W gx g' \<and> gc_cpu gx = fd_pk_context F pk)"
unfolding create_gpu_context_def option.case Let_def
proof (rule runs_bind [OF gpu_worksD(1) [OF works]])
  fix h g1
  assume 1: "vs_params W h = logistic_params \<and> keeps V g g1"
  let ?fs = "[PKE, KEYSWITCH, LEVELEDSHE, ADVANCEDSHE, FHE]"
  let ?gx = "\<lparr>gc_handle = h, gc_cpu = (fd_pk_context F pk), gc_rotation_indexes = logreg_rotation_indices,
    gc_slots_bootstrap = [lr_kCols]\<rparr>"
  have "runs (for_p (ck_enable (fd_api F) h) ?fs) g1 (\<lambda>_. keeps V g)"
    by (rule runs_for [where I = "\<lambda>_. keeps V g"])
      (use 1 in \<open>auto intro: runs_mono [OF gpu_worksD(2) [OF works]] keeps_trans\<close>)
  then show "runs (bind_p (for_p (ck_enable (fd_api F) h) ?fs) (\<lambda>_.
      bind_p (ck_boot_setup C (fd_pk_context F pk) [2, 2] [16, 16] lr_kCols) (\<lambda>_.
      bind_p (fd_load_context F ?gx pk) (\<lambda>_. ret ?gx)))) g1
    (\<lambda>gx g'. keeps V g g' \<and> gpu_ready F V W gx g' \<and> gc_cpu gx = (fd_pk_context F pk))"
  proof (rule runs_bind)
    fix u g2
    assume 2: "keeps V g g2"
    show "runs (bind_p (ck_boot_setup C (fd_pk_context F pk) [2, 2] [16, 16] lr_kCols) (\<lambda>_.
      bind_p (fd_load_context F ?gx pk) (\<lambda>_. ret ?gx))) g2
      (\<lambda>gx g'. keeps V g g' \<and> gpu_ready F V W gx g' \<and> gc_cpu gx = (fd_pk_context F pk))"
    proof (rule runs_bind [OF ck_boot_setup_runs [OF core keepsD(1) [OF 2 on]]])
      fix u g3
      assume "keeps V g2 g3"
      with 2 have 3: "keeps V g g3" by (rule keeps_trans)
      have "runs (fd_load_context F ?gx pk) g3 (\<lambda>_ g'. keeps V g3 g' \<and> gpu_loaded F V W ?gx g')"
        by (rule gpu_worksD(4) [OF works])
          (use 1 ps keepsD(2) [OF 3] keys keeps_rotations [OF keys(2) 3] in
            \<open>simp_all add: logistic_params_def set_params_def\<close>)
      then show "runs (bind_p (fd_load_context F ?gx pk) (\<lambda>_. ret ?gx)) g3
        (\<lambda>gx g'. keeps V g g' \<and> gpu_ready F V W gx g' \<and> gc_cpu gx = (fd_pk_context F pk))"
        by (rule runs_bind) (use 1 3 in \<open>auto simp: gpu_ready_def intro: keeps_trans\<close>)
    qed
  qed
qed

lemma train_in_context_yields:
  assumes works: "gpu_works F V W" and fa: "flexible_auto C V (gc_cpu gx) g"
    and r: "gpu_ready F V W gx g" and cpu: "gc_cpu gx = fd_pk_context F pk"
    and ps: "vs_params V (gc_cpu gx) = logistic_params"
    and b: "batches V (gc_cpu gx) inputs M y w l0"
    and depth: "l0 + 4 * lr_kNumIterations \<le> lr_kMultDepth"
  shows "yields (train_in_context F C (Some pk) gx inputs) g (\<lambda>c. carries V (gc_cpu gx) c
    (weight_slots (train M y w lr_kNumIterations)) (l0 + 4 * lr_kNumIterations))"
proof -
  let ?h = "gc_handle gx" and ?w = "weight_slots (train M y w lr_kNumIterations)"
  let ?l = "l0 + 4 * lr_kNumIterations"
  note gpu = gpu_readyD [OF r]
  have loop: "yields (fold_p (gpu_logistic_step F ?h m0 m1 m3 ins) [0..<lr_kNumIterations] (ins ! 20)) g
      (\<lambda>c. carries W ?h c ?w ?l)"
    if m: "packs W ?h m0 (column_slots (\<lambda>_. 1/2))" "packs W ?h m1 (column_slots (\<lambda>_. 15/100))"
      "packs W ?h m3 (column_slots (\<lambda>_. -15/10000))" and ins: "batches W ?h ins M y w l0" for m0 m1 m3 ins
    by (rule training_loop_yields [OF _ _ depth])
      (use ins in \<open>blast intro: gpu_logistic_step_yields [OF r _ _ m] dest: batches_def [THEN iffD1]\<close>)+
  have result: "yields (gpu_to_openfhe F C (Some pk) gx c) g (\<lambda>c. carries V (gc_cpu gx) c ?w ?l)"
    if "carries W ?h c ?w ?l" for c
    unfolding gpu_to_openfhe_def option.case Let_def cpu [symmetric] bind_p_assoc [symmetric]
    by (rule yields_bind [OF gpu_template_yields [OF fa works ps]])
      (use gpu_loadedD(7) [OF gpu(1) that] in blast)
  show ?thesis
    unfolding train_in_context_def Let_def
    by (intro yields_bind [OF mask_yields [OF gpu(3)]] yields_bind [OF upload_batches [OF gpu(1) b]]
        yields_bind [OF gpu_loadedD(6) [OF gpu(1)]] yields_bind [OF loop] result)
qed

lemma gpu_train_runs:
  assumes works: "gpu_works F V W" and core: "ckks_core C V"
    and on: "LEVELEDSHE \<in> vs_on V g (fd_pk_context F pk)" "FHE \<in> vs_on V g (fd_pk_context F pk)"
    and ps: "vs_params V (fd_pk_context F pk) = logistic_params"
    and keys: "vs_mult V g" "set logreg_rotation_indices \<subseteq> vs_rotations V g"
    and b: "batches V (fd_pk_context F pk) inputs M y w l0"
    and depth: "l0 + 4 * lr_kNumIterations \<le> lr_kMultDepth"
  shows "runs (gpu_train F C (Some pk) inputs) g (\<lambda>c _. carries V (fd_pk_context F pk) c
    (weight_slots (train M y w lr_kNumIterations)) (l0 + 4 * lr_kNumIterations))"
proof -
  have "length inputs = lr_kNumInputs"
    using b by (simp add: batches_def)
  moreover have "runs (train_in_context F C (Some pk) gx inputs) h (\<lambda>c _. carries V (fd_pk_context F pk) c
      (weight_slots (train M y w lr_kNumIterations)) (l0 + 4 * lr_kNumIterations))"
    if h: "keeps V g h \<and> gpu_ready F V W gx h \<and> gc_cpu gx = fd_pk_context F pk" for gx h
  proof -
    have "flexible_auto C V (gc_cpu gx) h"
      by (rule works_flexible [OF core])
        (use h keepsD(1) [of V g h, OF _ on(1)] in \<open>simp_all add: ps logistic_params_def set_params_def\<close>)
    from train_in_context_yields [OF works this _ _ _ _ depth] h ps b have
      "yields (train_in_context F C (Some pk) gx inputs) h (\<lambda>c. carries V (fd_pk_context F pk) c
        (weight_slots (train M y w lr_kNumIterations)) (l0 + 4 * lr_kNumIterations))" by metis
    then show ?thesis by (auto elim: runs_mono [OF yields_runsD])
  qed
  ultimately show ?thesis
    unfolding gpu_train_def
    by (simp only: simp_thms if_False) (rule runs_bind [OF create_gpu_context_runs [OF works core on(2) ps keys]])
qed

section \<open>The session\<close>

text \<open>
  The client's keys: the call that makes the rotation keys comes last, because the one before it
  may replace the map that they are kept in.
\<close>

lemma gpu_setup_runs:
  assumes "ckks_replaces C V"
  shows "runs (make_keys C (make_gpu_logistic_context C) (Some (gpu_logistic_gen_keys C))) g
    (\<lambda>(cc, _) g'. ready V cc logistic_params [PKE, KEYSWITCH, LEVELEDSHE, ADVANCEDSHE, FHE] g' \<and> vs_mult V g' \<and>
      set logreg_rotation_indices \<subseteq> vs_rotations V g')"
  unfolding make_gpu_logistic_context_def
proof (rule make_keys_runs)
  let ?fs = "[PKE, KEYSWITCH, LEVELEDSHE, ADVANCEDSHE, FHE]"
  note core = ckks_replacesD(1) [OF assms]
  show "ckks_core C V" by (rule core)
  fix cc sk h
  assume r: "ready V cc logistic_params ?fs h"
  have on: "KEYSWITCH \<in> vs_on V h' cc" "FHE \<in> vs_on V h' cc" if "keeps_but_rotations V h h'" for h'
    using ready_on [OF ready_keeps_but [OF r that]] by simp_all
  have "runs (gpu_logistic_gen_keys C cc sk) h (\<lambda>_ h'. keeps_but_rotations V h h' \<and>
      set logreg_rotation_indices \<subseteq> vs_rotations V h')"
    unfolding gpu_logistic_gen_keys_def
    apply (rule runs_bind [OF ck_mult_keygen_runs [OF core on(1)]])
     apply (rule keeps_weak [OF keeps_refl])
    apply (rule runs_bind [OF ck_boot_setup_runs [OF core on(2)]])
     apply (meson keeps_weak)
    apply (rule runs_bind [OF ck_boot_keygen_replaces [OF assms on(2)]])
     apply (meson keeps_weak keeps_but_rotations_trans)
    apply (rule runs_mono [OF ck_rotate_keygen_runs [OF core on(1)]])
     apply (meson keeps_weak keeps_but_rotations_trans)+
    done
  then show "runs (case Some (gpu_logistic_gen_keys C) of None \<Rightarrow> ret () | Some gk \<Rightarrow> gk cc sk) h
      (\<lambda>_ h'. ready V cc logistic_params ?fs h' \<and> set logreg_rotation_indices \<subseteq> vs_rotations V h')"
    by (auto elim!: runs_mono intro: ready_keeps_but [OF r])
qed (auto dest: keepsD(4))

text \<open>
  From the file to the result: \<open>pub\<close> is the public key of a key pair, as the server reads it back.
\<close>

definition gpu_training_session :: "(string \<Rightarrow> real result) \<Rightarrow> string list list option \<Rightarrow>
    ('g, 'gcc, 'gct, 'gpt, 'gsk, 'cc, 'ct, 'pt, 'pk) gpu \<Rightarrow> ('g, 'cc, 'ct, 'pt, 'sk) ckks \<Rightarrow>
    ('cc \<Rightarrow> 'sk \<Rightarrow> 'pk) \<Rightarrow> (('g, 'pk) gpu_globals, 'ct) prog" where
  "gpu_training_session stod csv F C pub =
     bind_p (in_gpu_lib (make_keys C (make_gpu_logistic_context C) (Some (gpu_logistic_gen_keys C))))
     (\<lambda>(cc, kp).
     bind_p (in_gpu_lib (gen_logreg_inputs stod csv C cc kp)) (\<lambda>inputs.
     bind_p (set_client_public_key (pub cc kp)) (\<lambda>_.
     gpu_logistic_eval F C (fd_pk_context F (pub cc kp)) inputs)))"

lemma runs_in_gpu_lib:
  "runs p (gg_lib s) Q \<Longrightarrow> runs (in_gpu_lib p) s (\<lambda>x s'. Q x (gg_lib s'))"
  by (auto simp: runs_def in_gpu_lib_def on_field_def split: prod.splits sum.splits)

lemma gpu_training_session_runs:
  fixes F :: "('g, 'gcc, 'gct, 'gpt, 'gsk, 'cc, 'ct, 'pt, 'pk) gpu"
  assumes C: "ckks_replaces C V" and F: "gpu_works F V W"
    and pub: "\<And>cc kp. fd_pk_context F (pub cc kp) = cc"
    and rows: "map_r (read_row stod 0) (take 1280 file_rows) = Inr rows" "length rows = 1280"
  shows "runs (gpu_training_session stod (Some file_rows) F C pub) s (\<lambda>out _.
    vs_slots V out = weight_slots (train (row_features rows) (row_labels rows) (\<lambda>_. 0) lr_kNumIterations) \<and>
    vs_level V out = lr_kMultDepth)"
  unfolding gpu_training_session_def pub
proof (rule runs_bind [OF runs_in_gpu_lib [OF gpu_setup_runs [OF C]]], clarify)
  fix cc kp and s1 :: "('g, 'pk) gpu_globals"
  note core = ckks_replacesD(1) [OF C]
  let ?fs = "[PKE, KEYSWITCH, LEVELEDSHE, ADVANCEDSHE, FHE]"
  assume r: "ready V cc logistic_params ?fs (gg_lib s1)" and keys: "vs_mult V (gg_lib s1)"
    "set logreg_rotation_indices \<subseteq> vs_rotations V (gg_lib s1)"
  have on: "LEVELEDSHE \<in> vs_on V (gg_lib s1) cc" "FHE \<in> vs_on V (gg_lib s1) cc"
    and ps: "vs_params V cc = logistic_params"
    using ready_on [OF r] r by (simp_all add: ready_def)
  have "flexible_auto C V cc (gg_lib s1)"
    by (rule works_flexible [OF core on(1)]) (simp add: ps logistic_params_def set_params_def)
  then have c: "circuit_ready C V cc (gg_lib s1)"
    by (simp add: circuit_ready_def ps keys(1))
  have n: "lr_kNumBatches * lr_kRows \<le> length rows"
    by (simp add: rows(2) lr_kNumBatches_def lr_kRows_def)
  have lev: "14 + 4 * lr_kNumIterations = lr_kMultDepth"
    by (simp add: lr_kNumIterations_def lr_kMultDepth_def)
  show "runs (bind_p (in_gpu_lib (gen_logreg_inputs stod (Some file_rows) C cc kp)) (\<lambda>inputs.
      bind_p (set_client_public_key (pub cc kp)) (\<lambda>_. gpu_logistic_eval F C cc inputs))) s1 (\<lambda>out _.
    vs_slots V out = weight_slots (train (row_features rows) (row_labels rows) (\<lambda>_. 0) lr_kNumIterations) \<and>
    vs_level V out = lr_kMultDepth)"
  proof (rule runs_bind [OF runs_in_gpu_lib [OF yields_runsD [OF logreg_inputs_yield [OF c rows(1) n]]]])
    fix inputs and s2 :: "('g, 'pk) gpu_globals"
    assume s2: "gg_lib s2 = gg_lib s1 \<and>
      batches V cc inputs (row_features rows) (row_labels rows) (\<lambda>_. 0) 14"
    have "runs (gpu_train F C (Some (pub cc kp)) inputs) (gg_lib s2) (\<lambda>c _. carries V cc c
        (weight_slots (train (row_features rows) (row_labels rows) (\<lambda>_. 0) lr_kNumIterations))
        lr_kMultDepth)"
      using gpu_train_runs [OF F core, where g = "gg_lib s2" and pk = "pub cc kp" and ?l0.0 = 14,
        unfolded pub lev] s2 on ps keys by simp
    then show "runs (bind_p (set_client_public_key (pub cc kp)) (\<lambda>_. gpu_logistic_eval F C cc inputs)) s2
      (\<lambda>out _. vs_slots V out = weight_slots (train (row_features rows) (row_labels rows) (\<lambda>_. 0)
        lr_kNumIterations) \<and> vs_level V out = lr_kMultDepth)"
      by (auto simp: runs_def bind_p_def set_client_public_key_def gpu_logistic_eval_def in_gpu_lib_def
          on_field_def carries_def split: prod.splits sum.splits)
  qed
qed

end
