(* ===== verification/Workloads_Bgv.thy ===== *)
theory Workloads_Bgv
  imports Workloads_Tee Server_Zk Client_Zk
begin

text \<open>
  The BGV workloads of \<open>tee-vfhe-bgvrns\<close> and \<open>zk-vfhe\<close>: the shared context, the circuits, and the
  same circuits over the proof system, whose constraints the proof is about. The BGV operations of
  OpenFHE and the proof system of zkOpenFHE are parameters.
\<close>

section \<open>Context\<close>

datatype bgv_key_switch = BV

record bgv_params =
  bp_depth :: nat
  bp_modulus :: nat
  bp_batch :: nat
  bp_technique :: scaling_technique
  bp_security :: security_level
  bp_ring_dim :: nat
  bp_key_switch :: bgv_key_switch
  bp_digit_size :: "nat option"
  bp_first_mod :: "nat option"

record ('g, 'cc, 'ct) bgv =
  bg_gen :: "bgv_params \<Rightarrow> ('g, 'cc) prog"
  bg_enable :: "'cc \<Rightarrow> feature \<Rightarrow> ('g, unit) prog"
  bg_add :: "'cc \<Rightarrow> 'ct \<Rightarrow> 'ct \<Rightarrow> ('g, 'ct) prog"
  bg_mult_no_relin :: "'cc \<Rightarrow> 'ct \<Rightarrow> 'ct \<Rightarrow> ('g, 'ct) prog"

definition zk_baseline_params :: bgv_params where
  "zk_baseline_params = \<lparr>bp_depth = 4, bp_modulus = 65537, bp_batch = 4096, bp_technique = FIXEDMANUAL,
     bp_security = HEStd_NotSet, bp_ring_dim = 8192, bp_key_switch = BV, bp_digit_size = None,
     bp_first_mod = None\<rparr>"

definition bgv_baseline_params :: bgv_params where
  "bgv_baseline_params = \<lparr>bp_depth = 4, bp_modulus = 65537, bp_batch = 4096, bp_technique = FIXEDMANUAL,
     bp_security = HEStd_NotSet, bp_ring_dim = 8192, bp_key_switch = BV, bp_digit_size = Some 4,
     bp_first_mod = Some 60\<rparr>"

definition make_zk_baseline_context :: "('g, 'cc, 'ct) bgv \<Rightarrow> ('g, 'cc) prog" where
  "make_zk_baseline_context B =
     bind_p (bg_gen B zk_baseline_params) (\<lambda>cc.
     bind_p (for_p (bg_enable B cc) [PKE, KEYSWITCH, LEVELEDSHE, ADVANCEDSHE]) (\<lambda>_. ret cc))"

definition make_bgv_baseline_context :: "('g, 'cc, 'ct) bgv \<Rightarrow> ('g, 'cc) prog" where
  "make_bgv_baseline_context B =
     bind_p (bg_gen B bgv_baseline_params) (\<lambda>cc.
     bind_p (for_p (bg_enable B cc) [PKE, KEYSWITCH, LEVELEDSHE, ADVANCEDSHE]) (\<lambda>_. ret cc))"

section \<open>Circuits\<close>

definition bgv_noop_eval :: "'cc \<Rightarrow> 'ct list \<Rightarrow> ('g, 'ct) prog" where
  "bgv_noop_eval cc inputs =
     (if inputs = [] then raise (Throw (Runtime_error ''noop requires at least 1 input ciphertext''))
      else ret (inputs ! 0))"

definition bgv_toy_eval :: "('g, 'cc, 'ct) bgv \<Rightarrow> 'cc \<Rightarrow> 'ct list \<Rightarrow> ('g, 'ct) prog" where
  "bgv_toy_eval B cc inputs =
     (if length inputs \<noteq> 2
      then raise (Throw (Runtime_error ''toy requires exactly 2 input ciphertexts''))
      else bg_mult_no_relin B cc (inputs ! 0) (inputs ! 1))"

definition bgv_small_eval :: "('g, 'cc, 'ct) bgv \<Rightarrow> 'cc \<Rightarrow> 'ct list \<Rightarrow> ('g, 'ct) prog" where
  "bgv_small_eval B cc inputs =
     (if length inputs \<noteq> 4
      then raise (Throw (Runtime_error ''small requires exactly 4 input ciphertexts''))
      else
        bind_p (bg_mult_no_relin B cc (inputs ! 0) (inputs ! 1)) (\<lambda>u1.
        bind_p (bg_mult_no_relin B cc (inputs ! 2) (inputs ! 3)) (\<lambda>u2.
        bg_add B cc u1 u2)))"

definition bgv_medium_eval :: "('g, 'cc, 'ct) bgv \<Rightarrow> 'cc \<Rightarrow> 'ct list \<Rightarrow> ('g, 'ct) prog" where
  "bgv_medium_eval B cc inputs =
     (if length inputs \<noteq> 6
      then raise (Throw (Runtime_error ''medium requires exactly 6 input ciphertexts''))
      else
        bind_p (bg_mult_no_relin B cc (inputs ! 0) (inputs ! 1)) (\<lambda>u1.
        bind_p (bg_mult_no_relin B cc (inputs ! 2) (inputs ! 3)) (\<lambda>u2.
        bind_p (bg_mult_no_relin B cc (inputs ! 4) (inputs ! 5)) (\<lambda>u3.
        bind_p (bg_add B cc u1 u2) (\<lambda>sm.
        bg_add B cc sm u3)))))"

definition bgv_add_4k_eval :: "('g, 'cc, 'ct) bgv \<Rightarrow> 'cc \<Rightarrow> 'ct list \<Rightarrow> ('g, 'ct) prog" where
  "bgv_add_4k_eval B cc inputs =
     (if length inputs \<noteq> 2
      then raise (Throw (Runtime_error ''BGV-Add-4K requires exactly 2 input ciphertexts''))
      else bg_add B cc (inputs ! 0) (inputs ! 1))"

definition bgv_mul_4k_eval :: "('g, 'cc, 'ct) bgv \<Rightarrow> 'cc \<Rightarrow> 'ct list \<Rightarrow> ('g, 'ct) prog" where
  "bgv_mul_4k_eval B cc inputs =
     (if length inputs \<noteq> 2
      then raise (Throw (Runtime_error ''BGV-Mul-4K requires exactly 2 input ciphertexts''))
      else bg_mult_no_relin B cc (inputs ! 0) (inputs ! 1))"

section \<open>Circuits over the proof system\<close>

text \<open>The calls add constraints to the proof system and return the ciphertext they are about.\<close>

record ('g, 'ps, 'ct) proof_ops =
  po_public_input :: "'ps \<Rightarrow> 'ct \<Rightarrow> ('g, 'ct \<times> 'ps) prog"
  po_add :: "'ps \<Rightarrow> 'ct \<Rightarrow> 'ct \<Rightarrow> ('g, 'ct \<times> 'ps) prog"
  po_mult_no_relin :: "'ps \<Rightarrow> 'ct \<Rightarrow> 'ct \<Rightarrow> ('g, 'ct \<times> 'ps) prog"

definition public_at :: "('g, 'ps, 'ct) proof_ops \<Rightarrow> nat \<Rightarrow> 'ct list \<times> 'ps \<Rightarrow> ('g, 'ct list \<times> 'ps) prog" where
  "public_at Q i st = (case st of (inputs, ps) \<Rightarrow>
     bind_p (po_public_input Q ps (inputs ! i)) (\<lambda>(c, ps'). ret (inputs[i := c], ps')))"

text \<open>\<open>for (auto& ct : inputs) ps.PublicInput(ct)\<close>\<close>

definition all_public :: "('g, 'ps, 'ct) proof_ops \<Rightarrow> 'ct list \<Rightarrow> 'ps \<Rightarrow> ('g, 'ct list \<times> 'ps) prog" where
  "all_public Q inputs ps = fold_p (public_at Q) [0..<length inputs] (inputs, ps)"

definition bgv_toy_eval_zk :: "('g, 'ps, 'ct) proof_ops \<Rightarrow> 'ps \<Rightarrow> 'ct list \<Rightarrow> ('g, 'ct \<times> 'ps) prog" where
  "bgv_toy_eval_zk Q ps inputs =
     (if length inputs \<noteq> 2
      then raise (Throw (Runtime_error ''toy requires exactly 2 input ciphertexts''))
      else
        bind_p (public_at Q 0 (inputs, ps)) (\<lambda>s1.
        bind_p (public_at Q 1 s1) (\<lambda>(ins, ps2).
        po_mult_no_relin Q ps2 (ins ! 0) (ins ! 1))))"

definition bgv_small_eval_zk :: "('g, 'ps, 'ct) proof_ops \<Rightarrow> 'ps \<Rightarrow> 'ct list \<Rightarrow> ('g, 'ct \<times> 'ps) prog" where
  "bgv_small_eval_zk Q ps inputs =
     (if length inputs \<noteq> 4
      then raise (Throw (Runtime_error ''small requires exactly 4 input ciphertexts''))
      else
        bind_p (all_public Q inputs ps) (\<lambda>(ins, ps1).
        bind_p (po_mult_no_relin Q ps1 (ins ! 0) (ins ! 1)) (\<lambda>(u1, ps2).
        bind_p (po_mult_no_relin Q ps2 (ins ! 2) (ins ! 3)) (\<lambda>(u2, ps3).
        po_add Q ps3 u1 u2))))"

definition bgv_medium_eval_zk :: "('g, 'ps, 'ct) proof_ops \<Rightarrow> 'ps \<Rightarrow> 'ct list \<Rightarrow> ('g, 'ct \<times> 'ps) prog" where
  "bgv_medium_eval_zk Q ps inputs =
     (if length inputs \<noteq> 6
      then raise (Throw (Runtime_error ''medium requires exactly 6 input ciphertexts''))
      else
        bind_p (all_public Q inputs ps) (\<lambda>(ins, ps1).
        bind_p (po_mult_no_relin Q ps1 (ins ! 0) (ins ! 1)) (\<lambda>(u1, ps2).
        bind_p (po_mult_no_relin Q ps2 (ins ! 2) (ins ! 3)) (\<lambda>(u2, ps3).
        bind_p (po_mult_no_relin Q ps3 (ins ! 4) (ins ! 5)) (\<lambda>(u3, ps4).
        bind_p (po_add Q ps4 u1 u2) (\<lambda>(sm, ps5).
        po_add Q ps5 sm u3))))))"

definition bgv_add_4k_eval_zk :: "('g, 'ps, 'ct) proof_ops \<Rightarrow> 'ps \<Rightarrow> 'ct list \<Rightarrow> ('g, 'ct \<times> 'ps) prog" where
  "bgv_add_4k_eval_zk Q ps inputs =
     (if length inputs \<noteq> 2
      then raise (Throw (Runtime_error ''BGV-Add-4K requires exactly 2 input ciphertexts''))
      else
        bind_p (public_at Q 0 (inputs, ps)) (\<lambda>s1.
        bind_p (public_at Q 1 s1) (\<lambda>(ins, ps2).
        po_add Q ps2 (ins ! 0) (ins ! 1))))"

definition bgv_mul_4k_eval_zk :: "('g, 'ps, 'ct) proof_ops \<Rightarrow> 'ps \<Rightarrow> 'ct list \<Rightarrow> ('g, 'ct \<times> 'ps) prog" where
  "bgv_mul_4k_eval_zk Q ps inputs =
     (if length inputs \<noteq> 2
      then raise (Throw (Runtime_error ''BGV-Mul-4K requires exactly 2 input ciphertexts''))
      else
        bind_p (public_at Q 0 (inputs, ps)) (\<lambda>s1.
        bind_p (public_at Q 1 s1) (\<lambda>(ins, ps2).
        po_mult_no_relin Q ps2 (ins ! 0) (ins ! 1))))"

section \<open>Registrations\<close>

definition bgv_entry :: "('g, 'cc, 'ct) bgv \<Rightarrow> ('cc \<Rightarrow> 'ct list \<Rightarrow> ('g, 'ct) prog) \<Rightarrow>
    ('g, 'cc, 'ct, 'sk) keyed_workload" where
  "bgv_entry B eval =
     \<lparr>wl_make_context = make_bgv_baseline_context B, wl_eval = eval, wl_gen_keys = None\<rparr>"

definition zk_entry :: "('g, 'cc, 'ct) bgv \<Rightarrow> ('cc \<Rightarrow> 'ct list \<Rightarrow> ('g, 'ct) prog) \<Rightarrow>
    ('ps \<Rightarrow> 'ct list \<Rightarrow> ('g, 'ct \<times> 'ps) prog) option \<Rightarrow> ('g, 'cc, 'ct, 'ps) zk_workload" where
  "zk_entry B eval eval_zk =
     \<lparr>wl_make_context = make_zk_baseline_context B, wl_eval = eval, wl_eval_zk = eval_zk\<rparr>"

definition bgv_registry :: "('g, 'cc, 'ct) bgv \<Rightarrow> ('g, 'cc, 'ct, 'sk) keyed_workload registry" where
  "bgv_registry B = register_all
     [(''noop'', bgv_entry B bgv_noop_eval), (''toy'', bgv_entry B (bgv_toy_eval B)),
      (''small'', bgv_entry B (bgv_small_eval B)), (''medium'', bgv_entry B (bgv_medium_eval B)),
      (''BGV-Add-4K'', bgv_entry B (bgv_add_4k_eval B)),
      (''BGV-Mul-4K'', bgv_entry B (bgv_mul_4k_eval B))]"

definition zk_registry :: "('g, 'cc, 'ct) bgv \<Rightarrow> ('g, 'ps, 'ct) proof_ops \<Rightarrow>
    ('g, 'cc, 'ct, 'ps) zk_workload registry" where
  "zk_registry B Q = register_all
     [(''noop'', zk_entry B bgv_noop_eval None),
      (''toy'', zk_entry B (bgv_toy_eval B) (Some (bgv_toy_eval_zk Q))),
      (''small'', zk_entry B (bgv_small_eval B) (Some (bgv_small_eval_zk Q))),
      (''medium'', zk_entry B (bgv_medium_eval B) (Some (bgv_medium_eval_zk Q))),
      (''BGV-Add-4K'', zk_entry B (bgv_add_4k_eval B) (Some (bgv_add_4k_eval_zk Q))),
      (''BGV-Mul-4K'', zk_entry B (bgv_mul_4k_eval B) (Some (bgv_mul_4k_eval_zk Q)))]"

lemma registered:
  "distinct (map fst ws) \<Longrightarrow> (wid, w) \<in> set ws \<Longrightarrow> register_all ws wid = Some w"
  by (simp add: register_all_lookup)

lemma bgv_registered:
  "bgv_registry B ''noop'' = Some (bgv_entry B bgv_noop_eval)"
  "bgv_registry B ''toy'' = Some (bgv_entry B (bgv_toy_eval B))"
  "bgv_registry B ''small'' = Some (bgv_entry B (bgv_small_eval B))"
  "bgv_registry B ''medium'' = Some (bgv_entry B (bgv_medium_eval B))"
  "bgv_registry B ''BGV-Add-4K'' = Some (bgv_entry B (bgv_add_4k_eval B))"
  "bgv_registry B ''BGV-Mul-4K'' = Some (bgv_entry B (bgv_mul_4k_eval B))"
  unfolding bgv_registry_def by (rule registered; simp)+

lemma zk_registered:
  "zk_registry B Q ''noop'' = Some (zk_entry B bgv_noop_eval None)"
  "zk_registry B Q ''toy'' = Some (zk_entry B (bgv_toy_eval B) (Some (bgv_toy_eval_zk Q)))"
  "zk_registry B Q ''small'' = Some (zk_entry B (bgv_small_eval B) (Some (bgv_small_eval_zk Q)))"
  "zk_registry B Q ''medium'' = Some (zk_entry B (bgv_medium_eval B) (Some (bgv_medium_eval_zk Q)))"
  "zk_registry B Q ''BGV-Add-4K'' = Some (zk_entry B (bgv_add_4k_eval B) (Some (bgv_add_4k_eval_zk Q)))"
  "zk_registry B Q ''BGV-Mul-4K'' = Some (zk_entry B (bgv_mul_4k_eval B) (Some (bgv_mul_4k_eval_zk Q)))"
  unfolding zk_registry_def by (rule registered; simp)+

section \<open>What the circuits compute\<close>

text \<open>
  The view of BGV: slots are residues of the plaintext modulus, and a product that is not
  relinearized has three parts instead of two. Nothing is said about products of such products.
\<close>

record ('g, 'cc, 'ct) bgv_view =
  bw_params :: "'cc \<Rightarrow> bgv_params"
  bw_on :: "'g \<Rightarrow> 'cc \<Rightarrow> feature set"
  bw_slots :: "'ct \<Rightarrow> int list"
  bw_parts :: "'ct \<Rightarrow> nat"

definition holds :: "('g, 'cc, 'ct) bgv_view \<Rightarrow> 'cc \<Rightarrow> nat \<Rightarrow> 'ct \<Rightarrow> int list \<Rightarrow> bool" where
  "holds V cc k c v \<longleftrightarrow> bw_slots V c = v \<and> bw_parts V c = k \<and> length v = bp_batch (bw_params V cc)"

abbreviation "modt \<equiv> map (\<lambda>x. x mod 65537)"

definition bgv_evaluates :: "('g, 'cc, 'ct) bgv \<Rightarrow> ('g, 'cc, 'ct) bgv_view \<Rightarrow> 'cc \<Rightarrow> 'g \<Rightarrow> bool" where
  "bgv_evaluates B V cc g \<longleftrightarrow>
     (\<forall>a b v w i j. holds V cc i a v \<longrightarrow> holds V cc j b w \<longrightarrow>
        yields (bg_add B cc a b) g (\<lambda>c. holds V cc (max i j) c (modt (vadd v w)))) \<and>
     (\<forall>a b v w. holds V cc 2 a v \<longrightarrow> holds V cc 2 b w \<longrightarrow>
        yields (bg_mult_no_relin B cc a b) g (\<lambda>c. holds V cc 3 c (modt (vmul v w))))"

lemma bgv_evaluatesD:
  assumes "bgv_evaluates B V cc g"
  shows "holds V cc i a v \<Longrightarrow> holds V cc j b w \<Longrightarrow>
      yields (bg_add B cc a b) g (\<lambda>c. holds V cc (max i j) c (modt (vadd v w)))"
    and "holds V cc 2 a v \<Longrightarrow> holds V cc 2 b w \<Longrightarrow>
      yields (bg_mult_no_relin B cc a b) g (\<lambda>c. holds V cc 3 c (modt (vmul v w)))"
  using assms unfolding bgv_evaluates_def by blast+

text \<open>Only a context for residues modulo 65537, with the features for evaluation, evaluates.\<close>

definition bgv_works :: "('g, 'cc, 'ct) bgv \<Rightarrow> ('g, 'cc, 'ct) bgv_view \<Rightarrow> bool" where
  "bgv_works B V \<longleftrightarrow>
     (\<forall>ps g. runs (bg_gen B ps) g (\<lambda>cc g'. bw_params V cc = ps)) \<and>
     (\<forall>cc f g. runs (bg_enable B cc f) g (\<lambda>_ g'. insert f (bw_on V g cc) \<subseteq> bw_on V g' cc)) \<and>
     (\<forall>cc g. bp_modulus (bw_params V cc) = 65537 \<longrightarrow> 0 < bp_depth (bw_params V cc) \<longrightarrow>
        LEVELEDSHE \<in> bw_on V g cc \<longrightarrow> bgv_evaluates B V cc g)"

lemma bgv_worksD:
  assumes "bgv_works B V"
  shows "runs (bg_gen B ps) g (\<lambda>cc g'. bw_params V cc = ps)"
    and "runs (bg_enable B cc f) g (\<lambda>_ g'. insert f (bw_on V g cc) \<subseteq> bw_on V g' cc)"
    and "bp_modulus (bw_params V cc) = 65537 \<Longrightarrow> 0 < bp_depth (bw_params V cc) \<Longrightarrow>
      LEVELEDSHE \<in> bw_on V g cc \<Longrightarrow> bgv_evaluates B V cc g"
  using assms unfolding bgv_works_def by blast+

lemma baseline_context_runs:
  assumes "bgv_works B V" and "ps \<in> {zk_baseline_params, bgv_baseline_params}"
  shows "runs (bind_p (bg_gen B ps) (\<lambda>cc. bind_p (for_p (bg_enable B cc)
      [PKE, KEYSWITCH, LEVELEDSHE, ADVANCEDSHE]) (\<lambda>_. ret cc))) g
    (\<lambda>cc g'. bgv_evaluates B V cc g' \<and> bw_params V cc = ps \<and> {PKE, LEVELEDSHE} \<subseteq> bw_on V g' cc)"
proof (rule runs_bind [OF bgv_worksD(1) [OF assms(1)]])
  fix cc g1
  assume p: "bw_params V cc = ps"
  let ?fs = "[PKE, KEYSWITCH, LEVELEDSHE, ADVANCEDSHE]"
  have "runs (for_p (bg_enable B cc) ?fs) g1 (\<lambda>_ g'. set ?fs \<subseteq> bw_on V g' cc)"
    by (rule runs_for [where I = "\<lambda>ys g'. set ys \<subseteq> bw_on V g' cc"])
      (auto intro: runs_mono [OF bgv_worksD(2) [OF assms(1)]])
  then show "runs (bind_p (for_p (bg_enable B cc) ?fs) (\<lambda>_. ret cc)) g1
      (\<lambda>cc g'. bgv_evaluates B V cc g' \<and> bw_params V cc = ps \<and> {PKE, LEVELEDSHE} \<subseteq> bw_on V g' cc)"
    by (rule runs_bind) (use assms(2) p bgv_worksD(3) [OF assms(1), of cc] in
      \<open>auto simp: zk_baseline_params_def bgv_baseline_params_def\<close>)
qed

text \<open>What each workload is meant to compute, slot by slot modulo 65537.\<close>

definition bgv_function :: "string \<Rightarrow> int list list \<Rightarrow> int list" where
  "bgv_function wid v =
     (if wid = ''noop'' then v ! 0
      else if wid = ''toy'' \<or> wid = ''BGV-Mul-4K'' then modt (vmul (v ! 0) (v ! 1))
      else if wid = ''BGV-Add-4K'' then modt (vadd (v ! 0) (v ! 1))
      else if wid = ''small'' then modt (vadd (vmul (v ! 0) (v ! 1)) (vmul (v ! 2) (v ! 3)))
      else modt (vadd (vadd (vmul (v ! 0) (v ! 1)) (vmul (v ! 2) (v ! 3))) (vmul (v ! 4) (v ! 5))))"

lemma modt_vadd: "modt (vadd (modt a) b) = modt (vadd a b)" "modt (vadd a (modt b)) = modt (vadd a b)"
  for a b :: "int list"
  by (simp_all add: vadd_def zip_map1 zip_map2 split_def mod_simps)

text \<open>Inputs, as the client encrypts them.\<close>

definition fresh_inputs :: "('g, 'cc, 'ct) bgv_view \<Rightarrow> 'cc \<Rightarrow> 'ct list \<Rightarrow> int list list \<Rightarrow> bool" where
  "fresh_inputs V cc inputs vs \<longleftrightarrow> list_all2 (holds V cc 2) inputs vs"

lemma fresh_inputsD:
  assumes "fresh_inputs V cc inputs vs"
  shows "length inputs = length vs" and "i < length vs \<Longrightarrow> holds V cc 2 (inputs ! i) (vs ! i)"
  using assms list_all2_lengthD list_all2_nthD2 unfolding fresh_inputs_def by fastforce+

text \<open>A result has as many parts as one product, where the circuit multiplies.\<close>

definition bgv_parts :: "string \<Rightarrow> nat" where
  "bgv_parts wid = (if wid = ''noop'' \<or> wid = ''BGV-Add-4K'' then 2 else 3)"

lemma bgv_circuits_hold:
  assumes "bgv_evaluates B V cc g" and fresh: "fresh_inputs V cc inputs vs"
  shows "length vs = 1 \<Longrightarrow> yields (bgv_noop_eval cc inputs) g (\<lambda>c. holds V cc 2 c (bgv_function ''noop'' vs))"
    and "length vs = 2 \<Longrightarrow> yields (bgv_toy_eval B cc inputs) g (\<lambda>c. holds V cc 3 c (bgv_function ''toy'' vs))"
    and "length vs = 4 \<Longrightarrow> yields (bgv_small_eval B cc inputs) g (\<lambda>c. holds V cc 3 c (bgv_function ''small'' vs))"
    and "length vs = 6 \<Longrightarrow> yields (bgv_medium_eval B cc inputs) g (\<lambda>c. holds V cc 3 c (bgv_function ''medium'' vs))"
    and "length vs = 2 \<Longrightarrow> yields (bgv_add_4k_eval B cc inputs) g (\<lambda>c. holds V cc 2 c (bgv_function ''BGV-Add-4K'' vs))"
    and "length vs = 2 \<Longrightarrow> yields (bgv_mul_4k_eval B cc inputs) g (\<lambda>c. holds V cc 3 c (bgv_function ''BGV-Mul-4K'' vs))"
proof -
  note in' = fresh_inputsD [OF fresh] and mult = bgv_evaluatesD(2) [OF assms(1)]
    and add = bgv_evaluatesD(1) [OF assms(1)]
  show "length vs = 1 \<Longrightarrow> yields (bgv_noop_eval cc inputs) g (\<lambda>c. holds V cc 2 c (bgv_function ''noop'' vs))"
    using in'(1) in'(2) [of 0] by (auto simp: bgv_noop_eval_def bgv_function_def)
  show "length vs = 2 \<Longrightarrow> yields (bgv_toy_eval B cc inputs) g (\<lambda>c. holds V cc 3 c (bgv_function ''toy'' vs))"
    using mult [OF in'(2) in'(2), of 0 1] in'(1) by (simp add: bgv_toy_eval_def bgv_function_def)
  show "length vs = 2 \<Longrightarrow> yields (bgv_mul_4k_eval B cc inputs) g (\<lambda>c. holds V cc 3 c (bgv_function ''BGV-Mul-4K'' vs))"
    using mult [OF in'(2) in'(2), of 0 1] in'(1) by (simp add: bgv_mul_4k_eval_def bgv_function_def)
  show "length vs = 2 \<Longrightarrow> yields (bgv_add_4k_eval B cc inputs) g (\<lambda>c. holds V cc 2 c (bgv_function ''BGV-Add-4K'' vs))"
    using add [OF in'(2) in'(2), of 0 1] in'(1) by (simp add: bgv_add_4k_eval_def bgv_function_def)
  show "length vs = 4 \<Longrightarrow> yields (bgv_small_eval B cc inputs) g (\<lambda>c. holds V cc 3 c (bgv_function ''small'' vs))"
    unfolding bgv_small_eval_def
    by (simp only: in'(1) simp_thms if_False, rule yields_bind [OF mult [OF in'(2) in'(2)]], simp, simp,
        rule yields_bind [OF mult [OF in'(2) in'(2)]], simp, simp, rule yields_mono [OF add])
      (assumption | simp add: bgv_function_def modt_vadd)+
  show "length vs = 6 \<Longrightarrow> yields (bgv_medium_eval B cc inputs) g (\<lambda>c. holds V cc 3 c (bgv_function ''medium'' vs))"
    unfolding bgv_medium_eval_def
    by (simp only: in'(1) simp_thms if_False, rule yields_bind [OF mult [OF in'(2) in'(2)]], simp, simp,
        rule yields_bind [OF mult [OF in'(2) in'(2)]], simp, simp,
        rule yields_bind [OF mult [OF in'(2) in'(2)]], simp, simp,
        rule yields_bind [OF add], assumption, assumption, rule yields_mono [OF add])
      (assumption | simp add: bgv_function_def modt_vadd)+
qed

lemma holds_slots: "yields p g (\<lambda>c. holds V cc k c v) \<Longrightarrow> yields p g (\<lambda>c. bw_slots V c = v)"
  by (erule yields_mono) (simp add: holds_def)

lemmas bgv_circuits_yield = bgv_circuits_hold [THEN holds_slots]

section \<open>What the proof is about\<close>

text \<open>
  The proof system computes along: each call returns the ciphertext that the plain operation would,
  and \<open>PV\<close> reads off the vectors that were made public so far.
\<close>

definition proves_along :: "('g, 'ps, 'ct) proof_ops \<Rightarrow> ('g, 'cc, 'ct) bgv_view \<Rightarrow> 'cc \<Rightarrow>
    ('ps \<Rightarrow> int list list) \<Rightarrow> 'g \<Rightarrow> bool" where
  "proves_along Q V cc PV g \<longleftrightarrow>
     (\<forall>ps c v. holds V cc 2 c v \<longrightarrow> yields (po_public_input Q ps c) g
        (\<lambda>(c', ps'). holds V cc 2 c' v \<and> PV ps' = PV ps @ [v])) \<and>
     (\<forall>ps a b v w i j. holds V cc i a v \<longrightarrow> holds V cc j b w \<longrightarrow> yields (po_add Q ps a b) g
        (\<lambda>(c, ps'). holds V cc (max i j) c (modt (vadd v w)) \<and> PV ps' = PV ps)) \<and>
     (\<forall>ps a b v w. holds V cc 2 a v \<longrightarrow> holds V cc 2 b w \<longrightarrow> yields (po_mult_no_relin Q ps a b) g
        (\<lambda>(c, ps'). holds V cc 3 c (modt (vmul v w)) \<and> PV ps' = PV ps))"

lemma proves_alongD:
  assumes "proves_along Q V cc PV g"
  shows "holds V cc 2 c v \<Longrightarrow> yields (po_public_input Q ps c) g
      (\<lambda>(c', ps'). holds V cc 2 c' v \<and> PV ps' = PV ps @ [v])"
    and "holds V cc i a v \<Longrightarrow> holds V cc j b w \<Longrightarrow> yields (po_add Q ps a b) g
      (\<lambda>(c, ps'). holds V cc (max i j) c (modt (vadd v w)) \<and> PV ps' = PV ps)"
    and "holds V cc 2 a v \<Longrightarrow> holds V cc 2 b w \<Longrightarrow> yields (po_mult_no_relin Q ps a b) g
      (\<lambda>(c, ps'). holds V cc 3 c (modt (vmul v w)) \<and> PV ps' = PV ps)"
  using assms unfolding proves_along_def by blast+

lemma yields_bind_pair:
  assumes "yields p g (\<lambda>(a, b). P a b)" and "\<And>a b. P a b \<Longrightarrow> yields (f (a, b)) g R"
  shows "yields (bind_p p f) g R"
  using assms(1) by (rule yields_bind) (auto intro: assms(2))

lemma yields_monoP:
  assumes "yields p g (\<lambda>(a, b). P a b)" and "\<And>a b. P a b \<Longrightarrow> R a b"
  shows "yields p g (\<lambda>(a, b). R a b)"
  using assms(1) by (rule yields_mono) (auto intro: assms(2))

lemma public_at_yields:
  assumes "proves_along Q V cc PV g" and "fresh_inputs V cc inputs vs" and "i < length vs"
  shows "yields (public_at Q i (inputs, ps)) g
    (\<lambda>(ins, ps'). fresh_inputs V cc ins vs \<and> PV ps' = PV ps @ [vs ! i])"
  unfolding public_at_def prod.case
proof (rule yields_bind_pair [OF proves_alongD(1) [OF assms(1) fresh_inputsD(2) [OF assms(2,3)]]],
    unfold prod.case)
  fix c ps'
  assume c: "holds V cc 2 c (vs ! i) \<and> PV ps' = PV ps @ [vs ! i]"
  have "list_all2 (holds V cc 2) (inputs[i := c]) (vs[i := vs ! i])"
    using assms(2) c unfolding fresh_inputs_def by (intro list_all2_update_cong) simp_all
  with c show "yields (ret (inputs[i := c], ps')) g
      (\<lambda>(ins, ps'). fresh_inputs V cc ins vs \<and> PV ps' = PV ps @ [vs ! i])"
    by (simp add: fresh_inputs_def)
qed

lemma all_public_yields:
  assumes "proves_along Q V cc PV g" and "fresh_inputs V cc inputs vs"
  shows "yields (all_public Q inputs ps) g (\<lambda>(ins, ps'). fresh_inputs V cc ins vs \<and> PV ps' = PV ps @ vs)"
proof -
  let ?I = "\<lambda>ys :: nat list. \<lambda>(ins, ps'). fresh_inputs V cc ins vs \<and> PV ps' = PV ps @ take (length ys) vs"
  note len = fresh_inputsD(1) [OF assms(2)]
  have "yields (fold_p (public_at Q) [0..<length inputs] (inputs, ps)) g (?I [0..<length inputs])"
  proof (rule yields_fold [where I = ?I])
    fix ys i zs st
    assume split: "[0..<length inputs] = ys @ i # zs" and st: "?I ys st"
    obtain ins ps1 where eq: "st = (ins, ps1)" by (cases st)
    have l: "length ys < length inputs"
      using arg_cong [OF split, of length] by simp
    then have i: "i = length ys"
      using arg_cong [OF split, of "\<lambda>xs. xs ! length ys"] by (simp add: nth_append)
    from public_at_yields [OF assms(1), of ins vs i ps1] st l show
      "yields (public_at Q i st) g (?I (ys @ [i]))"
      by (simp add: eq i len take_Suc_conv_app_nth)
  qed (use assms(2) in simp)
  then show ?thesis by (simp add: all_public_def len)
qed

lemma two_public_yields:
  assumes "proves_along Q V cc PV g" and "fresh_inputs V cc inputs vs" and "length vs = 2"
    and "\<And>ins ps'. fresh_inputs V cc ins vs \<Longrightarrow> PV ps' = PV ps @ vs \<Longrightarrow> yields (f (ins, ps')) g R"
  shows "yields (bind_p (public_at Q 0 (inputs, ps)) (\<lambda>s1. bind_p (public_at Q 1 s1) f)) g R"
proof (rule yields_bind_pair [OF public_at_yields [OF assms(1,2)]])
  have vs: "[vs ! 0, vs ! 1] = vs"
    using assms(3) by (auto simp: length_Suc_conv numeral_2_eq_2)
  fix ins1 ps1
  assume 1: "fresh_inputs V cc ins1 vs \<and> PV ps1 = PV ps @ [vs ! 0]"
  show "yields (bind_p (public_at Q 1 (ins1, ps1)) f) g R"
  proof (rule yields_bind_pair [OF public_at_yields [OF assms(1)]])
    fix ins2 ps2
    assume "fresh_inputs V cc ins2 vs \<and> PV ps2 = PV ps1 @ [vs ! 1]"
    with 1 vs show "yields (f (ins2, ps2)) g R"
      by (intro assms(4)) simp_all
  qed (use 1 assms(3) in simp_all)
qed (use assms(3) in simp)

lemma zk_circuits_yield:
  assumes "proves_along Q V cc PV g" and fresh: "fresh_inputs V cc inputs vs"
  shows "length vs = 2 \<Longrightarrow> yields (bgv_toy_eval_zk Q ps inputs) g
      (\<lambda>(c, ps'). bw_slots V c = bgv_function ''toy'' vs \<and> PV ps' = PV ps @ vs)"
    and "length vs = 4 \<Longrightarrow> yields (bgv_small_eval_zk Q ps inputs) g
      (\<lambda>(c, ps'). bw_slots V c = bgv_function ''small'' vs \<and> PV ps' = PV ps @ vs)"
    and "length vs = 6 \<Longrightarrow> yields (bgv_medium_eval_zk Q ps inputs) g
      (\<lambda>(c, ps'). bw_slots V c = bgv_function ''medium'' vs \<and> PV ps' = PV ps @ vs)"
    and "length vs = 2 \<Longrightarrow> yields (bgv_add_4k_eval_zk Q ps inputs) g
      (\<lambda>(c, ps'). bw_slots V c = bgv_function ''BGV-Add-4K'' vs \<and> PV ps' = PV ps @ vs)"
    and "length vs = 2 \<Longrightarrow> yields (bgv_mul_4k_eval_zk Q ps inputs) g
      (\<lambda>(c, ps'). bw_slots V c = bgv_function ''BGV-Mul-4K'' vs \<and> PV ps' = PV ps @ vs)"
proof -
  note two = two_public_yields [OF assms] and all' = all_public_yields [OF assms]
    and mult = proves_alongD(3) [OF assms(1)] and add = proves_alongD(2) [OF assms(1)]
    and at = fresh_inputsD(2) [where V = V and cc = cc and vs = vs]
  note len = fresh_inputsD(1) [OF fresh]
  show "length vs = 2 \<Longrightarrow> yields (bgv_toy_eval_zk Q ps inputs) g
      (\<lambda>(c, ps'). bw_slots V c = bgv_function ''toy'' vs \<and> PV ps' = PV ps @ vs)"
    unfolding bgv_toy_eval_zk_def
    by (simp only: len simp_thms if_False, rule two, simp, unfold prod.case,
        rule yields_monoP [OF mult [OF at at]]) (assumption | simp add: holds_def bgv_function_def)+
  show "length vs = 2 \<Longrightarrow> yields (bgv_mul_4k_eval_zk Q ps inputs) g
      (\<lambda>(c, ps'). bw_slots V c = bgv_function ''BGV-Mul-4K'' vs \<and> PV ps' = PV ps @ vs)"
    unfolding bgv_mul_4k_eval_zk_def
    by (simp only: len simp_thms if_False, rule two, simp, unfold prod.case,
        rule yields_monoP [OF mult [OF at at]]) (assumption | simp add: holds_def bgv_function_def)+
  show "length vs = 2 \<Longrightarrow> yields (bgv_add_4k_eval_zk Q ps inputs) g
      (\<lambda>(c, ps'). bw_slots V c = bgv_function ''BGV-Add-4K'' vs \<and> PV ps' = PV ps @ vs)"
    unfolding bgv_add_4k_eval_zk_def
    by (simp only: len simp_thms if_False, rule two, simp, unfold prod.case,
        rule yields_monoP [OF add [OF at at]]) (assumption | simp add: holds_def bgv_function_def)+
  show "length vs = 4 \<Longrightarrow> yields (bgv_small_eval_zk Q ps inputs) g
      (\<lambda>(c, ps'). bw_slots V c = bgv_function ''small'' vs \<and> PV ps' = PV ps @ vs)"
    unfolding bgv_small_eval_zk_def
    apply (simp only: len simp_thms if_False)
    apply (rule yields_bind_pair [OF all'], unfold prod.case)
    apply (rule yields_bind_pair [OF mult [OF at at]], erule conjunct1, simp, erule conjunct1, simp, unfold prod.case)
    apply (rule yields_bind_pair [OF mult [OF at at]], erule conjunct1, simp, erule conjunct1, simp, unfold prod.case)
    apply (rule yields_monoP [OF add], erule conjunct1, erule conjunct1)
    apply (simp add: holds_def bgv_function_def modt_vadd)
    done
  show "length vs = 6 \<Longrightarrow> yields (bgv_medium_eval_zk Q ps inputs) g
      (\<lambda>(c, ps'). bw_slots V c = bgv_function ''medium'' vs \<and> PV ps' = PV ps @ vs)"
    unfolding bgv_medium_eval_zk_def
    apply (simp only: len simp_thms if_False)
    apply (rule yields_bind_pair [OF all'], unfold prod.case)
    apply (rule yields_bind_pair [OF mult [OF at at]], erule conjunct1, simp, erule conjunct1, simp, unfold prod.case)
    apply (rule yields_bind_pair [OF mult [OF at at]], erule conjunct1, simp, erule conjunct1, simp, unfold prod.case)
    apply (rule yields_bind_pair [OF mult [OF at at]], erule conjunct1, simp, erule conjunct1, simp, unfold prod.case)
    apply (rule yields_bind_pair [OF add], erule conjunct1, erule conjunct1, unfold prod.case)
    apply (rule yields_monoP [OF add], erule conjunct1, erule conjunct1)
    apply (simp add: holds_def bgv_function_def modt_vadd)
    done
qed

end
