(* ===== verification/Examples_Circuits.thy ===== *)
theory Examples_Circuits
  imports Examples_Ckks Gpu_Training Workloads_Bgv
begin

text \<open>
  Noiseless instances of the GPU library and of BGV with a proof system: they show that what
  \<open>gpu_works\<close>, \<open>ckks_replaces\<close>, \<open>bgv_works\<close> and \<open>proves_along\<close> ask for can be had.
\<close>

section \<open>A GPU without noise\<close>

text \<open>The client's library, in the build whose bootstrapping keys replace the rotation keys.\<close>

definition ideal_client :: "(ideal_state, cc_params, ideal_ct, real list \<times> nat, unit) ckks" where
  "ideal_client = ideal_ckks\<lparr>ck_boot_keygen := (\<lambda>cc kp m g. (Inr (), g\<lparr>id_rotations := []\<rparr>))\<rparr>"

lemma ideal_client_technique:
  "fixed_manual ideal_client = fixed_manual ideal_ckks" "flexible_auto ideal_client = flexible_auto ideal_ckks"
  by (intro ext, simp add: ideal_client_def fixed_manual_def flexible_auto_def)+

lemma ideal_client_replaces: "ckks_replaces ideal_client ideal_view"
  unfolding ckks_replaces_def ckks_core_def ideal_client_technique
  by (intro conjI allI impI ideal_technique)
    (auto simp: ideal_client_def ideal_ckks_def ideal_view_def keeps_def keeps_but_rotations_def runs_def)

definition ideal_gpu :: "(ideal_state, cc_params, ideal_ct, real list \<times> nat, unit, cc_params, ideal_ct,
    real list \<times> nat, cc_params) gpu" where
  "ideal_gpu = \<lparr>
     fd_api = ideal_ckks\<lparr>ck_rotate := (\<lambda>cc a k g. if id_rotations g \<noteq> []
        then (Inr (ideal_ct (rot k (ic_slots a)) (ic_level a) (ic_degree a)), g)
        else (throw (Lib_error ''rotation key not found''), g))\<rparr>,
     fd_slots = (\<lambda>c. length (ic_slots c)), fd_set_slots = (\<lambda>c m. c),
     fd_gen = (\<lambda>ps ds. ret ps), fd_pk_context = (\<lambda>pk. pk),
     fd_encrypt = (\<lambda>cc pk p. ret (ideal_ct (fst p) (snd p) 1)),
     fd_load_context = (\<lambda>gx pk. ret ()), fd_load_ciphertext = (\<lambda>h c. ret c), fd_clone = ret,
     fd_synchronize = (\<lambda>h. ret ()), fd_shadow = (\<lambda>c. c), fd_sync_to_cpu = (\<lambda>h t d. ret d)\<rparr>"

definition ideal_gpu_view :: "(ideal_state, cc_params, ideal_ct, real list \<times> nat) view" where
  "ideal_gpu_view = ideal_view\<lparr>vs_rotations := (\<lambda>g. {k. id_rotations g \<noteq> []})\<rparr>"

lemma ideal_gpu_flexible:
  "cp_technique h = FLEXIBLEAUTO \<Longrightarrow> flexible_auto (fd_api ideal_gpu) ideal_gpu_view h g"
  unfolding flexible_auto_def Let_def
  by (intro conjI allI impI; simp add: ideal_gpu_def ideal_gpu_view_def ideal_defs split: if_splits)

lemma ideal_gpu_marks: "marks_slots ideal_gpu ideal_gpu_view h g"
  by (auto simp: marks_slots_def ideal_gpu_def ideal_gpu_view_def ideal_defs slot_def split: if_splits)

lemma ideal_gpu_loaded:
  assumes "cp_technique (gc_handle gx) = FLEXIBLEAUTO" and "id_mult g"
    and "set (gc_rotation_indexes gx) \<subseteq> set (id_rotations g)" and "gc_cpu gx = gc_handle gx"
  shows "gpu_loaded ideal_gpu ideal_view ideal_gpu_view gx g"
  using assms ideal_gpu_flexible [OF assms(1), of g] ideal_gpu_marks [of "gc_handle gx" g]
  by (auto simp: gpu_loaded_def sum_ready_def Let_def ideal_gpu_def ideal_gpu_view_def ideal_view_def carries_def)

lemma ideal_gpu_works: "gpu_works ideal_gpu ideal_view ideal_gpu_view"
  unfolding gpu_works_def
proof (intro conjI allI impI)
  fix gx :: "(cc_params, cc_params) gpu_context" and pk g
  assume "vs_params ideal_view (gc_cpu gx) = vs_params ideal_gpu_view (gc_handle gx)"
    and "cp_technique (vs_params ideal_gpu_view (gc_handle gx)) = FLEXIBLEAUTO"
    and "vs_mult ideal_view g" and "set (gc_rotation_indexes gx) \<subseteq> vs_rotations ideal_view g"
  then have "gpu_loaded ideal_gpu ideal_view ideal_gpu_view gx g"
    by (intro ideal_gpu_loaded) (simp_all add: ideal_view_def ideal_gpu_view_def)
  then show "runs (fd_load_context ideal_gpu gx pk) g
      (\<lambda>_ g'. keeps ideal_view g g' \<and> gpu_loaded ideal_gpu ideal_view ideal_gpu_view gx g')"
    by (simp add: ideal_gpu_def)
qed (auto simp: ideal_gpu_def ideal_gpu_view_def ideal_defs keeps_def keeps_but_rotations_def runs_def)

definition ideal_gpu_start :: "(ideal_state, cc_params) gpu_globals" where
  "ideal_gpu_start = \<lparr>gg_lib = ideal_start, gg_client_pk = None\<rparr>"

section \<open>BGV without noise\<close>

record ideal_bgv_ct =
  ib_slots :: "int list"
  ib_parts :: nat

definition ideal_bgv_ct :: "int list \<Rightarrow> nat \<Rightarrow> ideal_bgv_ct" where
  "ideal_bgv_ct v k = \<lparr>ib_slots = v, ib_parts = k\<rparr>"

definition ideal_bgv_add :: "ideal_bgv_ct \<Rightarrow> ideal_bgv_ct \<Rightarrow> ideal_bgv_ct" where
  "ideal_bgv_add a b = ideal_bgv_ct (modt (vadd (ib_slots a) (ib_slots b))) (max (ib_parts a) (ib_parts b))"

definition ideal_bgv_mult :: "ideal_bgv_ct \<Rightarrow> ideal_bgv_ct \<Rightarrow> ideal_bgv_ct" where
  "ideal_bgv_mult a b = ideal_bgv_ct (modt (vmul (ib_slots a) (ib_slots b))) (ib_parts a + ib_parts b - 1)"

definition ideal_bgv :: "(feature set, bgv_params, ideal_bgv_ct) bgv" where
  "ideal_bgv = \<lparr>bg_gen = ret, bg_enable = (\<lambda>cc f g. (Inr (), insert f g)),
     bg_add = (\<lambda>cc a b. ret (ideal_bgv_add a b)), bg_mult_no_relin = (\<lambda>cc a b. ret (ideal_bgv_mult a b))\<rparr>"

text \<open>A proof system that remembers what was made public.\<close>

definition ideal_proofs :: "(feature set, int list list, ideal_bgv_ct) proof_ops" where
  "ideal_proofs = \<lparr>po_public_input = (\<lambda>ps c. ret (c, ps @ [ib_slots c])),
     po_add = (\<lambda>ps a b. ret (ideal_bgv_add a b, ps)),
     po_mult_no_relin = (\<lambda>ps a b. ret (ideal_bgv_mult a b, ps))\<rparr>"

definition ideal_bgv_view :: "(feature set, bgv_params, ideal_bgv_ct) bgv_view" where
  "ideal_bgv_view = \<lparr>bw_params = (\<lambda>cc. cc), bw_on = (\<lambda>g cc. g), bw_slots = ib_slots, bw_parts = ib_parts\<rparr>"

lemmas ideal_bgv_defs = ideal_bgv_def ideal_proofs_def ideal_bgv_view_def ideal_bgv_add_def
  ideal_bgv_mult_def ideal_bgv_ct_def holds_def

lemma ideal_bgv_works: "bgv_works ideal_bgv ideal_bgv_view"
  by (auto simp: bgv_works_def bgv_evaluates_def ideal_bgv_defs runs_def)

lemma ideal_proves_along: "proves_along ideal_proofs ideal_bgv_view cc id g"
  by (auto simp: proves_along_def ideal_bgv_defs)

lemma ideal_fresh_inputs:
  "(\<And>v. v \<in> set vs \<Longrightarrow> length v = bp_batch cc) \<Longrightarrow>
    fresh_inputs ideal_bgv_view cc (map (\<lambda>v. ideal_bgv_ct v 2) vs) vs"
  by (simp add: fresh_inputs_def list_all2_conv_all_nth ideal_bgv_defs)

end
