(* ===== verification/Properties_Circuits.thy ===== *)
theory Properties_Circuits
  imports Properties_Workloads Examples_Circuits
begin

text \<open>
  The properties of the circuits that run elsewhere: the training on the GPU, the BGV workloads, and
  the circuits that the zero-knowledge proofs are about.
\<close>

section \<open>Training on the GPU\<close>


lemma ones_rows:
  "map_r (read_row (\<lambda>_. Inr 1) 0) (take 1280 ones_file) =
    Inr (map (\<lambda>_. (replicate 196 1 @ replicate 60 0, 1 :: real)) (take 1280 ones_file))"
  "length (map (\<lambda>_. (replicate 196 1 @ replicate 60 0, 1 :: real)) (take 1280 ones_file)) = 1280"
proof -
  have "read_row (\<lambda>_. Inr 1) 0 c = Inr (replicate 196 1 @ replicate 60 0, 1 :: real)" for c
    by (simp add: read_row_def map_r_Inr bind_r_def kNumFeatures_def kCols_def map_replicate_const)
  then show "map_r (read_row (\<lambda>_. Inr 1) 0) (take 1280 ones_file) =
      Inr (map (\<lambda>_. (replicate 196 1 @ replicate 60 0, 1 :: real)) (take 1280 ones_file))"
    by (intro map_r_Inr)
qed (simp add: ones_file_def)


text \<open>C15: The sums of the GPU refine the windows that the loops of the CPU compute: with the keys
  that the client makes, each accumulation finds every rotation it asks for, reduced into the signed
  range, and yields the sum along the rows, back over the rows, and down the columns.\<close>

theorem gpu_sums_refine_windows:
  assumes "gpu_ready F V W gx g" and "carries W (gc_handle gx) ct v l"
  shows "yields (gpu_row_accumulate F (gc_handle gx) ct) g
      (\<lambda>c. carries W (gc_handle gx) c (window 1 lr_kCols v) l) \<and>
    yields (gpu_row_propagate F (gc_handle gx) ct) g
      (\<lambda>c. carries W (gc_handle gx) c (window (-1) lr_kCols v) l) \<and>
    yields (gpu_col_accumulate F (gc_handle gx) ct) g
      (\<lambda>c. carries W (gc_handle gx) c (window (int lr_kCols) lr_kRows v) l)"
  using gpu_sums_yield [OF assms] by blast

definition ideal_loaded_context :: "(cc_params, cc_params) gpu_context" where
  "ideal_loaded_context = \<lparr>gc_handle = logistic_params, gc_cpu = logistic_params,
     gc_rotation_indexes = logreg_rotation_indices, gc_slots_bootstrap = [lr_kCols]\<rparr>"

definition ideal_loaded :: ideal_state where
  "ideal_loaded = ideal_start\<lparr>id_mult := True, id_rotations := logreg_rotation_indices\<rparr>"

theorem gpu_sums_refine_windows_witness:
  "yields (gpu_row_propagate ideal_gpu logistic_params (ideal_ct (replicate lr_kBatchSize 1) 0 1)) ideal_loaded
    (\<lambda>c. ic_slots c = window (-1) lr_kCols (replicate lr_kBatchSize 1))"
proof -
  have r: "gpu_ready ideal_gpu ideal_view ideal_gpu_view ideal_loaded_context ideal_loaded"
    unfolding gpu_ready_def
    by (intro conjI ideal_gpu_loaded) (simp_all add: ideal_loaded_context_def ideal_loaded_def
      logistic_params_def set_params_def ideal_gpu_view_def)
  have h: "gc_handle ideal_loaded_context = logistic_params"
    by (simp add: ideal_loaded_context_def)
  have c: "carries ideal_gpu_view (gc_handle ideal_loaded_context)
      (ideal_ct (replicate lr_kBatchSize 1) 0 1) (replicate lr_kBatchSize 1) 0"
    by (simp add: carries_def ideal_gpu_view_def ideal_view_def h logistic_params_def set_params_def)
  from gpu_sums_refine_windows [OF r c] have "yields (gpu_row_propagate ideal_gpu logistic_params
      (ideal_ct (replicate lr_kBatchSize 1) 0 1)) ideal_loaded (\<lambda>c. carries ideal_gpu_view
      (gc_handle ideal_loaded_context) c (window (-1) lr_kCols (replicate lr_kBatchSize 1)) 0)"
    unfolding h by (elim conjE)
  then show ?thesis
    by (rule yields_mono) (simp add: carries_def ideal_gpu_view_def ideal_view_def)
qed

section \<open>BGV\<close>

text \<open>C21: The BGV workloads compute what they are named after: every workload of the client's table
  is registered, and on as many fresh inputs as the client encrypts for it the circuit yields its
  function of the inputs, slot by slot modulo 65537.\<close>

theorem bgv_circuits_compute:
  assumes "bgv_works B V" and "s \<in> set bgv_kWorkloads"
  shows "\<exists>w. bgv_registry B (ws_id s) = Some w \<and> runs (wl_make_context w) g (\<lambda>cc g'. \<forall>inputs vs.
    length vs = nat (ws_num_inputs s) \<and> fresh_inputs V cc inputs vs \<longrightarrow>
      yields (wl_eval w cc inputs) g' (\<lambda>c. bw_slots V c = bgv_function (ws_id s) vs))"
proof -
  have *: "runs (wl_make_context (bgv_entry B eval)) g (\<lambda>cc g'. \<forall>inputs vs.
      length vs = n \<and> fresh_inputs V cc inputs vs \<longrightarrow> yields (wl_eval (bgv_entry B eval) cc inputs) g'
        (\<lambda>c. bw_slots V c = f vs))"
    if "\<And>cc g' inputs vs. bgv_evaluates B V cc g' \<Longrightarrow> fresh_inputs V cc inputs vs \<Longrightarrow> length vs = n \<Longrightarrow>
      yields (eval cc inputs) g' (\<lambda>c. bw_slots V c = f vs)" for eval n f
    unfolding bgv_entry_def make_bgv_baseline_context_def workload.simps
    by (rule runs_mono [OF baseline_context_runs [OF assms(1)]]) (use that in auto)
  note circuits = bgv_circuits_yield [where B = B and V = V]
  show ?thesis
    using assms(2) unfolding bgv_kWorkloads_def mk_spec_def
    by (simp add: bgv_registered, elim disjE)
      (simp_all add: bgv_registered, (rule *, rule circuits; simp)+)
qed

theorem bgv_circuits_compute_witness:
  "\<exists>cc g'. make_bgv_baseline_context ideal_bgv {} = (Inr cc, g') \<and>
    yields (bgv_medium_eval ideal_bgv cc (map (\<lambda>v. ideal_bgv_ct v 2)
      [replicate 4096 65536, replicate 4096 65536, replicate 4096 2, replicate 4096 3,
       replicate 4096 4, replicate 4096 5])) g'
    (\<lambda>c. ib_slots c = bgv_function ''medium'' [replicate 4096 65536, replicate 4096 65536,
      replicate 4096 2, replicate 4096 3, replicate 4096 4, replicate 4096 5])"
proof -
  let ?vs = "[replicate 4096 65536, replicate 4096 65536, replicate 4096 2, replicate 4096 3,
    replicate 4096 4, replicate 4096 (5 :: int)]"
  have "mk_spec ''medium'' 6 64 42 123 \<in> set bgv_kWorkloads"
    by (simp add: bgv_kWorkloads_def)
  from bgv_circuits_compute [OF ideal_bgv_works this, of "{}"] obtain cc g' where
    m: "make_bgv_baseline_context ideal_bgv {} = (Inr cc, g')"
    and e: "\<And>inputs vs. length vs = 6 \<Longrightarrow> fresh_inputs ideal_bgv_view cc inputs vs \<Longrightarrow>
      yields (bgv_medium_eval ideal_bgv cc inputs) g' (\<lambda>c. bw_slots ideal_bgv_view c = bgv_function ''medium'' vs)"
    by (auto simp: mk_spec_def bgv_registered bgv_entry_def elim!: runsE)
  have "cc = bgv_baseline_params"
    using m by (auto simp: make_bgv_baseline_context_def ideal_bgv_def elim!: bind_p_cases)
  then have "fresh_inputs ideal_bgv_view cc (map (\<lambda>v. ideal_bgv_ct v 2) ?vs) ?vs"
    by (intro ideal_fresh_inputs) (auto simp: bgv_baseline_params_def)
  from e [OF _ this] m show ?thesis
    by (simp add: ideal_bgv_view_def)
qed

section \<open>What the proofs are about\<close>

lemma every_default:
  assumes "P ''noop'' 1" "P ''toy'' 2" "P ''small'' 4" "P ''medium'' 6" "P ''BGV-Add-4K'' 2"
    "P ''BGV-Mul-4K'' 2" and "d \<in> set kWorkloadDefaults"
  shows "P (zw_id d) (nat (zw_num_inputs d))"
  using assms by (auto simp: kWorkloadDefaults_def zk_default_def)

text \<open>What a circuit over the proof system leaves: the result of the plain circuit, and all inputs public.\<close>

definition proves_function :: "string \<Rightarrow> ('g, 'cc, 'ct) bgv_view \<Rightarrow> ('ps \<Rightarrow> int list list) \<Rightarrow>
    ('ps \<Rightarrow> 'ct list \<Rightarrow> ('g, 'ct \<times> 'ps) prog) \<Rightarrow> 'g \<Rightarrow> 'ps \<Rightarrow> 'ct list \<Rightarrow> int list list \<Rightarrow> bool" where
  "proves_function wid V PV eval_zk g ps inputs vs \<longleftrightarrow> yields (eval_zk ps inputs) g
     (\<lambda>(c, ps'). bw_slots V c = bgv_function wid vs \<and> PV ps' = PV ps @ vs)"



end
