(* ===== verification/Client_Main.thy ===== *)
theory Client_Main
  imports Workloads_Bgv Client_Gpu Gpu_Training
begin

text \<open>
  The \<open>main\<close> functions of the four clients: command line, setup, one request, the check of the
  response, decryption and the exit code. The library, the network and the random device are
  parameters; what goes to the consoles is reduced to the values that are printed from the
  decrypted output.
\<close>

section \<open>The command line\<close>

record client_options =
  co_host :: string
  co_port :: "16 word"
  co_workload :: string
  co_mr_td :: string

definition default_options :: client_options where
  "default_options = \<lparr>co_host = ''127.0.0.1'', co_port = 8080, co_workload = ''noop'', co_mr_td = []\<rparr>"

text \<open>
  The loop over \<open>argv\<close>: options, or the exit code that \<open>main\<close> returns at once. \<open>std::stoi\<close> may
  throw, and the loop is outside of the \<open>try\<close> block.
\<close>

fun parse_args :: "(string \<Rightarrow> int result) \<Rightarrow> string list \<Rightarrow> client_options \<Rightarrow> (int + client_options) result" where
  "parse_args stoi [] opts = Inr (Inr opts)"
| "parse_args stoi [a] opts = (if a = ''--help'' \<or> a = ''-h'' then Inr (Inl 0) else Inr (Inl 1))"
| "parse_args stoi (a # b # rest) opts =
     (if a = ''--host'' then parse_args stoi rest (opts\<lparr>co_host := b\<rparr>)
      else if a = ''--port'' then bind_r (stoi b) (\<lambda>p. parse_args stoi rest (opts\<lparr>co_port := word_of_int p\<rparr>))
      else if a = ''--workload'' then parse_args stoi rest (opts\<lparr>co_workload := b\<rparr>)
      else if a = ''--expected-mr-td'' then parse_args stoi rest (opts\<lparr>co_mr_td := b\<rparr>)
      else if a = ''--help'' \<or> a = ''-h'' then Inr (Inl 0) else Inr (Inl 1))"

record zk_options =
  zo_host :: string
  zo_port :: "16 word"
  zo_workload :: string
  zo_num_inputs :: int
  zo_slots :: int
  zo_seed_a :: int
  zo_seed_b :: int

definition zk_default_options :: zk_options where
  "zk_default_options = \<lparr>zo_host = ''127.0.0.1'', zo_port = 8080, zo_workload = ''toy'',
     zo_num_inputs = 2, zo_slots = 64, zo_seed_a = 42, zo_seed_b = 123\<rparr>"

fun zk_parse_args :: "(string \<Rightarrow> int result) \<Rightarrow> string list \<Rightarrow> zk_options \<Rightarrow> (int + zk_options) result" where
  "zk_parse_args stoi [] opts = Inr (Inr opts)"
| "zk_parse_args stoi [a] opts = (if a = ''--help'' \<or> a = ''-h'' then Inr (Inl 0) else Inr (Inl 1))"
| "zk_parse_args stoi (a # b # rest) opts =
     (if a = ''--host'' then zk_parse_args stoi rest (opts\<lparr>zo_host := b\<rparr>)
      else if a = ''--port'' then
        bind_r (stoi b) (\<lambda>p. zk_parse_args stoi rest (opts\<lparr>zo_port := word_of_int p\<rparr>))
      else if a = ''--workload'' then zk_parse_args stoi rest (opts\<lparr>zo_workload := b\<rparr>)
      else if a = ''--inputs'' then
        bind_r (stoi b) (\<lambda>n. zk_parse_args stoi rest (opts\<lparr>zo_num_inputs := n\<rparr>))
      else if a = ''--slots'' then
        bind_r (stoi b) (\<lambda>n. zk_parse_args stoi rest (opts\<lparr>zo_slots := n\<rparr>))
      else if a = ''--seed'' then
        bind_r (stoi b) (\<lambda>n. zk_parse_args stoi rest (opts\<lparr>zo_seed_a := n\<rparr>))
      else if a = ''--help'' \<or> a = ''-h'' then Inr (Inl 0) else Inr (Inl 1))"

section \<open>A session\<close>

text \<open>
  What the \<open>try\<close> blocks have in common: a request is prepared together with what will decrypt the
  answer; the response is checked; only an accepted output goes on to \<open>finish\<close>. The result is the
  exit code and what was printed from the output.
\<close>

definition run_session :: "('g, 'rq \<times> 'k) prog \<Rightarrow> ('rq \<Rightarrow> bytes) \<Rightarrow> (bytes \<Rightarrow> bytes result) \<Rightarrow>
    ('rq \<Rightarrow> bytes \<Rightarrow> bytes option result) \<Rightarrow> ('k \<Rightarrow> bytes \<Rightarrow> ('g, 'rep) prog) \<Rightarrow>
    ('g, int \<times> 'rep option) prog" where
  "run_session prepare build exchange check finish =
     bind_p prepare (\<lambda>(rq, k).
     bind_p (lift_p (exchange (build rq))) (\<lambda>resp.
     bind_p (lift_p (check rq resp)) (\<lambda>checked. case checked of
         None \<Rightarrow> ret (1, None)
       | Some out \<Rightarrow> bind_p (finish k out) (\<lambda>rep. ret (0, Some rep)))))"

text \<open>\<open>catch (const std::exception& e) { ...; return 1; }\<close>\<close>

definition exit_guard :: "('g, int \<times> 'rep option) prog \<Rightarrow> ('g, int \<times> 'rep option) prog" where
  "exit_guard p = try_p p (\<lambda>_. ret (1, None))"

text \<open>The frame of \<open>main\<close>: command line, registry, session.\<close>

definition client_frame :: "(int + 'o) result \<Rightarrow> ('o \<Rightarrow> 'w option) \<Rightarrow>
    ('o \<Rightarrow> 'w \<Rightarrow> ('g, int \<times> 'rep option) prog) \<Rightarrow> ('g, int \<times> 'rep option) prog" where
  "client_frame parsed lookup session =
     bind_p (lift_p parsed) (\<lambda>p. case p of
         Inl code \<Rightarrow> ret (code, None)
       | Inr opts \<Rightarrow> exit_guard (case lookup opts of None \<Rightarrow> ret (1, None) | Some w \<Rightarrow> session opts w))"

section \<open>The CKKS clients\<close>

text \<open>What is printed of the trained weights.\<close>

record weight_report =
  wt_max :: real
  wt_argmax :: nat
  wt_sample :: "real list"

definition largest_weight :: "real list \<Rightarrow> real \<times> nat" where
  "largest_weight dec = fold (\<lambda>i (max_w, argmax). if \<bar>dec ! i\<bar> > max_w then (\<bar>dec ! i\<bar>, i) else (max_w, argmax))
     [0..<min 196 (length dec)] (0, 0)"

definition report_weights :: "real list \<Rightarrow> weight_report" where
  "report_weights dec = (let (max_w, argmax) = largest_weight dec in
     \<lparr>wt_max = max_w, wt_argmax = argmax, wt_sample = map (\<lambda>i. dec ! i) [100..<min 104 (length dec)]\<rparr>)"

text \<open>
  The environment of a client: the library and its serializers, the registry, the seeds of the
  inputs, the file with the training data, \<open>/dev/urandom\<close>, the network, and what it verifies with.
  \<open>ce_decrypt\<close> decrypts, sets the length to 256 and reads the real parts.
\<close>

record ('g, 'cc, 'ct, 'pt, 'sk, 's, 'h) client_env =
  ce_ckks :: "('g, 'cc, 'ct, 'pt, 'sk) ckks"
  ce_lib :: "('g, 'ct) openfhe"
  ce_serialize_mult :: "('g, bool \<times> string) prog"
  ce_serialize_auto :: "('g, bool \<times> string) prog"
  ce_decrypt :: "'cc \<Rightarrow> 'sk \<Rightarrow> 'ct \<Rightarrow> ('g, real list) prog"
  ce_registry :: "('g, 'cc, 'ct, 'sk) keyed_workload registry"
  ce_rng :: "('s, real) rng"
  ce_stoi :: "string \<Rightarrow> int result"
  ce_stod :: "string \<Rightarrow> real result"
  ce_csv :: "string list list option"
  ce_urandom :: "bytes option"
  ce_exchange :: "string \<Rightarrow> 16 word \<Rightarrow> bytes \<Rightarrow> bytes result"
  ce_b3 :: "'h blake3"
  ce_verifier :: verifier_env

definition ckks_blobs :: "('g, 'cc, 'ct, 'pt, 'sk, 's, 'h, 'x) client_env_scheme \<Rightarrow> string \<Rightarrow>
    real list list \<Rightarrow> 'cc \<Rightarrow> 'sk \<Rightarrow> ('g, bytes list) prog" where
  "ckks_blobs T workload_id vectors cc kp =
     (if workload_id = ''logistic-regression'' then
        bind_p (gen_logreg_inputs (ce_stod T) (ce_csv T) (ce_ckks T) cc kp) (\<lambda>input_cts.
        for_p (\<lambda>ct. bind_p (lift_p (serialize_ciphertext (ce_lib T) ct)) (\<lambda>s. ret (to_bytes s))) input_cts)
      else
        for_p (\<lambda>vals.
          bind_p (ck_pack (ce_ckks T) cc vals) (\<lambda>pt.
          bind_p (ck_encrypt (ce_ckks T) cc kp pt) (\<lambda>ct.
          bind_p (lift_p (serialize_ciphertext (ce_lib T) ct)) (\<lambda>s. ret (to_bytes s))))) vectors)"

definition ckks_input_blobs :: "('g, 'cc, 'ct, 'pt, 'sk, 's, 'h, 'x) client_env_scheme \<Rightarrow> string \<Rightarrow>
    'cc \<Rightarrow> 'sk \<Rightarrow> ('g, bytes list) prog" where
  "ckks_input_blobs T workload_id =
     ckks_blobs T workload_id (input_vectors (ce_rng T) (find_spec kWorkloads workload_id))"

definition tee_prepare :: "('g, 'cc, 'ct, 'pt, 'sk, 's, 'h, 'x) client_env_scheme \<Rightarrow> client_options \<Rightarrow>
    ('g, 'cc, 'ct, 'sk) keyed_workload \<Rightarrow> ('g, request \<times> 'cc \<times> 'sk) prog" where
  "tee_prepare T opts w =
     bind_p (client_setup (ce_ckks T) w) (\<lambda>(cc, kp).
     let nonce = random_nonce 16 (ce_urandom T) in
     bind_p (ce_serialize_mult T) (\<lambda>mk.
     bind_p (ce_serialize_auto T) (\<lambda>ak.
     let eval_keys = serialize_all_eval_keys mk ak in
     bind_p (ckks_input_blobs T (co_workload opts) cc kp) (\<lambda>input_ct_blobs.
     ret (\<lparr>rq_nonce = nonce, rq_keys = eval_keys, rq_cts = input_ct_blobs,
           rq_workload = co_workload opts\<rparr>, cc, kp)))))"

definition ckks_finish :: "('g, 'cc, 'ct, 'pt, 'sk, 's, 'h, 'x) client_env_scheme \<Rightarrow> 'cc \<times> 'sk \<Rightarrow> bytes \<Rightarrow>
    ('g, weight_report) prog" where
  "ckks_finish T k output_ct_bytes = (case k of (cc, kp) \<Rightarrow>
     bind_p (deserialize_ciphertext (ce_lib T) (to_string output_ct_bytes)) (\<lambda>output_ct.
     bind_p (ce_decrypt T cc kp output_ct) (\<lambda>dec. ret (report_weights dec))))"

definition tee_session :: "('g, 'cc, 'ct, 'pt, 'sk, 's, 'h, 'x) client_env_scheme \<Rightarrow> client_options \<Rightarrow>
    ('g, 'cc, 'ct, 'sk) keyed_workload \<Rightarrow> ('g, int \<times> weight_report option) prog" where
  "tee_session T opts w =
     run_session (tee_prepare T opts w) build_request (ce_exchange T (co_host opts) (co_port opts))
       (check_response (ce_b3 T) (ce_verifier T) (co_mr_td opts)) (ckks_finish T)"

definition tee_client_main :: "('g, 'cc, 'ct, 'pt, 'sk, 's, 'h, 'x) client_env_scheme \<Rightarrow> string list \<Rightarrow>
    ('g, int \<times> weight_report option) prog" where
  "tee_client_main T argv = client_frame (parse_args (ce_stoi T) argv default_options)
     (\<lambda>opts. ce_registry T (co_workload opts)) (tee_session T)"

record ('g, 'cc, 'ct, 'pt, 'sk, 's, 'h) gpu_client_env = "('g, 'cc, 'ct, 'pt, 'sk, 's, 'h) client_env" +
  ce_serialize_pk :: "'sk \<Rightarrow> ('g, string) prog"

definition gpu_prepare :: "('g, 'cc, 'ct, 'pt, 'sk, 's, 'h, 'x) gpu_client_env_scheme \<Rightarrow> client_options \<Rightarrow>
    ('g, 'cc, 'ct, 'sk) keyed_workload \<Rightarrow> ('g, gpu_request \<times> 'cc \<times> 'sk) prog" where
  "gpu_prepare T opts w =
     bind_p (client_setup (ce_ckks T) w) (\<lambda>(cc, kp).
     let nonce = random_nonce 16 (ce_urandom T) in
     bind_p (ce_serialize_mult T) (\<lambda>mk.
     bind_p (ce_serialize_auto T) (\<lambda>ak.
     let eval_keys = gpu_serialize_eval_keys mk ak in
     bind_p (ce_serialize_pk T kp) (\<lambda>pk_serialized.
     bind_p (ckks_input_blobs T (co_workload opts) cc kp) (\<lambda>input_ct_blobs.
     ret (\<lparr>rq_nonce = nonce, rq_keys = eval_keys, rq_cts = input_ct_blobs,
           rq_workload = co_workload opts, rq_public_key = to_bytes pk_serialized\<rparr>, cc, kp))))))"

definition gpu_session :: "('g, 'cc, 'ct, 'pt, 'sk, 's, 'h, 'x) gpu_client_env_scheme \<Rightarrow> client_options \<Rightarrow>
    ('g, 'cc, 'ct, 'sk) keyed_workload \<Rightarrow> ('g, int \<times> weight_report option) prog" where
  "gpu_session T opts w =
     run_session (gpu_prepare T opts w) gpu_build_request (ce_exchange T (co_host opts) (co_port opts))
       (gpu_check_response (ce_b3 T) (ce_verifier T) (co_mr_td opts)) (ckks_finish T)"

definition gpu_client_main :: "('g, 'cc, 'ct, 'pt, 'sk, 's, 'h, 'x) gpu_client_env_scheme \<Rightarrow> string list \<Rightarrow>
    ('g, int \<times> weight_report option) prog" where
  "gpu_client_main T argv = client_frame (parse_args (ce_stoi T) argv default_options)
     (\<lambda>opts. ce_registry T (co_workload opts)) (gpu_session T)"

section \<open>The BGV clients\<close>

text \<open>
  \<open>bc_decrypt\<close> decrypts, sets the length it is given and reads the packed values. The library is a
  record of the calls that both BGV clients make.
\<close>

record ('g, 'cc, 'ct, 'pt, 'sk) bgv_client =
  bc_keygen :: "'cc \<Rightarrow> ('g, 'sk) prog"
  bc_mult_keygen :: "'cc \<Rightarrow> 'sk \<Rightarrow> ('g, unit) prog"
  bc_pack :: "'cc \<Rightarrow> int list \<Rightarrow> ('g, 'pt) prog"
  bc_encrypt :: "'cc \<Rightarrow> 'sk \<Rightarrow> 'pt \<Rightarrow> ('g, 'ct) prog"
  bc_decrypt :: "'cc \<Rightarrow> 'sk \<Rightarrow> 'ct \<Rightarrow> nat \<Rightarrow> ('g, int list) prog"
  bc_serialize_mult :: "'cc \<Rightarrow> ('g, bool \<times> string) prog"
  bc_serialize_sum :: "'cc \<Rightarrow> ('g, bool \<times> string) prog"
  bc_serialize_auto :: "'cc \<Rightarrow> ('g, bool \<times> string) prog"
  bc_clear_keys :: "('g, unit) prog"

definition bgv_input_blobs :: "('g, 'cc, 'ct, 'pt, 'sk) bgv_client \<Rightarrow> ('g, 'ct) openfhe \<Rightarrow> 'cc \<Rightarrow> 'sk \<Rightarrow>
    int list list \<Rightarrow> ('g, bytes list) prog" where
  "bgv_input_blobs B L cc kp vectors =
     for_p (\<lambda>vals.
       bind_p (bc_pack B cc vals) (\<lambda>pt.
       bind_p (bc_encrypt B cc kp pt) (\<lambda>ct.
       bind_p (lift_p (serialize_ciphertext L ct)) (\<lambda>s. ret (to_bytes s))))) vectors"

definition bgv_make_keys :: "('g, 'cc, 'ct, 'pt, 'sk) bgv_client \<Rightarrow> ('g, 'cc) prog \<Rightarrow>
    ('cc \<Rightarrow> 'sk \<Rightarrow> ('g, unit) prog) option \<Rightarrow> ('g, 'cc \<times> 'sk) prog" where
  "bgv_make_keys B make_context gen_keys =
     bind_p make_context (\<lambda>cc.
     bind_p (bc_keygen B cc) (\<lambda>kp.
     bind_p (case gen_keys of None \<Rightarrow> ret () | Some gk \<Rightarrow> gk cc kp) (\<lambda>_.
     bind_p (bc_mult_keygen B cc kp) (\<lambda>_. ret (cc, kp)))))"

definition bgv_finish :: "('g, 'cc, 'ct, 'pt, 'sk) bgv_client \<Rightarrow> ('g, 'ct) openfhe \<Rightarrow> nat \<Rightarrow> 'cc \<times> 'sk \<Rightarrow> bytes \<Rightarrow>
    ('g, int list) prog" where
  "bgv_finish B L slots k output_ct_bytes = (case k of (cc, kp) \<Rightarrow>
     bind_p (deserialize_ciphertext L (to_string output_ct_bytes)) (\<lambda>output_ct.
     bind_p (bc_decrypt B cc kp output_ct slots) (\<lambda>dec. ret (take 8 dec))))"

record ('g, 'cc, 'ct, 'pt, 'sk, 's, 'h) bgv_client_env =
  be_client :: "('g, 'cc, 'ct, 'pt, 'sk) bgv_client"
  be_lib :: "('g, 'ct) openfhe"
  be_registry :: "('g, 'cc, 'ct, 'sk) keyed_workload registry"
  be_rng :: "('s, int) rng"
  be_stoi :: "string \<Rightarrow> int result"
  be_urandom :: "bytes option"
  be_exchange :: "string \<Rightarrow> 16 word \<Rightarrow> bytes \<Rightarrow> bytes result"
  be_b3 :: "'h blake3"
  be_verifier :: verifier_env

definition bgv_prepare :: "('g, 'cc, 'ct, 'pt, 'sk, 's, 'h) bgv_client_env \<Rightarrow> client_options \<Rightarrow>
    ('g, 'cc, 'ct, 'sk) keyed_workload \<Rightarrow> ('g, request \<times> 'cc \<times> 'sk) prog" where
  "bgv_prepare T opts w =
     bind_p (bgv_make_keys (be_client T) (wl_make_context w) (wl_gen_keys w)) (\<lambda>(cc, kp).
     let nonce = random_nonce 16 (be_urandom T) in
     bind_p (bc_serialize_mult (be_client T) cc) (\<lambda>mk.
     bind_p (bc_serialize_sum (be_client T) cc) (\<lambda>sk.
     bind_p (bc_serialize_auto (be_client T) cc) (\<lambda>ak.
     let eval_keys = bgv_serialize_all_eval_keys mk sk ak in
     bind_p (bgv_input_blobs (be_client T) (be_lib T) cc kp
       (bgv_input_vectors (be_rng T) (find_spec bgv_kWorkloads (co_workload opts)))) (\<lambda>input_ct_blobs.
     ret (\<lparr>rq_nonce = nonce, rq_keys = eval_keys, rq_cts = input_ct_blobs,
           rq_workload = co_workload opts\<rparr>, cc, kp))))))"

text \<open>The length of the output is that of the inputs, or 64 when the client knows none.\<close>

definition bgv_output_length :: "string \<Rightarrow> nat" where
  "bgv_output_length workload_id =
     (case find_spec bgv_kWorkloads workload_id of Some s \<Rightarrow> nat (ws_slots s) | None \<Rightarrow> 64)"

definition bgv_session :: "('g, 'cc, 'ct, 'pt, 'sk, 's, 'h) bgv_client_env \<Rightarrow> client_options \<Rightarrow>
    ('g, 'cc, 'ct, 'sk) keyed_workload \<Rightarrow> ('g, int \<times> int list option) prog" where
  "bgv_session T opts w =
     run_session (bgv_prepare T opts w) build_request (be_exchange T (co_host opts) (co_port opts))
       (bgv_check_response (be_b3 T) (be_verifier T) (co_mr_td opts))
       (bgv_finish (be_client T) (be_lib T) (bgv_output_length (co_workload opts)))"

definition bgv_client_main :: "('g, 'cc, 'ct, 'pt, 'sk, 's, 'h) bgv_client_env \<Rightarrow> string list \<Rightarrow>
    ('g, int \<times> int list option) prog" where
  "bgv_client_main T argv = client_frame (parse_args (be_stoi T) argv default_options)
     (\<lambda>opts. be_registry T (co_workload opts)) (bgv_session T)"

text \<open>
  The client of \<open>zk-vfhe\<close> clears the key maps first. The timings that it reads from the transcript
  are only printed.
\<close>

record ('g, 'cc, 'ct, 'ps, 'sk) zk_keyed_workload = "('g, 'cc, 'ct, 'ps) zk_workload" +
  wl_zk_gen_keys :: "('cc \<Rightarrow> 'sk \<Rightarrow> ('g, unit) prog) option"

record ('g, 'cc, 'ct, 'pt, 'sk, 's, 'ps, 'r, 'cs, 'pk, 'vk, 'f, 'w, 'p) zk_client_env =
  ye_client :: "('g, 'cc, 'ct, 'pt, 'sk) bgv_client"
  ye_lib :: "('g, 'ct) openfhe"
  ye_registry :: "('g, 'cc, 'ct, 'ps, 'sk) zk_keyed_workload registry"
  ye_rng :: "('s, int) rng"
  ye_stoi :: "string \<Rightarrow> int result"
  ye_urandom :: "bytes option"
  ye_exchange :: "string \<Rightarrow> 16 word \<Rightarrow> bytes \<Rightarrow> bytes result"
  ye_snark :: "('r, 'cs, 'pk, 'vk, 'f list, 'w, 'p) snark"
  ye_readers :: "('vk, 'p) zk_readers"
  ye_field :: "'f field_io"

definition zk_prepare :: "('g, 'cc, 'ct, 'pt, 'sk, 's, 'ps, 'r, 'cs, 'pk, 'vk, 'f, 'w, 'p) zk_client_env \<Rightarrow>
    zk_options \<Rightarrow> ('g, 'cc, 'ct, 'ps, 'sk) zk_keyed_workload \<Rightarrow> ('g, request \<times> 'cc \<times> 'sk) prog" where
  "zk_prepare T opts w =
     bind_p (bc_clear_keys (ye_client T)) (\<lambda>_.
     bind_p (bgv_make_keys (ye_client T) (wl_make_context w) (wl_zk_gen_keys w)) (\<lambda>(cc, kp).
     let nonce = random_nonce 16 (ye_urandom T) in
     bind_p (bc_serialize_mult (ye_client T) cc) (\<lambda>mk.
     bind_p (bc_serialize_sum (ye_client T) cc) (\<lambda>sk.
     bind_p (bc_serialize_auto (ye_client T) cc) (\<lambda>ak.
     let eval_keys = zk_serialize_all_eval_keys mk sk ak in
     bind_p (bgv_input_blobs (ye_client T) (ye_lib T) cc kp
       (zk_input_vectors (ye_rng T) (zo_num_inputs opts) (zo_slots opts) (zo_seed_a opts) (zo_seed_b opts)))
       (\<lambda>input_ct_blobs.
     ret (\<lparr>rq_nonce = nonce, rq_keys = eval_keys, rq_cts = input_ct_blobs,
           rq_workload = zo_workload opts\<rparr>, cc, kp)))))))"

definition zk_session :: "('g, 'cc, 'ct, 'pt, 'sk, 's, 'ps, 'r, 'cs, 'pk, 'vk, 'f, 'w, 'p) zk_client_env \<Rightarrow>
    zk_options \<Rightarrow> ('g, 'cc, 'ct, 'ps, 'sk) zk_keyed_workload \<Rightarrow> ('g, int \<times> int list option) prog" where
  "zk_session T opts w =
     run_session (zk_prepare T opts w) build_request (ye_exchange T (zo_host opts) (zo_port opts))
       (\<lambda>_. zk_check_response (ye_snark T) (ye_readers T) (ye_field T))
       (bgv_finish (ye_client T) (ye_lib T) (nat (zo_slots opts)))"

text \<open>The table overrides the counts of the command line before the session starts.\<close>

definition zk_override :: "zk_options \<Rightarrow> zk_options" where
  "zk_override opts = (let (n, sl) = zk_dispatch (zo_workload opts) (zo_num_inputs opts) (zo_slots opts)
     in opts\<lparr>zo_num_inputs := n, zo_slots := sl\<rparr>)"

definition zk_client_main :: "('g, 'cc, 'ct, 'pt, 'sk, 's, 'ps, 'r, 'cs, 'pk, 'vk, 'f, 'w, 'p) zk_client_env \<Rightarrow>
    string list \<Rightarrow> ('g, int \<times> int list option) prog" where
  "zk_client_main T argv = client_frame
     (bind_r (zk_parse_args (ye_stoi T) argv zk_default_options) (\<lambda>p. Inr (map_sum id zk_override p)))
     (\<lambda>opts. ye_registry T (zo_workload opts)) (zk_session T)"


section \<open>What a session does\<close>

lemma run_session_accepts:
  assumes "prepare g = (Inr (rq, k), g1)" and "exchange (build rq) = Inr resp"
    and "check rq resp = Inr (Some out)" and "finish k out g1 = (Inr rep, g2)"
  shows "run_session prepare build exchange check finish g = (Inr (0, Some rep), g2)"
  using assms by (simp add: run_session_def bind_p_def)

lemma run_session_refuses:
  assumes "prepare g = (Inr (rq, k), g1)" and "exchange (build rq) = Inr resp"
    and "check rq resp = Inr None"
  shows "run_session prepare build exchange check finish g = (Inr (1, None), g1)"
  using assms by (simp add: run_session_def bind_p_def)

text \<open>\<open>released\<close>: a session prepared a request, and what it got for it was accepted and decrypted.\<close>

definition released :: "('g, 'rq \<times> 'k) prog \<Rightarrow> ('rq \<Rightarrow> bytes) \<Rightarrow> (bytes \<Rightarrow> bytes result) \<Rightarrow>
    ('rq \<Rightarrow> bytes \<Rightarrow> bytes option result) \<Rightarrow> ('k \<Rightarrow> bytes \<Rightarrow> ('g, 'rep) prog) \<Rightarrow> 'g \<Rightarrow> 'rep \<Rightarrow> 'g \<Rightarrow> bool" where
  "released prepare build exchange check finish g rep g' \<longleftrightarrow>
     (\<exists>rq k g1 resp out. prepare g = (Inr (rq, k), g1) \<and> exchange (build rq) = Inr resp \<and>
        check rq resp = Inr (Some out) \<and> finish k out g1 = (Inr rep, g'))"

lemma run_session_ends:
  assumes "run_session prepare build exchange check finish g = (Inr (code, r), g')"
  obtains (printed) rep where "code = 0" "r = Some rep"
      "released prepare build exchange check finish g rep g'"
    | (refused) "code = 1" "r = None"
  using assms unfolding run_session_def released_def
  by (auto elim!: bind_p_cases split: option.splits)

text \<open>
  A client prints exactly when its options name a registered workload and its session released an
  output; otherwise the exit code is 1, but for the help text.
\<close>

lemma client_frame_prints:
  assumes "\<And>opts w g' rep. session opts w g = (Inr (code, Some rep), g') \<longleftrightarrow>
      code = 0 \<and> rel opts w g rep g'"
  shows "client_frame parsed lookup session g = (Inr (code, Some rep), g') \<longleftrightarrow>
    (\<exists>opts w. parsed = Inr (Inr opts) \<and> lookup opts = Some w \<and> code = 0 \<and> rel opts w g rep g')"
proof (cases parsed)
  case (Inr p)
  show ?thesis
  proof (cases p)
    case (Inr opts)
    have "exit_guard q g = (Inr (code, Some rep), g') \<longleftrightarrow> q g = (Inr (code, Some rep), g')" for q
      by (cases "q g") (auto simp: exit_guard_def try_p_def split: sum.split fault.split)
    with Inr \<open>parsed = Inr p\<close> assms [of opts] show ?thesis
      by (auto simp: client_frame_def bind_p_def split: option.split)
  qed (use Inr in \<open>auto simp: client_frame_def bind_p_def\<close>)
qed (auto simp: client_frame_def bind_p_def)

lemma client_frame_ends:
  assumes "client_frame parsed lookup session g = (Inr (code, None), g')"
    and "\<And>opts w c g1. session opts w g = (Inr (c, None), g1) \<Longrightarrow> c = 1"
  shows "code = 1 \<or> parsed = Inr (Inl code)"
proof (cases parsed)
  case (Inr p)
  show ?thesis
  proof (cases p)
    case (Inr opts)
    have "exit_guard q g = (Inr (code, None), g') \<Longrightarrow> code = 1 \<or> q g = (Inr (code, None), g')" for q
      by (cases "q g") (auto simp: exit_guard_def try_p_def split: sum.splits fault.splits)
    with Inr \<open>parsed = Inr p\<close> assms show ?thesis
      by (fastforce simp: client_frame_def bind_p_def split: option.splits)
  qed (use Inr assms(1) in \<open>auto simp: client_frame_def bind_p_def\<close>)
qed (use assms(1) in \<open>auto simp: client_frame_def bind_p_def\<close>)


section \<open>The four programs\<close>

text \<open>What the programs share: a session with its five parts, behind the command line and the registry.\<close>

locale client_program =
  fixes parsed :: "string list \<Rightarrow> (int + 'o) result" and lookup :: "'o \<Rightarrow> 'w option"
    and prepare :: "'o \<Rightarrow> 'w \<Rightarrow> ('g, 'rq \<times> 'k) prog" and build :: "'rq \<Rightarrow> bytes"
    and exchange :: "'o \<Rightarrow> bytes \<Rightarrow> bytes result"
    and check :: "'o \<Rightarrow> 'rq \<Rightarrow> bytes \<Rightarrow> bytes option result"
    and finish :: "'o \<Rightarrow> 'k \<Rightarrow> bytes \<Rightarrow> ('g, 'rep) prog"
    and session :: "'o \<Rightarrow> 'w \<Rightarrow> ('g, int \<times> 'rep option) prog"
    and main :: "string list \<Rightarrow> ('g, int \<times> 'rep option) prog"
  assumes session: "session opts w =
      run_session (prepare opts w) build (exchange opts) (check opts) (finish opts)"
    and main: "main argv = client_frame (parsed argv) lookup session"
begin

lemma prints_iff:
  "main argv g = (Inr (code, Some rep), g') \<longleftrightarrow> (\<exists>opts w. parsed argv = Inr (Inr opts) \<and>
    lookup opts = Some w \<and> code = 0 \<and>
    released (prepare opts w) build (exchange opts) (check opts) (finish opts) g rep g')"
proof -
  have "session opts w g = (Inr (code, Some rep), g') \<longleftrightarrow> code = 0 \<and>
      released (prepare opts w) build (exchange opts) (check opts) (finish opts) g rep g'" for opts w g rep g'
    unfolding session by (auto elim!: run_session_ends simp: released_def intro!: run_session_accepts)
  then show ?thesis
    unfolding main by (rule client_frame_prints)
qed

lemma silent_end:
  assumes "main argv g = (Inr (code, None), g')"
  shows "code = 1 \<or> parsed argv = Inr (Inl code)"
proof -
  have "c = 1" if "session opts w g = (Inr (c, None), g1)" for opts w c g g1
    using that unfolding session by (auto elim!: run_session_ends)
  from client_frame_ends [OF assms [unfolded main] this] show ?thesis .
qed

lemma refused_end:
  assumes "parsed argv = Inr (Inr opts)" and "lookup opts = Some w"
    and "prepare opts w g = (Inr (rq, k), g1)" and "exchange opts (build rq) = Inr resp"
    and "check opts rq resp = Inr None"
  shows "main argv g = (Inr (1, None), g1)"
  using run_session_refuses [of "prepare opts w" g rq k g1 "exchange opts" build resp "check opts" "finish opts", OF assms(3-5)]
    assms(1,2)
  by (simp add: main session client_frame_def bind_p_def exit_guard_def try_p_def)

end

interpretation tee_client: client_program
  "\<lambda>argv. parse_args (ce_stoi T) argv default_options" "\<lambda>opts. ce_registry T (co_workload opts)"
  "tee_prepare T" build_request "\<lambda>opts. ce_exchange T (co_host opts) (co_port opts)"
  "\<lambda>opts. check_response (ce_b3 T) (ce_verifier T) (co_mr_td opts)" "\<lambda>_. ckks_finish T"
  "tee_session T" "tee_client_main T"
  by unfold_locales (simp_all add: tee_session_def tee_client_main_def)

interpretation gpu_client: client_program
  "\<lambda>argv. parse_args (ce_stoi T) argv default_options" "\<lambda>opts. ce_registry T (co_workload opts)"
  "gpu_prepare T" gpu_build_request "\<lambda>opts. ce_exchange T (co_host opts) (co_port opts)"
  "\<lambda>opts. gpu_check_response (ce_b3 T) (ce_verifier T) (co_mr_td opts)" "\<lambda>_. ckks_finish T"
  "gpu_session T" "gpu_client_main T"
  by unfold_locales (simp_all add: gpu_session_def gpu_client_main_def)

interpretation bgv_client: client_program
  "\<lambda>argv. parse_args (be_stoi T) argv default_options" "\<lambda>opts. be_registry T (co_workload opts)"
  "bgv_prepare T" build_request "\<lambda>opts. be_exchange T (co_host opts) (co_port opts)"
  "\<lambda>opts. bgv_check_response (be_b3 T) (be_verifier T) (co_mr_td opts)"
  "\<lambda>opts. bgv_finish (be_client T) (be_lib T) (bgv_output_length (co_workload opts))"
  "bgv_session T" "bgv_client_main T"
  by unfold_locales (simp_all add: bgv_session_def bgv_client_main_def)

interpretation zk_client: client_program
  "\<lambda>argv. bind_r (zk_parse_args (ye_stoi T) argv zk_default_options) (\<lambda>p. Inr (map_sum id zk_override p))"
  "\<lambda>opts. ye_registry T (zo_workload opts)" "zk_prepare T" build_request
  "\<lambda>opts. ye_exchange T (zo_host opts) (zo_port opts)"
  "\<lambda>opts _. zk_check_response (ye_snark T) (ye_readers T) (ye_field T)"
  "\<lambda>opts. bgv_finish (ye_client T) (ye_lib T) (nat (zo_slots opts))" "zk_session T" "zk_client_main T"
  by unfold_locales (simp_all add: zk_session_def zk_client_main_def)

end
