(* ===== verification/Benchmarks.thy ===== *)
theory Benchmarks
  imports Client_Main
begin

text \<open>
  The benchmark runners of the four prototypes (\<open>benchmark/benchmark_runner.cpp\<close>): they run every
  workload of a table against a server and write one row for each. Clock readings and the peak memory
  are parameters; of the console output only the verdict on the attestation and the first decrypted
  values are kept, as fields of the row.
\<close>

section \<open>The loop over the table\<close>

text \<open>
  A run returns a row, or nothing where the code sets \<open>all_ok\<close> to false and continues. The exit code
  is zero when every workload gave a row.
\<close>

definition bench_step :: "(string \<Rightarrow> 'w option) \<Rightarrow> (workload_spec \<Rightarrow> 'w \<Rightarrow> ('g, 'row option) prog) \<Rightarrow>
    workload_spec \<Rightarrow> bool \<times> 'row list \<Rightarrow> ('g, bool \<times> 'row list) prog" where
  "bench_step lookup run spec acc = (case acc of (all_ok, csv) \<Rightarrow>
     (case lookup (ws_id spec) of
        None \<Rightarrow> ret (False, csv)
      | Some w \<Rightarrow> bind_p (try_p (run spec w) (\<lambda>_. ret None)) (\<lambda>r. case r of
            None \<Rightarrow> ret (False, csv)
          | Some row \<Rightarrow> ret (all_ok, csv @ [row]))))"

definition bench_loop :: "(string \<Rightarrow> 'w option) \<Rightarrow> (workload_spec \<Rightarrow> 'w \<Rightarrow> ('g, 'row option) prog) \<Rightarrow>
    workload_spec list \<Rightarrow> ('g, int \<times> 'row list) prog" where
  "bench_loop lookup run specs =
     bind_p (fold_p (bench_step lookup run) specs (True, [])) (\<lambda>(all_ok, csv).
     ret (if all_ok then 0 else 1, csv))"

text \<open>What a benchmark measures on its own side, in microseconds, and the peak of its memory.\<close>

record bench_clock =
  bk_prep :: u64
  bk_round_trip :: u64
  bk_verify :: u64
  bk_peak :: u64

section \<open>The CKKS benchmarks\<close>

definition bench_kWorkloads :: "workload_spec list" where
  "bench_kWorkloads =
     [mk_spec ''toy'' 2 32 42 123,
      mk_spec ''small'' 1 32 42 0,
      mk_spec ''medium'' 1 64 42 0,
      mk_spec ''micro_add'' 2 32 42 123,
      mk_spec ''micro_mul'' 2 32 42 123,
      mk_spec ''micro_mul_rescale'' 2 32 42 123,
      mk_spec ''micro_rotate'' 1 32 42 0,
      mk_spec ''app_matvec'' 1 256 42 0,
      mk_spec ''app_inference'' 1 128 42 0,
      mk_spec ''logistic-regression'' 21 32768 42 0]"

record bench_options =
  bo_host :: string
  bo_port :: "16 word"
  bo_mr_td :: string
  bo_output :: string

definition bench_default_options :: bench_options where
  "bench_default_options = \<lparr>bo_host = ''localhost'', bo_port = 8080, bo_mr_td = [],
     bo_output = ''benchmark_results.csv''\<rparr>"

fun bench_parse_args :: "(string \<Rightarrow> int result) \<Rightarrow> string list \<Rightarrow> bench_options \<Rightarrow>
    (int + bench_options) result" where
  "bench_parse_args stoi [] opts = Inr (Inr opts)"
| "bench_parse_args stoi [a] opts = (if a = ''--help'' \<or> a = ''-h'' then Inr (Inl 0) else Inr (Inl 1))"
| "bench_parse_args stoi (a # b # rest) opts =
     (if a = ''--server'' then
        (case find_char (CHR '':'') 0 b of
           None \<Rightarrow> Inr (Inl 1)
         | Some colon \<Rightarrow> bind_r (stoi (drop (Suc colon) b)) (\<lambda>p.
             bench_parse_args stoi rest (opts\<lparr>bo_host := take colon b, bo_port := word_of_int p\<rparr>)))
      else if a = ''--expected-mr-td'' then bench_parse_args stoi rest (opts\<lparr>bo_mr_td := b\<rparr>)
      else if a = ''--output'' then bench_parse_args stoi rest (opts\<lparr>bo_output := b\<rparr>)
      else if a = ''--help'' \<or> a = ''-h'' then Inr (Inl 0) else Inr (Inl 1))"

record bench_row =
  br_workload :: string
  br_fhe_eval_us :: u64
  br_transcript_us :: u64
  br_quote_us :: u64
  br_verify_us :: u64
  br_e2e_us :: u64
  br_peak_mem_kb :: u64
  br_transcript_bytes :: nat
  br_quote_bytes :: nat
  br_attested :: bool
  br_shown :: "real list option"

text \<open>
  On top of the environment of a client: clearing the key maps, the sum keys, the serializer of the
  public key, decryption to a given length, the file of the results, the clock.
\<close>

record ('g, 'cc, 'ct, 'pt, 'sk, 's, 'h) bench_env = "('g, 'cc, 'ct, 'pt, 'sk, 's, 'h) client_env" +
  bn_clear_keys :: "('g, unit) prog"
  bn_serialize_sum :: "('g, bool \<times> string) prog"
  bn_serialize_pk :: "'sk \<Rightarrow> ('g, string) prog"
  bn_decrypt :: "'cc \<Rightarrow> 'sk \<Rightarrow> 'ct \<Rightarrow> nat \<Rightarrow> ('g, real list) prog"
  bn_can_write :: "string \<Rightarrow> bool"
  bn_clock :: "string \<Rightarrow> bench_clock"

definition tee_bench_prepare :: "('g, 'cc, 'ct, 'pt, 'sk, 's, 'h) bench_env \<Rightarrow> workload_spec \<Rightarrow>
    ('g, 'cc, 'ct, 'sk) keyed_workload \<Rightarrow> ('g, request \<times> 'cc \<times> 'sk) prog" where
  "tee_bench_prepare T spec w =
     bind_p (bn_clear_keys T) (\<lambda>_.
     bind_p (client_setup (ce_ckks T) w) (\<lambda>(cc, kp).
     bind_p (ce_serialize_mult T) (\<lambda>mk.
     bind_p (bn_serialize_sum T) (\<lambda>sk.
     bind_p (ce_serialize_auto T) (\<lambda>ak.
     let eval_keys = bgv_serialize_all_eval_keys mk sk ak;
         nonce = random_nonce 16 (ce_urandom T) in
     bind_p (ckks_blobs T (ws_id spec) (input_vectors (ce_rng T) (Some spec)) cc kp) (\<lambda>input_ct_blobs.
     ret (\<lparr>rq_nonce = nonce, rq_keys = eval_keys, rq_cts = input_ct_blobs,
           rq_workload = ws_id spec\<rparr>, cc, kp)))))))"

definition gpu_bench_prepare :: "('g, 'cc, 'ct, 'pt, 'sk, 's, 'h) bench_env \<Rightarrow> workload_spec \<Rightarrow>
    ('g, 'cc, 'ct, 'sk) keyed_workload \<Rightarrow> ('g, gpu_request \<times> 'cc \<times> 'sk) prog" where
  "gpu_bench_prepare T spec w =
     bind_p (tee_bench_prepare T spec w) (\<lambda>(rq, cc, kp).
     bind_p (bn_serialize_pk T kp) (\<lambda>pk_serialized.
     ret (request.extend rq \<lparr>rq_public_key = to_bytes pk_serialized\<rparr>, cc, kp)))"

text \<open>
  The answer: the three fields of \<open>tee-vfhe\<close>, in both benchmarks. \<open>None\<close> where the code continues
  with the next workload; a failed verification is part of the result.
\<close>

definition bench_check :: "'h blake3 \<Rightarrow> verifier_env \<Rightarrow> string \<Rightarrow> 'x request_scheme \<Rightarrow> bytes \<Rightarrow>
    (response \<times> transcript \<times> bool) option result" where
  "bench_check b3 E mr_td rq resp =
     (if resp = [] then Inr None
      else bind_r (parse_response resp) (\<lambda>p.
        if contains_text error_mark (rs_transcript p) then Inr None
        else bind_r (from_json (ve_json E) (rs_transcript p)) (\<lambda>t.
          let ek = hash_concatenated b3 (rq_keys rq);
              ins = map (blake3_hash b3) (rq_cts rq);
              out = blake3_hash b3 (rs_output p)
          in bind_r (verify_all b3 E (rs_quote p) t (rq_nonce rq) mr_td ek ins out) (\<lambda>ok.
             Inr (Some (p, t, ok))))))"

definition bench_shown :: "('g, 'cc, 'ct, 'pt, 'sk, 's, 'h) bench_env \<Rightarrow> workload_spec \<Rightarrow> 'cc \<Rightarrow> 'sk \<Rightarrow>
    bytes \<Rightarrow> ('g, real list option) prog" where
  "bench_shown T spec cc kp output_ct_bytes =
     try_p (bind_p (deserialize_ciphertext (ce_lib T) (to_string output_ct_bytes)) (\<lambda>output_ct.
            bind_p (bn_decrypt T cc kp output_ct (nat (ws_slots spec))) (\<lambda>dec. ret (Some (take 5 dec)))))
       (\<lambda>_. ret None)"

definition bench_run :: "('g, 'cc, 'ct, 'pt, 'sk, 's, 'h) bench_env \<Rightarrow> bench_options \<Rightarrow>
    (workload_spec \<Rightarrow> 'w \<Rightarrow> ('g, 'x request_scheme \<times> 'cc \<times> 'sk) prog) \<Rightarrow> ('x request_scheme \<Rightarrow> bytes) \<Rightarrow>
    workload_spec \<Rightarrow> 'w \<Rightarrow> ('g, bench_row option) prog" where
  "bench_run T opts prepare build spec w =
     bind_p (prepare spec w) (\<lambda>(rq, cc, kp).
     bind_p (lift_p (ce_exchange T (bo_host opts) (bo_port opts) (build rq))) (\<lambda>resp.
     bind_p (lift_p (bench_check (ce_b3 T) (ce_verifier T) (bo_mr_td opts) rq resp)) (\<lambda>c. case c of
         None \<Rightarrow> ret None
       | Some (p, t, ok) \<Rightarrow>
           bind_p (bench_shown T spec cc kp (rs_output p)) (\<lambda>shown.
           let k = bn_clock T (ws_id spec) in
           ret (Some \<lparr>br_workload = ws_id spec, br_fhe_eval_us = tr_fhe_eval_us t,
             br_transcript_us = tr_transcript_us t, br_quote_us = tr_quote_us t,
             br_verify_us = bk_verify k, br_e2e_us = bk_round_trip k, br_peak_mem_kb = bk_peak k,
             br_transcript_bytes = length (rs_transcript p), br_quote_bytes = length (rs_quote p),
             br_attested = ok, br_shown = shown\<rparr>)))))"

definition bench_frame :: "('g, 'cc, 'ct, 'pt, 'sk, 's, 'h) bench_env \<Rightarrow>
    (bench_options \<Rightarrow> workload_spec \<Rightarrow> ('g, 'cc, 'ct, 'sk) keyed_workload \<Rightarrow> ('g, bench_row option) prog) \<Rightarrow>
    string list \<Rightarrow> ('g, int \<times> bench_row list) prog" where
  "bench_frame T run argv =
     bind_p (lift_p (bench_parse_args (ce_stoi T) argv bench_default_options)) (\<lambda>p. case p of
         Inl code \<Rightarrow> ret (code, [])
       | Inr opts \<Rightarrow>
           if bo_mr_td opts = [] then ret (1, [])
           else if \<not> bn_can_write T (bo_output opts) then ret (1, [])
           else bench_loop (ce_registry T) (run opts) bench_kWorkloads)"

definition tee_bench_main :: "('g, 'cc, 'ct, 'pt, 'sk, 's, 'h) bench_env \<Rightarrow> string list \<Rightarrow>
    ('g, int \<times> bench_row list) prog" where
  "tee_bench_main T = bench_frame T (\<lambda>opts. bench_run T opts (tee_bench_prepare T) build_request)"

definition gpu_bench_main :: "('g, 'cc, 'ct, 'pt, 'sk, 's, 'h) bench_env \<Rightarrow> string list \<Rightarrow>
    ('g, int \<times> bench_row list) prog" where
  "gpu_bench_main T = bench_frame T (\<lambda>opts. bench_run T opts (gpu_bench_prepare T) gpu_build_request)"

section \<open>The BGV benchmark\<close>

definition bgv_bench_default_options :: bench_options where
  "bgv_bench_default_options = \<lparr>bo_host = ''127.0.0.1'', bo_port = 8080, bo_mr_td = [], bo_output = []\<rparr>"

fun bgv_bench_parse_args :: "(string \<Rightarrow> int result) \<Rightarrow> string list \<Rightarrow> bench_options \<Rightarrow>
    (int + bench_options) result" where
  "bgv_bench_parse_args stoi [] opts = Inr (Inr opts)"
| "bgv_bench_parse_args stoi [a] opts = (if a = ''--help'' \<or> a = ''-h'' then Inr (Inl 0) else Inr (Inl 1))"
| "bgv_bench_parse_args stoi (a # b # rest) opts =
     (if a = ''--host'' then bgv_bench_parse_args stoi rest (opts\<lparr>bo_host := b\<rparr>)
      else if a = ''--port'' then
        bind_r (stoi b) (\<lambda>p. bgv_bench_parse_args stoi rest (opts\<lparr>bo_port := word_of_int p\<rparr>))
      else if a = ''--expected-mr-td'' then bgv_bench_parse_args stoi rest (opts\<lparr>bo_mr_td := b\<rparr>)
      else if a = ''--help'' \<or> a = ''-h'' then Inr (Inl 0) else Inr (Inl 1))"

text \<open>
  What the server does not account for is time of the client: its preparation, the network and the
  verification. The sums are 64-bit sums.
\<close>

definition client_us :: "bench_clock \<Rightarrow> u64 \<Rightarrow> u64" where
  "client_us k server_e2e_us =
     (let network_us = if bk_round_trip k > server_e2e_us then bk_round_trip k - server_e2e_us else 0
      in bk_prep k + network_us + bk_verify k)"

record bgv_bench_row =
  gr_workload :: string
  gr_server_e2e_us :: u64
  gr_client_us :: u64
  gr_input_loading_us :: u64
  gr_fhe_eval_us :: u64
  gr_transcript_us :: u64
  gr_quote_us :: u64
  gr_packaging_us :: u64
  gr_verify_us :: u64
  gr_peak_mem_kb :: u64
  gr_transcript_bytes :: nat
  gr_quote_bytes :: nat
  gr_attested :: bool

record ('g, 'cc, 'ct, 'pt, 'sk, 's, 'h) bgv_bench_env = "('g, 'cc, 'ct, 'pt, 'sk, 's, 'h) bgv_client_env" +
  gn_clock :: "string \<Rightarrow> bench_clock"

definition bgv_bench_prepare :: "('g, 'cc, 'ct, 'pt, 'sk, 's, 'h) bgv_bench_env \<Rightarrow> workload_spec \<Rightarrow>
    ('g, 'cc, 'ct, 'sk) keyed_workload \<Rightarrow> ('g, request \<times> 'cc \<times> 'sk) prog" where
  "bgv_bench_prepare T spec w =
     bind_p (bc_clear_keys (be_client T)) (\<lambda>_.
     bind_p (bgv_make_keys (be_client T) (wl_make_context w) (wl_gen_keys w)) (\<lambda>(cc, kp).
     bind_p (bc_serialize_mult (be_client T) cc) (\<lambda>mk.
     bind_p (bc_serialize_sum (be_client T) cc) (\<lambda>sk.
     bind_p (bc_serialize_auto (be_client T) cc) (\<lambda>ak.
     let eval_keys = zk_serialize_all_eval_keys mk sk ak;
         nonce = random_nonce 16 (be_urandom T) in
     bind_p (bgv_input_blobs (be_client T) (be_lib T) cc kp (bgv_input_vectors (be_rng T) (Some spec)))
       (\<lambda>input_ct_blobs.
     ret (\<lparr>rq_nonce = nonce, rq_keys = eval_keys, rq_cts = input_ct_blobs,
           rq_workload = ws_id spec\<rparr>, cc, kp)))))))"

definition bgv_bench_check :: "'h blake3 \<Rightarrow> verifier_env \<Rightarrow> string \<Rightarrow> request \<Rightarrow> bytes \<Rightarrow>
    (response \<times> bgv_transcript \<times> bool) option result" where
  "bgv_bench_check b3 E mr_td rq resp =
     (if resp = [] then Inr None
      else bind_r (parse_response resp) (\<lambda>p.
        if contains_text error_mark (rs_transcript p) then Inr None
        else bind_r (bgv_from_json (ve_json E) (rs_transcript p)) (\<lambda>t.
          let ek = hash_concatenated b3 (rq_keys rq);
              ins = map (blake3_hash b3) (rq_cts rq);
              out = blake3_hash b3 (rs_output p)
          in bind_r (bgv_verify_all b3 E (rs_quote p) t (rq_nonce rq) mr_td ek ins out) (\<lambda>ok.
             Inr (Some (p, t, ok))))))"

definition bgv_bench_metrics :: "json_lib \<Rightarrow> string \<Rightarrow> (u64 \<times> u64 \<times> u64) result" where
  "bgv_bench_metrics J transcript_json =
     bind_r (js_parse J transcript_json) (\<lambda>tj.
     bind_r (js_value_u64 J tj ''input_loading_us'' 0) (\<lambda>input_loading_us.
     bind_r (js_value_u64 J tj ''packaging_us'' 0) (\<lambda>packaging_us.
     bind_r (js_value_u64 J tj ''peak_mem_kb'' 0) (\<lambda>json_peak_mem_kb.
     Inr (input_loading_us, packaging_us, json_peak_mem_kb)))))"

definition bgv_bench_run :: "('g, 'cc, 'ct, 'pt, 'sk, 's, 'h) bgv_bench_env \<Rightarrow> bench_options \<Rightarrow>
    workload_spec \<Rightarrow> ('g, 'cc, 'ct, 'sk) keyed_workload \<Rightarrow> ('g, bgv_bench_row option) prog" where
  "bgv_bench_run T opts spec w =
     bind_p (bgv_bench_prepare T spec w) (\<lambda>(rq, cc, kp).
     bind_p (lift_p (be_exchange T (bo_host opts) (bo_port opts) (build_request rq))) (\<lambda>resp.
     bind_p (lift_p (bgv_bench_check (be_b3 T) (be_verifier T) (bo_mr_td opts) rq resp)) (\<lambda>c. case c of
         None \<Rightarrow> ret None
       | Some (p, t, ok) \<Rightarrow>
           bind_p (lift_p (bgv_bench_metrics (ve_json (be_verifier T)) (rs_transcript p))) (\<lambda>(il, pk, peak).
           let k = gn_clock T (ws_id spec);
               server_e2e_us = il + tr_fhe_eval_us t + tr_transcript_us t + tr_quote_us t + pk in
           ret (Some \<lparr>gr_workload = ws_id spec, gr_server_e2e_us = server_e2e_us,
             gr_client_us = client_us k server_e2e_us, gr_input_loading_us = il,
             gr_fhe_eval_us = tr_fhe_eval_us t, gr_transcript_us = tr_transcript_us t,
             gr_quote_us = tr_quote_us t, gr_packaging_us = pk, gr_verify_us = bk_verify k,
             gr_peak_mem_kb = peak, gr_transcript_bytes = length (rs_transcript p),
             gr_quote_bytes = length (rs_quote p), gr_attested = ok\<rparr>)))))"

definition bgv_bench_main :: "('g, 'cc, 'ct, 'pt, 'sk, 's, 'h) bgv_bench_env \<Rightarrow> string list \<Rightarrow>
    ('g, int \<times> bgv_bench_row list) prog" where
  "bgv_bench_main T argv =
     bind_p (lift_p (bgv_bench_parse_args (be_stoi T) argv bgv_bench_default_options)) (\<lambda>p. case p of
         Inl code \<Rightarrow> ret (code, [])
       | Inr opts \<Rightarrow> bench_loop (be_registry T) (bgv_bench_run T opts) bgv_kWorkloads)"

section \<open>The benchmark of the ZK prototype\<close>

fun zk_bench_parse_args :: "(string \<Rightarrow> int result) \<Rightarrow> string list \<Rightarrow> bench_options \<Rightarrow>
    (int + bench_options) result" where
  "zk_bench_parse_args stoi [] opts = Inr (Inr opts)"
| "zk_bench_parse_args stoi [a] opts = (if a = ''--help'' \<or> a = ''-h'' then Inr (Inl 0) else Inr (Inl 1))"
| "zk_bench_parse_args stoi (a # b # rest) opts =
     (if a = ''--host'' then zk_bench_parse_args stoi rest (opts\<lparr>bo_host := b\<rparr>)
      else if a = ''--port'' then
        bind_r (stoi b) (\<lambda>p. zk_bench_parse_args stoi rest (opts\<lparr>bo_port := word_of_int p\<rparr>))
      else if a = ''--help'' \<or> a = ''-h'' then Inr (Inl 0) else Inr (Inl 1))"

record zk_bench_row =
  zr_workload :: string
  zr_server_e2e_us :: u64
  zr_client_us :: u64
  zr_timings :: "u64 list"
  zr_verify_us :: u64
  zr_proof_size :: nat
  zr_proof_ok :: bool

text \<open>
  The keys are read one after the other; when one throws, the variables that it and the later ones
  would have set stay zero. \<open>yn_vk\<close> and \<open>yn_proof\<close> are \<open>deserialize_vk\<close> and \<open>deserialize_proof\<close>,
  which return what the stream left in the object.
\<close>

fun read_timings :: "json_lib \<Rightarrow> json \<Rightarrow> string list \<Rightarrow> u64 list result" where
  "read_timings J tj [] = Inr []"
| "read_timings J tj (k # ks) = (case js_value_u64 J tj k 0 of
      Inl (Throw e) \<Rightarrow> Inr (replicate (Suc (length ks)) 0)
    | Inl (Ub u) \<Rightarrow> Inl (Ub u)
    | Inr v \<Rightarrow> bind_r (read_timings J tj ks) (\<lambda>vs. Inr (v # vs)))"

definition zk_bench_timings :: "json_lib \<Rightarrow> string \<Rightarrow> u64 list result" where
  "zk_bench_timings J tr_json = catch_r
     (bind_r (js_parse J tr_json) (\<lambda>tj. read_timings J tj
        [''input_loading_us'', ''fhe_eval_us'', ''witness_us'', ''proof_us'', ''packaging_us'', ''peak_mem_kb'']))
     (\<lambda>_. Inr [0, 0, 0, 0, 0, 0])"

record ('g, 'cc, 'ct, 'pt, 'sk, 's, 'ps, 'r, 'cs, 'pk, 'vk, 'f, 'w, 'p) zk_bench_env =
  "('g, 'cc, 'ct, 'pt, 'sk, 's, 'ps, 'r, 'cs, 'pk, 'vk, 'f, 'w, 'p) zk_client_env" +
  yn_vk :: "bytes \<Rightarrow> 'vk result"
  yn_proof :: "bytes \<Rightarrow> 'p result"
  yn_json :: json_lib
  yn_clock :: "string \<Rightarrow> bench_clock"

definition zk_bench_verdict :: "('g, 'cc, 'ct, 'pt, 'sk, 's, 'ps, 'r, 'cs, 'pk, 'vk, 'f, 'w, 'p) zk_bench_env \<Rightarrow>
    zk_response \<Rightarrow> bool result" where
  "zk_bench_verdict T p =
     (if zs_proof p \<noteq> [] \<and> zs_vk p \<noteq> [] \<and> zs_public_inputs p \<noteq> [] then
        catch_r (bind_r (yn_vk T (zs_vk p)) (\<lambda>vk.
                 bind_r (deserialize_public_inputs (ye_field T) (zs_public_inputs p)) (\<lambda>pi.
                 bind_r (yn_proof T (zs_proof p)) (\<lambda>pf. Inr (verify_proof (ye_snark T) vk pi pf)))))
          (\<lambda>_. Inr False)
      else Inr True)"

definition zk_bench_prepare :: "('g, 'cc, 'ct, 'pt, 'sk, 's, 'ps, 'r, 'cs, 'pk, 'vk, 'f, 'w, 'p) zk_bench_env \<Rightarrow>
    workload_spec \<Rightarrow> ('g, 'cc, 'ct, 'ps, 'sk) zk_keyed_workload \<Rightarrow> ('g, request) prog" where
  "zk_bench_prepare T spec w =
     bind_p (bc_clear_keys (ye_client T)) (\<lambda>_.
     bind_p (bgv_make_keys (ye_client T) (wl_make_context w) (wl_zk_gen_keys w)) (\<lambda>(cc, kp).
     bind_p (bc_serialize_mult (ye_client T) cc) (\<lambda>mk.
     bind_p (bc_serialize_sum (ye_client T) cc) (\<lambda>sk.
     bind_p (bc_serialize_auto (ye_client T) cc) (\<lambda>ak.
     let eval_keys = zk_serialize_all_eval_keys mk sk ak;
         nonce = random_nonce 16 (ye_urandom T) in
     bind_p (bgv_input_blobs (ye_client T) (ye_lib T) cc kp (bgv_input_vectors (ye_rng T) (Some spec)))
       (\<lambda>input_ct_blobs.
     ret \<lparr>rq_nonce = nonce, rq_keys = eval_keys, rq_cts = input_ct_blobs, rq_workload = ws_id spec\<rparr>))))))"

definition zk_bench_run :: "('g, 'cc, 'ct, 'pt, 'sk, 's, 'ps, 'r, 'cs, 'pk, 'vk, 'f, 'w, 'p) zk_bench_env \<Rightarrow>
    bench_options \<Rightarrow> workload_spec \<Rightarrow> ('g, 'cc, 'ct, 'ps, 'sk) zk_keyed_workload \<Rightarrow>
    ('g, zk_bench_row option) prog" where
  "zk_bench_run T opts spec w =
     bind_p (zk_bench_prepare T spec w) (\<lambda>rq.
     bind_p (lift_p (ye_exchange T (bo_host opts) (bo_port opts) (build_request rq))) (\<lambda>resp.
     if resp = [] then ret None
     else
       bind_p (lift_p (zk_parse_response resp)) (\<lambda>p.
       if contains_text error_mark (zs_transcript p) then ret None
       else
         bind_p (lift_p (zk_bench_timings (yn_json T) (zs_transcript p))) (\<lambda>ts.
         bind_p (lift_p (zk_bench_verdict T p)) (\<lambda>proof_ok.
         let k = yn_clock T (ws_id spec);
             server_e2e_us = sum_list (take 5 ts) in
         ret (Some \<lparr>zr_workload = ws_id spec, zr_server_e2e_us = server_e2e_us,
           zr_client_us = client_us k server_e2e_us, zr_timings = ts, zr_verify_us = bk_verify k,
           zr_proof_size = length (zs_proof p), zr_proof_ok = proof_ok\<rparr>))))))"

definition zk_bench_main :: "('g, 'cc, 'ct, 'pt, 'sk, 's, 'ps, 'r, 'cs, 'pk, 'vk, 'f, 'w, 'p) zk_bench_env \<Rightarrow>
    string list \<Rightarrow> ('g, int \<times> zk_bench_row list) prog" where
  "zk_bench_main T argv =
     bind_p (lift_p (zk_bench_parse_args (ye_stoi T) argv bgv_bench_default_options)) (\<lambda>p. case p of
         Inl code \<Rightarrow> ret (code, [])
       | Inr opts \<Rightarrow> bench_loop (ye_registry T) (zk_bench_run T opts) bgv_kWorkloads)"

section \<open>Runs that agree but for a verdict\<close>

text \<open>
  \<open>follows R p q\<close>: where \<open>p\<close> returns, \<open>q\<close> returns from and in the same state with a related result, and
  where \<open>p\<close> throws, \<open>q\<close> throws; nothing is said where \<open>p\<close> is undefined.
\<close>

definition follows :: "('a \<Rightarrow> 'b \<Rightarrow> bool) \<Rightarrow> ('g, 'a) prog \<Rightarrow> ('g, 'b) prog \<Rightarrow> bool" where
  "follows R p q \<longleftrightarrow> (\<forall>g. case p g of
      (Inr x, g') \<Rightarrow> (\<exists>y. q g = (Inr y, g') \<and> R x y)
    | (Inl (Throw e), g') \<Rightarrow> q g = (Inl (Throw e), g')
    | (Inl (Ub u), g') \<Rightarrow> True)"

lemma follows_refl: "(\<And>x. R x x) \<Longrightarrow> follows R p p"
  by (auto simp: follows_def split: prod.split sum.split fault.split)

lemma follows_ret: "R x y \<Longrightarrow> follows R (ret x) (ret y)"
  by (simp add: follows_def)

lemma follows_bind:
  assumes "follows R p q" and "\<And>x y. R x y \<Longrightarrow> follows S (f x) (h y)"
  shows "follows S (bind_p p f) (bind_p q h)"
  unfolding follows_def
proof
  fix g
  from assms(1) have "case p g of
      (Inr x, g') \<Rightarrow> (\<exists>y. q g = (Inr y, g') \<and> R x y)
    | (Inl (Throw e), g') \<Rightarrow> q g = (Inl (Throw e), g')
    | (Inl (Ub u), g') \<Rightarrow> True" by (simp add: follows_def)
  then show "case bind_p p f g of
      (Inr x, g') \<Rightarrow> (\<exists>y. bind_p q h g = (Inr y, g') \<and> S x y)
    | (Inl (Throw e), g') \<Rightarrow> bind_p q h g = (Inl (Throw e), g')
    | (Inl (Ub u), g') \<Rightarrow> True"
    using assms(2) unfolding follows_def bind_p_def
    by (fastforce split: prod.splits sum.splits fault.splits)
qed

lemma follows_same:
  assumes "\<And>x. follows S (f x) (h x)"
  shows "follows S (bind_p p f) (bind_p p h)"
  by (rule follows_bind [where R = "(=)"]) (simp_all add: follows_refl assms)

lemma follows_prod:
  "(\<And>a b. follows R (f a b) (h a b)) \<Longrightarrow>
    follows R (case x of (a, b) \<Rightarrow> f a b) (case x of (a, b) \<Rightarrow> h a b)"
  by (cases x) simp

lemma follows_if:
  "follows R p p' \<Longrightarrow> follows R q q' \<Longrightarrow> follows R (if b then p else q) (if b then p' else q')"
  by simp

lemma follows_try:
  assumes "follows R p q" and "\<And>e. follows R (h e) (h' e)"
  shows "follows R (try_p p h) (try_p q h')"
  unfolding follows_def
proof
  fix g
  from assms(1) have "case p g of
      (Inr x, g') \<Rightarrow> (\<exists>y. q g = (Inr y, g') \<and> R x y)
    | (Inl (Throw e), g') \<Rightarrow> q g = (Inl (Throw e), g')
    | (Inl (Ub u), g') \<Rightarrow> True" by (simp add: follows_def)
  then show "case try_p p h g of
      (Inr x, g') \<Rightarrow> (\<exists>y. try_p q h' g = (Inr y, g') \<and> R x y)
    | (Inl (Throw e), g') \<Rightarrow> try_p q h' g = (Inl (Throw e), g')
    | (Inl (Ub u), g') \<Rightarrow> True"
    using assms(2) unfolding follows_def try_p_def
    by (fastforce split: prod.splits sum.splits fault.splits)
qed

lemma follows_fold:
  assumes "\<And>x s t. R s t \<Longrightarrow> follows R (f x s) (h x t)" and "R s t"
  shows "follows R (fold_p f xs s) (fold_p h xs t)"
  using assms(2)
  by (induction xs arbitrary: s t) (auto intro: follows_ret follows_bind assms(1))

text \<open>Two runs over the table with related rows have the same exit code.\<close>

lemma follows_bench_loop:
  assumes "\<And>spec w. follows (rel_option R) (run spec w) (run' spec w)"
  shows "follows (rel_prod (=) (list_all2 R)) (bench_loop lookup run specs) (bench_loop lookup run' specs)"
proof -
  have step: "follows (rel_prod (=) (list_all2 R)) (bench_step lookup run spec s) (bench_step lookup run' spec t)"
    if "rel_prod (=) (list_all2 R) s t" for spec s t
  proof (cases "lookup (ws_id spec)")
    case None
    with that show ?thesis by (auto simp: bench_step_def intro!: follows_ret split: prod.split)
  next
    case (Some w)
    have row: "follows (rel_option R) (try_p (run spec w) (\<lambda>_. ret None)) (try_p (run' spec w) (\<lambda>_. ret None))"
      by (intro follows_try assms follows_ret) simp
    from that show ?thesis
      unfolding bench_step_def Some option.case
      by (cases s; cases t; simp only: prod.case)
        (rule follows_bind [OF row], auto elim!: option.rel_cases intro!: follows_ret
          simp: list_all2_appendI)
  qed
  show ?thesis
    unfolding bench_loop_def
    by (rule follows_bind [OF follows_fold [where R = "rel_prod (=) (list_all2 R)", OF step]])
      (auto intro!: follows_ret)
qed

lemma follows_lift:
  "follows R (lift_p r) (lift_p r') \<longleftrightarrow> (case r of
      Inr x \<Rightarrow> (\<exists>y. r' = Inr y \<and> R x y) | Inl (Throw e) \<Rightarrow> r' = Inl (Throw e) | Inl (Ub u) \<Rightarrow> True)"
  by (auto simp: follows_def split: sum.splits fault.splits)

section \<open>The verdict of the verification\<close>

text \<open>A verifier whose quote library rejects every quote, and a proof system that rejects every proof.\<close>

definition refusing :: "verifier_env \<Rightarrow> verifier_env" where
  "refusing E = E\<lparr>ve_dcap := (ve_dcap E)\<lparr>dc_verify := \<lambda>_. Inl 1\<rparr>\<rparr>"

lemma refusing_json [simp]: "ve_json (refusing E) = ve_json E"
  by (simp add: refusing_def)

lemma verify_tdx_quote_refusing: "verify_tdx_quote (refusing E) q mr rd = Inr False"
  by (simp add: verify_tdx_quote_def quote_measurement_def refusing_def Let_def)

lemma verify_all_refusing:
  "verify_all b3 (refusing E) q t n mr ek ins out = Inr False"
  "bgv_verify_all b3 (refusing E) q t' n mr ek ins out = Inr False"
  by (simp_all add: verify_all_def bgv_verify_all_def verify_tdx_quote_refusing Let_def)

lemma catch_r_no_throw: "catch_r r (\<lambda>_. Inr x) \<noteq> Inl (Throw e)"
  by (cases r rule: sum.exhaust; cases "projl r") (auto simp: catch_r_def split: sum.split fault.split)

lemma verify_all_no_throw:
  "verify_all b3 E q t n mr ek ins out \<noteq> Inl (Throw e)"
  "bgv_verify_all b3 E q t' n mr ek ins out \<noteq> Inl (Throw e)"
  by (simp_all add: verify_all_def bgv_verify_all_def verify_tdx_quote_def catch_r_no_throw Let_def)

lemma follows_verdict:
  assumes "\<And>e. r \<noteq> Inl (Throw e)" and "\<And>ok. R (f ok) y"
  shows "follows R (lift_p (bind_r r (\<lambda>ok. Inr (f ok)))) (lift_p (Inr y))"
  using assms by (cases r) (auto simp: follows_lift split: fault.split)

text \<open>Checks that agree but for the verdict.\<close>

definition but_verdict :: "'p \<times> 't \<times> bool \<Rightarrow> 'p \<times> 't \<times> bool \<Rightarrow> bool" where
  "but_verdict x y \<longleftrightarrow> y = (fst x, fst (snd x), False)"

lemma bench_check_refusing:
  "follows (rel_option but_verdict) (lift_p (bench_check b3 E mr rq resp))
    (lift_p (bench_check b3 (refusing E) mr rq resp))"
proof (cases "parse_response resp")
  case (Inr p)
  show ?thesis
  proof (cases "from_json (ve_json E) (rs_transcript p)")
    case (Inr t)
    with \<open>parse_response resp = Inr p\<close> show ?thesis
      by (simp add: bench_check_def Let_def verify_all_refusing follows_lift)
        (auto simp: but_verdict_def verify_all_no_throw verify_all_refusing bind_r_eq_Inl split: sum.split fault.split)
  qed (use Inr in \<open>auto simp: bench_check_def follows_lift split: fault.split\<close>)
qed (auto simp: bench_check_def follows_lift split: fault.split)

lemma bgv_bench_check_refusing:
  "follows (rel_option but_verdict) (lift_p (bgv_bench_check b3 E mr rq resp))
    (lift_p (bgv_bench_check b3 (refusing E) mr rq resp))"
proof (cases "parse_response resp")
  case (Inr p)
  show ?thesis
  proof (cases "bgv_from_json (ve_json E) (rs_transcript p)")
    case (Inr t)
    with \<open>parse_response resp = Inr p\<close> show ?thesis
      by (simp add: bgv_bench_check_def Let_def verify_all_refusing follows_lift)
        (auto simp: but_verdict_def verify_all_no_throw verify_all_refusing bind_r_eq_Inl split: sum.split fault.split)
  qed (use Inr in \<open>auto simp: bgv_bench_check_def follows_lift split: fault.split\<close>)
qed (auto simp: bgv_bench_check_def follows_lift split: fault.split)

lemma follows_judged:
  assumes "rel_option but_verdict c c'"
    and "\<And>p t ok. follows (rel_option R) (f p t ok) (f p t False)"
  shows "follows (rel_option R) (case c of None \<Rightarrow> ret None | Some (p, t, ok) \<Rightarrow> f p t ok)
    (case c' of None \<Rightarrow> ret None | Some (p, t, ok) \<Rightarrow> f p t ok)"
  using assms(1) by (cases rule: option.rel_cases) (auto simp: but_verdict_def intro: follows_ret assms(2))

lemma bench_run_refusing:
  assumes "T' = T\<lparr>ce_verifier := refusing (ce_verifier T)\<rparr>"
  shows "follows (rel_option (\<lambda>r r'. r' = r\<lparr>br_attested := False\<rparr>))
    (bench_run T opts (tee_bench_prepare T) build_request spec w)
    (bench_run T' opts (tee_bench_prepare T') build_request spec w)"
proof -
  have blobs: "ckks_blobs T' = ckks_blobs T"
    by (intro ext) (simp add: assms ckks_blobs_def cong: if_cong)
  have parts: "ce_exchange T' = ce_exchange T" "ce_b3 T' = ce_b3 T" "bn_clock T' = bn_clock T"
    "ce_verifier T' = refusing (ce_verifier T)"
    by (simp_all add: assms)
  have runs: "tee_bench_prepare T' = tee_bench_prepare T" "bench_shown T' = bench_shown T"
    by (intro ext, simp add: tee_bench_prepare_def bench_shown_def blobs, simp add: assms)+
  show ?thesis
    unfolding bench_run_def parts runs
    by (rule follows_same, (rule follows_prod)+, rule follows_same,
        rule follows_bind [OF bench_check_refusing], erule follows_judged, rule follows_same)
      (unfold Let_def, rule follows_ret, simp)
qed

lemma bgv_bench_run_refusing:
  assumes "T' = T\<lparr>be_verifier := refusing (be_verifier T)\<rparr>"
  shows "follows (rel_option (\<lambda>r r'. r' = r\<lparr>gr_attested := False\<rparr>))
    (bgv_bench_run T opts spec w) (bgv_bench_run T' opts spec w)"
proof -
  have parts: "be_exchange T' = be_exchange T" "be_b3 T' = be_b3 T" "gn_clock T' = gn_clock T"
    "be_verifier T' = refusing (be_verifier T)"
    by (simp_all add: assms)
  have prepare: "bgv_bench_prepare T' = bgv_bench_prepare T"
    by (intro ext) (simp add: bgv_bench_prepare_def assms)
  show ?thesis
    unfolding bgv_bench_run_def parts prepare refusing_json
    by (rule follows_same, (rule follows_prod)+, rule follows_same,
        rule follows_bind [OF bgv_bench_check_refusing], erule follows_judged, rule follows_same,
        (rule follows_prod)+)
      (unfold Let_def, rule follows_ret, simp)
qed

lemma zk_bench_run_refusing:
  assumes "T' = T\<lparr>ye_snark := (ye_snark T)\<lparr>sn_verify := \<lambda>_ _ _. False\<rparr>\<rparr>"
  shows "follows (rel_option (\<lambda>r r'. r' = r\<lparr>zr_proof_ok := zr_proof_ok r'\<rparr>))
    (zk_bench_run T opts spec w) (zk_bench_run T' opts spec w)"
proof -
  have parts: "ye_exchange T' = ye_exchange T" "yn_clock T' = yn_clock T" "yn_json T' = yn_json T"
    by (simp_all add: assms)
  have prepare: "zk_bench_prepare T' = zk_bench_prepare T"
    by (intro ext) (simp add: zk_bench_prepare_def assms)
  have verdict: "follows (\<lambda>_ _. True) (lift_p (zk_bench_verdict T p)) (lift_p (zk_bench_verdict T' p))" for p
  proof -
    have "r = Inl (Ub u) \<Longrightarrow> catch_r (bind_r r f) h = Inl (Ub u)" for r u and f :: "'z \<Rightarrow> bool result" and h
      by simp
    then show ?thesis
      by (simp add: follows_lift zk_bench_verdict_def assms catch_r_no_throw split: sum.split fault.split)
        (auto simp: catch_r_def bind_r_eq_Inl split: sum.splits fault.splits)
  qed
  show ?thesis
    unfolding zk_bench_run_def parts prepare
    by (rule follows_same, rule follows_same, rule follows_if, rule follows_refl, simp add: option.rel_refl,
        rule follows_same, rule follows_if, rule follows_refl, simp add: option.rel_refl, rule follows_same,
        rule follows_bind [OF verdict])
      (unfold Let_def, rule follows_ret, simp)
qed

text \<open>So the programs end in the same way; only the verdicts in the rows differ.\<close>

lemma bench_frame_refusing:
  assumes "\<And>opts spec w. follows (rel_option R) (run opts spec w) (run' opts spec w)"
    and "ce_stoi T' = ce_stoi T" and "bn_can_write T' = bn_can_write T" and "ce_registry T' = ce_registry T"
  shows "follows (rel_prod (=) (list_all2 R)) (bench_frame T run argv) (bench_frame T' run' argv)"
  unfolding bench_frame_def assms(2-4)
  by (rule follows_same)
    (auto split: sum.split intro!: follows_ret follows_bench_loop assms(1) simp del: prog_run)

lemma bgv_bench_main_refusing:
  "follows (rel_prod (=) (list_all2 (\<lambda>r r'. r' = r\<lparr>gr_attested := False\<rparr>))) (bgv_bench_main T argv)
    (bgv_bench_main (T\<lparr>be_verifier := refusing (be_verifier T)\<rparr>) argv)"
  unfolding bgv_bench_main_def
  by (simp, rule follows_same)
    (auto split: sum.split intro!: follows_ret follows_bench_loop bgv_bench_run_refusing simp del: prog_run)

lemma zk_bench_main_refusing:
  "follows (rel_prod (=) (list_all2 (\<lambda>r r'. r' = r\<lparr>zr_proof_ok := zr_proof_ok r'\<rparr>))) (zk_bench_main T argv)
    (zk_bench_main (T\<lparr>ye_snark := (ye_snark T)\<lparr>sn_verify := \<lambda>_ _ _. False\<rparr>\<rparr>) argv)"
  unfolding zk_bench_main_def
  by (simp, rule follows_same)
    (auto split: sum.split intro!: follows_ret follows_bench_loop zk_bench_run_refusing simp del: prog_run)

section \<open>The GPU benchmark and its server\<close>

text \<open>
  What the benchmark receives when the other end is the server of \<open>gpucc-vfhe\<close>; measurements, SDK
  and state may differ from one request to the next.
\<close>

definition gpu_answers :: "'h platform \<Rightarrow> (bytes \<Rightarrow> durations) \<Rightarrow> (bytes \<Rightarrow> nvat) \<Rightarrow>
    ('g, 'cc, 'ct, 'pk) gpu_openfhe \<Rightarrow> ('g, 'cc, 'ct, 'pk) gpu_workload registry \<Rightarrow>
    (bytes \<Rightarrow> ('g, 'pk) gpu_globals) \<Rightarrow> string \<Rightarrow> 16 word \<Rightarrow> bytes \<Rightarrow> bytes result" where
  "gpu_answers P D nv L reg s host port req =
     (case fst (gpu_handle_client P (D req) (nv req) L reg (Inr req) (s req)) of
        Inr (Some b) \<Rightarrow> if length b < 2 ^ 64 then Inr b else throw (Runtime_error ''message too long'')
      | _ \<Rightarrow> throw (Runtime_error ''recv_message: peer closed''))"

lemma gpu_answer_shape:
  assumes "gpu_handle_client P D nv L reg received s = (Inr (Some b), s')"
  shows "is_error_response b \<or> (\<exists>h. b = gpu_build_response h)"
  using assms unfolding gpu_handle_client_def
proof (cases rule: try_then_cases)
  case (go req s1)
  from go(2) show ?thesis
  proof (cases rule: reply_cases)
    case inner: (go rq s2)
    from gpu_evaluate_request_answer [OF inner(2)] show ?thesis
      by (auto simp: gpu_evaluated_response_eq)
  qed auto
qed auto

text \<open>Three fields are read of a response that has four.\<close>

lemma gpu_response_trailing:
  assumes "length (gpu_build_response h) < 2 ^ 64"
  shows "parse_response (gpu_build_response h) = throw (Runtime_error ''trailing bytes in response'')"
proof -
  let ?r = "reader_new ''response truncated'' (gpu_build_response h)"
  have "Messages.at ?r (blob_bytes (rs_output h) @ string_bytes (rs_transcript h) @ blob_bytes (rs_gpu_evidence h) @
      blob_bytes (rs_quote h))"
    using at_new [OF assms] by (simp only: build_bytes)
  then obtain r1 where 1: "read_blob ?r = Inr (rs_output h, r1)"
    and a1: "Messages.at r1 (string_bytes (rs_transcript h) @ blob_bytes (rs_gpu_evidence h) @ blob_bytes (rs_quote h))"
    by (rule at_blob)
  from a1 obtain r2 where 2: "read_string r1 = Inr (rs_transcript h, r2)"
    and a2: "Messages.at r2 (blob_bytes (rs_gpu_evidence h) @ blob_bytes (rs_quote h))" by (rule at_string)
  from a2 obtain r3 where 3: "read_blob r2 = Inr (rs_gpu_evidence h, r3)" and a3: "Messages.at r3 (blob_bytes (rs_quote h))"
    by (rule at_blob)
  have "blob_bytes (rs_quote h) \<noteq> []"
    by (simp add: blob_bytes_def flip: length_greater_0_conv)
  with at_end [OF a3] show ?thesis
    by (simp add: parse_response_def 1 2 3)
qed

lemma gpu_bench_check_rejects:
  assumes "gpu_answers P D nv L reg s host port req = Inr resp"
    and "bench_check b3 E mr rq resp = Inr c"
  shows "c = None"
proof -
  obtain s' where h: "gpu_handle_client P (D req) (nv req) L reg (Inr req) (s req) = (Inr (Some resp), s')"
    and len: "length resp < 2 ^ 64"
    using assms(1) by (cases "gpu_handle_client P (D req) (nv req) L reg (Inr req) (s req)")
      (auto simp: gpu_answers_def split: sum.splits option.splits if_splits)
  from gpu_answer_shape [OF h] show ?thesis
  proof
    assume "is_error_response resp"
    then obtain msg where e: "resp = build_error_response msg"
      by (auto simp: is_error_response_def)
    from len have "parse_response resp = Inr \<lparr>rs_output = [], rs_transcript = error_json msg, rs_quote = []\<rparr>"
      unfolding e error_response_is_response by (rule tee_response.parse_build [OF TrueI])
    with assms(2) show ?thesis
      by (auto simp: bench_check_def error_json_marked split: if_splits)
  next
    assume "\<exists>h. resp = gpu_build_response h"
    with gpu_response_trailing len assms(2) show ?thesis
      by (auto simp: bench_check_def split: if_splits)
  qed
qed

text \<open>A loop none of whose runs gives a row ends with exit code 1.\<close>

lemma bench_loop_rowless:
  assumes "\<And>spec w g r g'. run spec w g = (Inr r, g') \<Longrightarrow> r = None"
    and "bench_loop lookup run specs g = (Inr (code, rows), g')" and "specs \<noteq> []"
  shows "code = 1 \<and> rows = []"
proof -
  have step: "a' = (False, csv)" if "bench_step lookup run spec (ok, csv) g = (Inr a', g')" for spec ok csv g a' g'
    using that assms(1) by (fastforce simp: bench_step_def try_p_def elim!: bind_p_cases
        split: option.splits prod.splits sum.splits fault.splits)
  have "a' = (False, csv)"
    if "fold_p (bench_step lookup run) specs (ok, csv) g = (Inr a', g')" "specs \<noteq> []" for ok csv g a' g' specs
    using that
  proof (induction specs arbitrary: ok g)
    case (Cons spec specs)
    then obtain a1 g1 where a1: "bench_step lookup run spec (ok, csv) g = (Inr a1, g1)"
      and rest: "fold_p (bench_step lookup run) specs a1 g1 = (Inr a', g')"
      by (auto elim!: bind_p_cases)
    from step [OF a1] rest Cons.IH show ?case by (cases specs) auto
  qed simp
  note rowless = this [OF _ assms(3)]
  from assms(2) show ?thesis
    unfolding bench_loop_def by (rule bind_p_cases) (auto dest: rowless)
qed

end
