(* ===== verification/Session_Training.thy ===== *)
theory Session_Training
  imports Client_Main Workloads_Tee
begin

text \<open>
  The program of the client and the handler of the server together: \<open>client --workload
  logistic-regression\<close> against an honest server of \<open>tee-vfhe\<close>, each with its own state of the library.
\<close>

section \<open>What crosses the network\<close>

text \<open>
  In contexts with the parameters \<open>ps\<close>, a ciphertext that carries one of the vectors \<open>vs\<close> within the
  budget of levels is written, and read back on either side.
\<close>

definition ships :: "('g, 'ct) openfhe \<Rightarrow> ('g, 'cc, 'ct, 'pt) view \<Rightarrow> cc_params \<Rightarrow> real list set \<Rightarrow> bool" where
  "ships L V ps vs \<longleftrightarrow> (\<forall>c v l cc. v \<in> vs \<longrightarrow> l \<le> cp_depth ps \<longrightarrow> vs_params V cc = ps \<longrightarrow> carries V cc c v l \<longrightarrow>
     (\<exists>s. serialize_ciphertext L c = Inr s \<and> (\<forall>cc' g. vs_params V cc' = ps \<longrightarrow>
        yields (deserialize_ciphertext L s) g (\<lambda>c'. carries V cc' c' v l))))"

lemma shipsD:
  "ships L V ps vs \<Longrightarrow> v \<in> vs \<Longrightarrow> l \<le> cp_depth ps \<Longrightarrow> vs_params V cc = ps \<Longrightarrow> carries V cc c v l \<Longrightarrow>
    \<exists>s. serialize_ciphertext L c = Inr s \<and> (\<forall>cc' g. vs_params V cc' = ps \<longrightarrow>
      yields (deserialize_ciphertext L s) g (\<lambda>c'. carries V cc' c' v l))"
  unfolding ships_def by blast

text \<open>
  Keys: the text of the relinearization keys is read by the first deserializer; the text of the
  rotation keys makes the first two throw, and is read by the third.
\<close>

definition declines :: "('g, 'cc, 'ct, 'pt) view \<Rightarrow> ('g, bool) prog \<Rightarrow> bool" where
  "declines V p \<longleftrightarrow> (\<forall>g. \<exists>e g'. p g = (Inl (Throw e), g') \<and> keeps V g g')"

definition mult_text :: "('g, 'ct) openfhe \<Rightarrow> ('g, 'cc, 'ct, 'pt) view \<Rightarrow> string \<Rightarrow> bool" where
  "mult_text L V s \<longleftrightarrow> s \<noteq> [] \<and> (\<forall>g. runs (fl_deserialize_mult L s) g (\<lambda>_ g'. keeps V g g' \<and> vs_mult V g'))"

definition rotation_text :: "('g, 'ct) openfhe \<Rightarrow> ('g, 'cc, 'ct, 'pt) view \<Rightarrow> int set \<Rightarrow> string \<Rightarrow> bool" where
  "rotation_text L V K s \<longleftrightarrow> s \<noteq> [] \<and> declines V (fl_deserialize_mult L s) \<and> declines V (fl_deserialize_sum L s) \<and>
     (\<forall>g. runs (fl_deserialize_auto L s) g (\<lambda>_ g'. keeps V g g' \<and> K \<subseteq> vs_rotations V g'))"

definition keys_ship :: "('g, 'cc, 'ct, 'pt, 'sk, 's, 'h, 'x) client_env_scheme \<Rightarrow> ('g, 'cc, 'ct, 'pt) view \<Rightarrow>
    int set \<Rightarrow> bool" where
  "keys_ship T V K \<longleftrightarrow> (\<forall>g. vs_mult V g \<longrightarrow> K \<subseteq> vs_rotations V g \<longrightarrow>
     yields (ce_serialize_mult T) g (\<lambda>(ok, s). ok \<and> mult_text (ce_lib T) V s) \<and>
     yields (ce_serialize_auto T) g (\<lambda>(ok, s). ok \<and> rotation_text (ce_lib T) V K s))"

lemma load_mult_text:
  assumes "mult_text L V s"
  shows "runs (load_eval_key L (to_bytes s)) g (\<lambda>_ g'. keeps V g g' \<and> vs_mult V g')"
proof -
  have "runs (fl_deserialize_mult L s) g (\<lambda>_ g'. keeps V g g' \<and> vs_mult V g')"
    using assms by (simp add: mult_text_def)
  then show ?thesis
    by (rule runsE) (simp add: load_eval_key_def try_p_def bind_p_def runs_def)
qed

lemma load_rotation_text:
  assumes "rotation_text L V K s"
  shows "runs (load_eval_key L (to_bytes s)) g (\<lambda>_ g'. keeps V g g' \<and> K \<subseteq> vs_rotations V g')"
proof -
  from assms have d: "declines V (fl_deserialize_mult L s)" "declines V (fl_deserialize_sum L s)"
    by (simp_all add: rotation_text_def)
  from d(1) obtain e1 g1 where 1: "fl_deserialize_mult L s g = (Inl (Throw e1), g1)" "keeps V g g1"
    unfolding declines_def by blast
  from d(2) obtain e2 g2 where 2: "fl_deserialize_sum L s g1 = (Inl (Throw e2), g2)" "keeps V g1 g2"
    unfolding declines_def by blast
  have "runs (fl_deserialize_auto L s) g2 (\<lambda>_ g'. keeps V g2 g' \<and> K \<subseteq> vs_rotations V g')"
    using assms by (simp add: rotation_text_def)
  then obtain x g3 where 3: "fl_deserialize_auto L s g2 = (Inr x, g3)" "keeps V g2 g3" "K \<subseteq> vs_rotations V g3"
    by (rule runsE) auto
  from 1(2) 2(2) 3(2) have "keeps V g g3"
    by (blast intro: keeps_trans)
  then show ?thesis
    by (simp add: load_eval_key_def try_p_def bind_p_def runs_def 1(1) 2(1) 3)
qed

lemma keys_arrive:
  assumes "mult_text L V m" and "rotation_text L V K a"
  shows "runs (load_eval_keys L (serialize_all_eval_keys (True, m) (True, a))) g
    (\<lambda>_ g'. keeps V g g' \<and> vs_mult V g' \<and> K \<subseteq> vs_rotations V g')"
proof -
  have "key_blob (True, m) = [to_bytes m]" "key_blob (True, a) = [to_bytes a]"
    using assms by (simp_all add: key_blob_def mult_text_def rotation_text_def)
  then show ?thesis
    unfolding load_eval_keys_def serialize_all_eval_keys_def
    by (simp add: bind_p_assoc del: prog_run, intro runs_bind [OF load_mult_text [OF assms(1)]]
        runs_bind [OF load_rotation_text [OF assms(2)]])
      (auto simp: bind_p_def runs_def intro: keeps_trans dest: keepsD(2))
qed

lemma for_p_run: "f x g = (Inr y, g1) \<Longrightarrow> for_p f xs g1 = (Inr ys, g2) \<Longrightarrow> for_p f (x # xs) g = (Inr (y # ys), g2)"
  by (simp add: bind_p_def)

text \<open>What all results of the body satisfy, all elements of the list of the loop satisfy.\<close>

lemma for_p_all:
  "for_p f xs g = (Inr ys, g') \<Longrightarrow> (\<And>x h y h'. f x h = (Inr y, h') \<Longrightarrow> P y) \<Longrightarrow> y \<in> set ys \<Longrightarrow> P y"
  by (induction xs arbitrary: g ys) (auto elim!: bind_p_cases)

text \<open>Inputs arrive as they were sent, in the context of the server.\<close>

lemma inputs_arrive:
  assumes "ships L V ps vs" and "\<forall>i<length ins. carries V cc (ins ! i) (ws ! i) l \<and> ws ! i \<in> vs"
    and "length ws = length ins" and "vs_params V cc = ps" and "l \<le> cp_depth ps"
  shows "\<exists>blobs. for_p (\<lambda>ct. bind_p (lift_p (serialize_ciphertext L ct)) (\<lambda>s. ret (to_bytes s))) ins g =
      (Inr blobs, g) \<and> (\<forall>cc' h. vs_params V cc' = ps \<longrightarrow>
        yields (load_inputs L blobs) h (\<lambda>ins'. length ins' = length ins \<and>
          (\<forall>i<length ins. carries V cc' (ins' ! i) (ws ! i) l)))"
  using assms(2,3)
proof (induction ins arbitrary: ws)
  case Nil
  then show ?case by (simp add: load_inputs_def)
next
  case (Cons c ins)
  then obtain w ws' where ws: "ws = w # ws'" "length ws' = length ins" by (cases ws) auto
  from Cons.prems(1) have c: "carries V cc c w l" "w \<in> vs" by (auto simp: ws)
  obtain s where s: "serialize_ciphertext L c = Inr s"
    "\<forall>cc' g. vs_params V cc' = ps \<longrightarrow>
      yields (deserialize_ciphertext L s) g (\<lambda>c'. carries V cc' c' w l)"
    using shipsD [OF assms(1) c(2) assms(5,4) c(1)] by (elim exE conjE)
  have "\<forall>i<length ins. carries V cc (ins ! i) (ws' ! i) l \<and> ws' ! i \<in> vs"
    using Cons.prems(1) by (auto simp: ws)
  from Cons.IH [OF this ws(2)] obtain blobs where
    blobs: "for_p (\<lambda>ct. bind_p (lift_p (serialize_ciphertext L ct)) (\<lambda>s. ret (to_bytes s))) ins g = (Inr blobs, g)"
    and loads: "\<forall>cc' h. vs_params V cc' = ps \<longrightarrow> yields (load_inputs L blobs) h
      (\<lambda>ins'. length ins' = length ins \<and> (\<forall>i<length ins. carries V cc' (ins' ! i) (ws' ! i) l))"
    by (elim exE conjE)
  have "yields (load_inputs L (to_bytes s # blobs)) h (\<lambda>ins'. length ins' = length (c # ins) \<and>
      (\<forall>i<length (c # ins). carries V cc' (ins' ! i) (ws ! i) l))"
    if "vs_params V cc' = ps" for cc' h
    unfolding load_inputs_def
    by (simp, rule yields_bind [OF s(2) [rule_format, OF that]],
        rule yields_bind [OF loads [rule_format, OF that, unfolded load_inputs_def]])
      (auto simp: ws less_Suc_eq_0_disj)
  moreover have "bind_p (lift_p (serialize_ciphertext L c)) (\<lambda>s. ret (to_bytes s)) g = (Inr (to_bytes s), g)"
    by (simp add: bind_p_def s(1))
  then have "for_p (\<lambda>ct. bind_p (lift_p (serialize_ciphertext L ct)) (\<lambda>s. ret (to_bytes s))) (c # ins) g =
      (Inr (to_bytes s # blobs), g)"
    using blobs by (rule for_p_run)
  ultimately show ?case by blast
qed

section \<open>The client prepares\<close>

definition batch_list :: "(nat \<Rightarrow> nat \<Rightarrow> nat \<Rightarrow> real) \<Rightarrow> (nat \<Rightarrow> nat \<Rightarrow> real) \<Rightarrow> (nat \<Rightarrow> real) \<Rightarrow> real list list" where
  "batch_list M y w = map (\<lambda>b. batch_slots (M b)) [0..<lr_kNumBatches] @
     map (\<lambda>b. column_slots (y b)) [0..<lr_kNumBatches] @ [weight_slots w]"

lemma batch_list_length [simp]: "length (batch_list M y w) = lr_kNumInputs"
  by (simp add: batch_list_def lr_kNumInputs_def lr_kNumBatches_def)

lemma batches_list:
  "batches V cc ins M y w l \<longleftrightarrow> length ins = lr_kNumInputs \<and>
    (\<forall>i<length ins. carries V cc (ins ! i) (batch_list M y w ! i) l)"
proof -
  have n: "lr_kNumInputs = 2 * lr_kNumBatches + 1" "lr_kNumBatches = 10"
    by (simp_all add: lr_kNumInputs_def lr_kNumBatches_def)
  have at: "batch_list M y w ! b = batch_slots (M b)" "batch_list M y w ! (lr_kNumBatches + b) = column_slots (y b)"
    if "b < lr_kNumBatches" for b
    using that by (simp_all add: batch_list_def nth_append)
  have last: "batch_list M y w ! 20 = weight_slots w"
    by (simp add: batch_list_def nth_append n(2))
  have split: "(\<forall>i<lr_kNumInputs. Q i) \<longleftrightarrow> (\<forall>b<lr_kNumBatches. Q b \<and> Q (lr_kNumBatches + b)) \<and> Q 20" for Q
  proof
    assume q: "(\<forall>b<lr_kNumBatches. Q b \<and> Q (lr_kNumBatches + b)) \<and> Q 20"
    show "\<forall>i<lr_kNumInputs. Q i"
    proof (intro allI impI)
      fix i
      assume "i < lr_kNumInputs"
      then consider "i < lr_kNumBatches" | "lr_kNumBatches \<le> i" "i - lr_kNumBatches < lr_kNumBatches" | "i = 20"
        unfolding n(1) using n(2) by linarith
      then show "Q i" using q by cases (auto dest: spec [of _ "i - lr_kNumBatches"])
    qed
  qed (simp add: n)
  show ?thesis
  proof (cases "length ins = lr_kNumInputs")
    case True
    have "(\<forall>i<lr_kNumInputs. carries V cc (ins ! i) (batch_list M y w ! i) l) \<longleftrightarrow>
        (\<forall>b<lr_kNumBatches. carries V cc (ins ! b) (batch_slots (M b)) l \<and>
          carries V cc (ins ! (lr_kNumBatches + b)) (column_slots (y b)) l) \<and> carries V cc (ins ! 20) (weight_slots w) l"
      unfolding split by (simp add: at last)
    with True show ?thesis by (simp add: batches_def)
  qed (simp add: batches_def)
qed

text \<open>The vectors of the session: what is sent, and what comes back.\<close>

definition session_vectors :: "(real list \<times> real) list \<Rightarrow> real list set" where
  "session_vectors rows = insert (weight_slots (train (row_features rows) (row_labels rows) (\<lambda>_. 0) lr_kNumIterations))
     (set (batch_list (row_features rows) (row_labels rows) (\<lambda>_. 0)))"

text \<open>A request that a server can work on.\<close>

definition training_request :: "('g, 'ct) openfhe \<Rightarrow> ('g, 'cc, 'ct, 'pt) view \<Rightarrow> (real list \<times> real) list \<Rightarrow>
    request \<Rightarrow> bool" where
  "training_request L V rows rq \<longleftrightarrow> rq_workload rq = ''logistic-regression'' \<and>
     (\<exists>m a. rq_keys rq = serialize_all_eval_keys (True, m) (True, a) \<and> mult_text L V m \<and>
        rotation_text L V (set logistic_rotations) a) \<and>
     (\<forall>cc g. vs_params V cc = logistic_params \<longrightarrow> yields (load_inputs L (rq_cts rq)) g
        (\<lambda>ins. batches V cc ins (row_features rows) (row_labels rows) (\<lambda>_. 0) 14))"

lemma training_blobs_yield:
  assumes "circuit_ready (ce_ckks T) V cc g" and "ships (ce_lib T) V logistic_params (session_vectors rows)"
    and "ce_csv T = Some file_rows" and "map_r (read_row (ce_stod T) 0) (take 1280 file_rows) = Inr rows"
    and "length rows = 1280"
  shows "yields (ckks_input_blobs T ''logistic-regression'' cc kp) g (\<lambda>blobs. \<forall>cc' h.
    vs_params V cc' = logistic_params \<longrightarrow> yields (load_inputs (ce_lib T) blobs) h
      (\<lambda>ins. batches V cc' ins (row_features rows) (row_labels rows) (\<lambda>_. 0) 14))"
proof -
  let ?ws = "batch_list (row_features rows) (row_labels rows) (\<lambda>_. 0)"
  have rows: "lr_kNumBatches * lr_kRows \<le> length rows"
    by (simp add: assms(5) lr_kNumBatches_def lr_kRows_def)
  have ps: "vs_params V cc = logistic_params"
    using assms(1) by (simp add: circuit_ready_def)
  have send: "yields (for_p (\<lambda>ct. bind_p (lift_p (serialize_ciphertext (ce_lib T) ct)) (\<lambda>s. ret (to_bytes s))) ins) g
      (\<lambda>blobs. \<forall>cc' h. vs_params V cc' = logistic_params \<longrightarrow> yields (load_inputs (ce_lib T) blobs) h
        (\<lambda>ins. batches V cc' ins (row_features rows) (row_labels rows) (\<lambda>_. 0) 14))"
    if "batches V cc ins (row_features rows) (row_labels rows) (\<lambda>_. 0) 14" for ins
  proof -
    from that have ins: "length ins = lr_kNumInputs"
      "\<forall>i<length ins. carries V cc (ins ! i) (?ws ! i) 14 \<and> ?ws ! i \<in> session_vectors rows"
      by (auto simp: batches_list session_vectors_def)
    have lev: "14 \<le> cp_depth logistic_params"
      by (simp add: logistic_params_def set_params_def lr_kMultDepth_def)
    have len: "length ?ws = length ins" by (simp add: ins(1))
    obtain blobs where b: "for_p (\<lambda>ct. bind_p (lift_p (serialize_ciphertext (ce_lib T) ct)) (\<lambda>s. ret (to_bytes s))) ins g =
        (Inr blobs, g)" and read: "\<forall>cc' h. vs_params V cc' = logistic_params \<longrightarrow>
        yields (load_inputs (ce_lib T) blobs) h (\<lambda>ins'. length ins' = length ins \<and>
          (\<forall>i<length ins. carries V cc' (ins' ! i) (?ws ! i) 14))"
      using inputs_arrive [OF assms(2) ins(2) len ps lev, of g] by (elim exE conjE)
    have "yields (load_inputs (ce_lib T) blobs) h (\<lambda>ins. batches V cc' ins (row_features rows) (row_labels rows) (\<lambda>_. 0) 14)"
      if "vs_params V cc' = logistic_params" for cc' h
    proof -
      from read [rule_format, OF that] show ?thesis
        by (rule yields_mono) (simp add: batches_list ins(1))
    qed
    with b show ?thesis by (simp add: yields_def)
  qed
  show ?thesis
    unfolding ckks_input_blobs_def ckks_blobs_def assms(3)
    by (simp only: simp_thms if_True, rule yields_bind [OF logreg_inputs_yield [OF assms(1,4) rows]], erule send)
qed

lemma tee_prepare_runs:
  assumes "ckks_works (ce_ckks T) V" and "keys_ship T V (set logistic_rotations)"
    and "ships (ce_lib T) V logistic_params (session_vectors rows)" and "co_workload opts = ''logistic-regression''"
    and "ce_csv T = Some file_rows" and "map_r (read_row (ce_stod T) 0) (take 1280 file_rows) = Inr rows"
    and "length rows = 1280"
  shows "runs (tee_prepare T opts (logistic_workload (ce_ckks T))) g (\<lambda>(rq, cc, kp) _.
    vs_params V cc = logistic_params \<and> training_request (ce_lib T) V rows rq \<and>
    (\<exists>g'. client_setup (ce_ckks T) (logistic_workload (ce_ckks T)) g = (Inr (cc, kp), g')))"
proof -
  obtain cc kp g1 where s: "client_setup (ce_ckks T) (logistic_workload (ce_ckks T)) g = (Inr (cc, kp), g1)"
    and r: "logistic_ready (ce_ckks T) V cc g1"
    using logistic_setup_runs [OF assms(1), of g] by (rule runsE) auto
  have ps: "vs_params V cc = logistic_params"
    using logistic_readyD(6) [OF r] by (simp add: circuit_ready_def)
  from assms(2) logistic_readyD(2,5) [OF r] have keys:
    "yields (ce_serialize_mult T) g1 (\<lambda>(ok, s). ok \<and> mult_text (ce_lib T) V s)"
    "yields (ce_serialize_auto T) g1 (\<lambda>(ok, s). ok \<and> rotation_text (ce_lib T) V (set logistic_rotations) s)"
    unfolding keys_ship_def by blast+
  obtain m where m: "ce_serialize_mult T g1 = (Inr (True, m), g1)" "mult_text (ce_lib T) V m"
    using keys(1) by (rule yieldsE) auto
  obtain a where a: "ce_serialize_auto T g1 = (Inr (True, a), g1)"
    "rotation_text (ce_lib T) V (set logistic_rotations) a"
    using keys(2) by (rule yieldsE) auto
  obtain blobs where b: "ckks_input_blobs T ''logistic-regression'' cc kp g1 = (Inr blobs, g1)"
    and loads: "\<forall>cc' h. vs_params V cc' = logistic_params \<longrightarrow> yields (load_inputs (ce_lib T) blobs) h
      (\<lambda>ins. batches V cc' ins (row_features rows) (row_labels rows) (\<lambda>_. 0) 14)"
    using training_blobs_yield [OF logistic_readyD(6) [OF r] assms(3,5-7), of kp] by (rule yieldsE)
  have "training_request (ce_lib T) V rows \<lparr>rq_nonce = random_nonce 16 (ce_urandom T),
      rq_keys = serialize_all_eval_keys (True, m) (True, a), rq_cts = blobs,
      rq_workload = ''logistic-regression''\<rparr>"
    using m(2) a(2) loads unfolding training_request_def by auto
  then show ?thesis
    using s ps by (simp add: tee_prepare_def bind_p_def m a b assms(4) runs_def Let_def)
qed

section \<open>The server evaluates\<close>

lemma training_evaluates:
  assumes "ckks_works C V" and "ships L V logistic_params (session_vectors rows)" and "training_request L V rows rq"
    and "reg ''logistic-regression'' = Some (workload.truncate (logistic_workload C))"
  shows "\<exists>s sg'. evaluates load_eval_keys L reg rq sg s sg' \<and>
    (\<forall>cc g. vs_params V cc = logistic_params \<longrightarrow> yields (deserialize_ciphertext L s) g (\<lambda>c. carries V cc c
      (weight_slots (train (row_features rows) (row_labels rows) (\<lambda>_. 0) lr_kNumIterations)) 22))"
proof -
  let ?fs = "leveled @ [ADVANCEDSHE, FHE]"
  let ?w = "weight_slots (train (row_features rows) (row_labels rows) (\<lambda>_. 0) lr_kNumIterations)"
  note core = ckks_worksD(1) [OF assms(1)]
  obtain m a where keys: "rq_keys rq = serialize_all_eval_keys (True, m) (True, a)" "mult_text L V m"
      "rotation_text L V (set logistic_rotations) a"
    and wid: "rq_workload rq = ''logistic-regression''"
    and loads: "\<forall>cc g. vs_params V cc = logistic_params \<longrightarrow> yields (load_inputs L (rq_cts rq)) g
      (\<lambda>ins. batches V cc ins (row_features rows) (row_labels rows) (\<lambda>_. 0) 14)"
    using assms(3) unfolding training_request_def by (elim exE conjE)
  obtain cc g1 where 1: "make_logistic_context C sg = (Inr cc, g1)" "ready V cc logistic_params ?fs g1"
    using gen_context_runs [OF core, of logistic_params ?fs sg]
    unfolding make_logistic_context_def by (rule runsE) auto
  obtain ks g2 where 2: "load_eval_keys L (rq_keys rq) g1 = (Inr ks, g2)" "keeps V g1 g2" "vs_mult V g2"
      "set logistic_rotations \<subseteq> vs_rotations V g2"
    using keys_arrive [OF keys(2,3), of g1] unfolding keys(1) by (rule runsE) auto
  have on: "LEVELEDSHE \<in> set ?fs" by (simp add: leveled_def)
  have r: "ready V cc logistic_params ?fs g2"
    using 1(2) 2(2) by (rule ready_keeps)
  with works_flexible [OF core ready_on [OF r on]] 2(3,4) have lr: "logistic_ready C V cc g2"
    by (simp add: logistic_ready_def circuit_ready_def ready_def logistic_params_def set_params_def)
  from r have ps: "vs_params V cc = logistic_params" by (simp add: ready_def)
  obtain ins where 3: "load_inputs L (rq_cts rq) g2 = (Inr ins, g2)"
    "batches V cc ins (row_features rows) (row_labels rows) (\<lambda>_. 0) 14"
    using loads [rule_format, OF ps] by (rule yieldsE)
  have lev: "14 + 4 * lr_kNumIterations = 22" by (simp add: lr_kNumIterations_def)
  have "14 + 4 * lr_kNumIterations \<le> lr_kMultDepth"
    by (simp add: lr_kNumIterations_def lr_kMultDepth_def)
  from logistic_eval_yields [OF lr 3(2) this] obtain out where
    4: "logistic_eval C cc ins g2 = (Inr out, g2)" "carries V cc out ?w 22"
    unfolding lev by (rule yieldsE)
  have "?w \<in> session_vectors rows" by (simp add: session_vectors_def)
  moreover have "22 \<le> cp_depth logistic_params"
    by (simp add: logistic_params_def set_params_def lr_kMultDepth_def)
  ultimately obtain s where 5: "serialize_ciphertext L out = Inr s"
    "\<forall>cc' g. vs_params V cc' = logistic_params \<longrightarrow>
      yields (deserialize_ciphertext L s) g (\<lambda>c'. carries V cc' c' ?w 22)"
    using shipsD [OF assms(2) _ _ ps 4(2)] by blast
  have "evaluates load_eval_keys L reg rq sg s g2"
    unfolding evaluates_def wid assms(4)
    by (rule exI [of _ "workload.truncate (logistic_workload C)"])
      (simp add: logistic_workload_def workload.truncate_def 1(1) 2(1) 3(1) 4(1) 5(1))
  with 5(2) show ?thesis by blast
qed


section \<open>What the client prints\<close>

lemma largest_weight_step:
  fixes dec :: "real list"
  shows "fold (\<lambda>i (m, a). if \<bar>dec ! i\<bar> > m then (\<bar>dec ! i\<bar>, i) else (m, a)) [0..<n] (0, 0) = (m, a) \<Longrightarrow>
    (\<forall>i< n. \<bar>dec ! i\<bar> \<le> m) \<and> (if m = 0 then a = 0 else a < n \<and> m = \<bar>dec ! a\<bar>)"
proof (induction n arbitrary: m a)
  case (Suc n)
  obtain m' a' where f: "fold (\<lambda>i (m, a). if \<bar>dec ! i\<bar> > m then (\<bar>dec ! i\<bar>, i) else (m, a)) [0..<n] (0, 0) = (m', a')"
    by (rule prod.exhaust)
  note IH = Suc.IH [OF f]
  have pos: "0 \<le> m'" using IH by (cases "m' = 0") simp_all
  have step: "(m, a) = (if \<bar>dec ! n\<bar> > m' then (\<bar>dec ! n\<bar>, n) else (m', a'))"
    using Suc.prems by (simp add: f)
  show ?case
  proof (cases "\<bar>dec ! n\<bar> > m'")
    case True
    with step pos have "m = \<bar>dec ! n\<bar>" "a = n" "m \<noteq> 0" by auto
    with True IH show ?thesis by (fastforce simp: less_Suc_eq)
  next
    case False
    with step have "m = m'" "a = a'" by auto
    with False IH show ?thesis by (cases "m' = 0") (fastforce simp: less_Suc_eq)+
  qed
qed simp

lemma largest_weight_greatest:
  assumes "largest_weight dec = (m, a)" and "196 \<le> length dec"
  shows "\<forall>i<196. \<bar>dec ! i\<bar> \<le> m" and "m = \<bar>dec ! a\<bar>" and "a < 196"
proof -
  have n: "min 196 (length dec) = 196" using assms(2) by simp
  from largest_weight_step [OF assms(1) [unfolded largest_weight_def n]]
  have *: "\<forall>i<196. \<bar>dec ! i\<bar> \<le> m" "if m = 0 then a = 0 else a < 196 \<and> m = \<bar>dec ! a\<bar>" by blast+
  from *(1) show "\<forall>i<196. \<bar>dec ! i\<bar> \<le> m" .
  from * show "m = \<bar>dec ! a\<bar>" "a < 196" by (auto split: if_splits)
qed

definition reports_weights :: "(nat \<Rightarrow> real) \<Rightarrow> weight_report \<Rightarrow> bool" where
  "reports_weights w rep \<longleftrightarrow> wt_sample rep = map w [100..<104] \<and> wt_argmax rep < 196 \<and>
     wt_max rep = \<bar>w (wt_argmax rep)\<bar> \<and> (\<forall>i<196. \<bar>w i\<bar> \<le> wt_max rep)"

lemma report_weights_reports: "reports_weights w (report_weights (map w [0..<256]))"
proof -
  let ?dec = "map w [0..<256]"
  obtain m a where l: "largest_weight ?dec = (m, a)" by (cases "largest_weight ?dec")
  have at: "?dec ! i = w i" if "i < 196" for i
    using that by (subst nth_map) simp_all
  have "map (\<lambda>i. ?dec ! i) [100..<min 104 (length ?dec)] = map w [100..<104]"
  proof (rule map_cong)
    show "[100..<min 104 (length ?dec)] = [100..<104]" by simp
  next
    fix i
    assume "i \<in> set [100..<(104::nat)]"
    then show "?dec ! i = w i" by (intro at) auto
  qed
  with largest_weight_greatest [OF l] at show ?thesis
    by (simp add: reports_weights_def report_weights_def l)
qed

lemma weight_slots_take: "take 256 (weight_slots w) = map w [0..<256]"
  by (rule nth_equalityI) (simp_all add: repeat_slots_def lr_client_dims lr_kCols_def lr_kRows_def)

text \<open>Decryption, with a key pair of the setup, reads the first 256 slots.\<close>

definition decrypts :: "('g, 'cc, 'ct, 'pt, 'sk, 's, 'h, 'x) client_env_scheme \<Rightarrow> ('g, 'cc, 'ct, 'pt) view \<Rightarrow> bool" where
  "decrypts T V \<longleftrightarrow> (\<forall>cc kp g g'. client_setup (ce_ckks T) (logistic_workload (ce_ckks T)) g = (Inr (cc, kp), g') \<longrightarrow>
     (\<forall>c v l h. carries V cc c v l \<longrightarrow> yields (ce_decrypt T cc kp c) h (\<lambda>dec. dec = take 256 v)))"

lemma ckks_finish_yields:
  assumes "decrypts T V" and "client_setup (ce_ckks T) (logistic_workload (ce_ckks T)) g = (Inr (cc, kp), g')"
    and "yields (deserialize_ciphertext (ce_lib T) s) h (\<lambda>c. carries V cc c (weight_slots w) l)"
  shows "yields (ckks_finish T (cc, kp) (to_bytes s)) h (reports_weights w)"
  unfolding ckks_finish_def prod.case to_string_to_bytes
proof (rule yields_bind [OF assms(3)])
  fix c
  assume "carries V cc c (weight_slots w) l"
  with assms(1,2) have "yields (ce_decrypt T cc kp c) h (\<lambda>dec. dec = map w [0..<256])"
    unfolding decrypts_def weight_slots_take [symmetric] by blast
  then show "yields (bind_p (ce_decrypt T cc kp c) (\<lambda>dec. ret (report_weights dec))) h (reports_weights w)"
    by (rule yields_bind) (simp add: report_weights_reports)
qed

section \<open>The session\<close>

text \<open>
  The server of the session: its registry is filled by the same registrations, and what its handler
  answers from the state \<open>sg\<close> reaches the client.
\<close>

definition tee_server_registry :: "('s, real) rng \<Rightarrow> ('g, 'cc, 'ct, 'pt, 'sk) ckks \<Rightarrow>
    ('g, 'cc, 'ct) workload registry" where
  "tee_server_registry R C = (\<lambda>wid. map_option workload.truncate (tee_registry R C wid))"

definition serves :: "('g, 'cc, 'ct, 'pt, 'sk, 's, 'h, 'x) client_env_scheme \<Rightarrow> 'h platform \<Rightarrow> durations \<Rightarrow> 'g \<Rightarrow>
    string \<Rightarrow> 16 word \<Rightarrow> bool" where
  "serves T P D sg host port \<longleftrightarrow> (\<forall>b resp sg'. handle_client P D (ce_lib T)
      (tee_server_registry (ce_rng T) (ce_ckks T)) (Inr b) sg = (Inr (Some resp), sg') \<longrightarrow>
    ce_exchange T host port b = Inr resp)"

text \<open>
  The two sides agree on hash and JSON library; a request and its answer fit into the message format,
  and the quote over the transcript of the answer verifies against \<open>mr\<close>.
\<close>

definition session_fits :: "('g, 'cc, 'ct, 'pt, 'sk, 's, 'h, 'x) client_env_scheme \<Rightarrow> 'h platform \<Rightarrow> durations \<Rightarrow>
    string \<Rightarrow> request \<Rightarrow> bytes \<Rightarrow> bool" where
  "session_fits T P D mr rq out \<longleftrightarrow> request_ok (pf_alloc P) rq \<and> length (build_request rq) < 2 ^ 64 \<and>
     json_session (pf_json P) (transcript_members (server_transcript P D rq out)) \<and>
     quote_works (pf_tdx P) (ce_verifier T) mr (compute_transcript_hash (pf_b3 P) (pf_json P)
       (server_transcript P D rq out)) \<and>
     length (evaluated_response P D rq out) < 2 ^ 64"

definition same_libraries :: "('g, 'cc, 'ct, 'pt, 'sk, 's, 'h, 'x) client_env_scheme \<Rightarrow> 'h platform \<Rightarrow> bool" where
  "same_libraries T P \<longleftrightarrow> ce_b3 T = pf_b3 P \<and> b3_sized (pf_b3 P) \<and> ve_json (ce_verifier T) = pf_json P"

text \<open>The options of \<open>client --workload logistic-regression --expected-mr-td mr\<close>.\<close>

definition training_options :: "string \<Rightarrow> client_options" where
  "training_options mr = \<lparr>co_host = ''127.0.0.1'', co_port = 8080, co_workload = ''logistic-regression'', co_mr_td = mr\<rparr>"

lemma tee_registered:
  "tee_registry R C ''logistic-regression'' = Some (logistic_workload C)"
  by (simp add: tee_registry_lookup tee_registrations_def)

text \<open>A request has one evaluation.\<close>

lemma evaluates_unique: "evaluates load L reg rq g s g' \<Longrightarrow> evaluates load L reg rq g s' g'' \<Longrightarrow> s' = s"
  unfolding evaluates_def by (elim exE conjE) simp

lemma handle_client_evaluates:
  assumes "request_ok (pf_alloc P) rq" and "length (build_request rq) < 2 ^ 64"
    and "evaluates load_eval_keys L reg rq g s g'"
  shows "handle_client P D L reg (Inr (build_request rq)) g =
    (Inr (Some (evaluated_response P D rq (to_bytes s))), g')"
proof -
  have "parse_request (pf_alloc P) (build_request rq) = Inr rq"
    by (rule tee_request.parse_build [OF assms(1,2)])
  then show ?thesis
    using evaluate_request_ok [OF assms(3)]
    by (simp add: handle_client_def try_then_def reply_def)
qed

lemma tee_program_releases:
  assumes "ckks_works (ce_ckks T) V" and "keys_ship T V (set logistic_rotations)"
    and "ships (ce_lib T) V logistic_params (session_vectors rows)" and "decrypts T V"
    and "ce_csv T = Some file_rows" and "map_r (read_row (ce_stod T) 0) (take 1280 file_rows) = Inr rows"
    and "length rows = 1280" and opts: "co_workload opts = ''logistic-regression''"
    and "serves T P D sg (co_host opts) (co_port opts)" and "same_libraries T P"
    and fits: "\<forall>rq k g' s sg'. tee_prepare T opts (logistic_workload (ce_ckks T)) g = (Inr (rq, k), g') \<longrightarrow>
      evaluates load_eval_keys (ce_lib T) (tee_server_registry (ce_rng T) (ce_ckks T)) rq sg s sg' \<longrightarrow>
      session_fits T P D (co_mr_td opts) rq (to_bytes s)"
  shows "\<exists>rep g'. released (tee_prepare T opts (logistic_workload (ce_ckks T))) build_request
      (ce_exchange T (co_host opts) (co_port opts)) (check_response (ce_b3 T) (ce_verifier T) (co_mr_td opts))
      (ckks_finish T) g rep g' \<and>
    reports_weights (train (row_features rows) (row_labels rows) (\<lambda>_. 0) lr_kNumIterations) rep"
proof -
  let ?w = "train (row_features rows) (row_labels rows) (\<lambda>_. 0) lr_kNumIterations"
  let ?reg = "tee_server_registry (ce_rng T) (ce_ckks T)"
  obtain rq cc kp g1 gs where prep: "tee_prepare T opts (logistic_workload (ce_ckks T)) g = (Inr (rq, cc, kp), g1)"
    and ps: "vs_params V cc = logistic_params" and rq: "training_request (ce_lib T) V rows rq"
    and kp: "client_setup (ce_ckks T) (logistic_workload (ce_ckks T)) g = (Inr (cc, kp), gs)"
    using tee_prepare_runs [OF assms(1-3) opts assms(5-7), of g] by (rule runsE) auto
  have reg: "?reg ''logistic-regression'' = Some (workload.truncate (logistic_workload (ce_ckks T)))"
    by (simp add: tee_server_registry_def tee_registered)
  obtain s sg' where ev: "evaluates load_eval_keys (ce_lib T) ?reg rq sg s sg'"
    and arrives: "\<forall>cc g. vs_params V cc = logistic_params \<longrightarrow> yields (deserialize_ciphertext (ce_lib T) s) g
      (\<lambda>c. carries V cc c (weight_slots ?w) 22)"
    using training_evaluates [where reg = ?reg and sg = sg, OF assms(1,3) rq reg] by (elim exE conjE)
  have fit: "session_fits T P D (co_mr_td opts) rq (to_bytes s)"
    using fits prep ev by blast
  note same = assms(10) [unfolded same_libraries_def]
  have sent: "ce_exchange T (co_host opts) (co_port opts) (build_request rq) =
      Inr (evaluated_response P D rq (to_bytes s))"
    using handle_client_evaluates [OF _ _ ev] fit assms(9) unfolding serves_def session_fits_def by blast
  have checked: "check_response (ce_b3 T) (ce_verifier T) (co_mr_td opts) rq
      (evaluated_response P D rq (to_bytes s)) = Inr (Some (to_bytes s))"
    using honest_response_accepted [of P D rq "to_bytes s" "ce_verifier T" "co_mr_td opts"] fit same
    unfolding session_fits_def by simp
  obtain rep where fin: "ckks_finish T (cc, kp) (to_bytes s) g1 = (Inr rep, g1)" "reports_weights ?w rep"
    using ckks_finish_yields [OF assms(4) kp arrives [rule_format, OF ps]] by (rule yieldsE)
  show ?thesis
    unfolding released_def using prep sent checked fin by blast
qed

end
