(* ===== verification/Session_Bgv.thy ===== *)
theory Session_Bgv
  imports Session_Training
begin

text \<open>
  The program of the client and the handler of the server of \<open>tee-vfhe-bgvrns\<close> together: \<open>client
  --workload w\<close> for every workload of the client's table, against an honest server.
\<close>

section \<open>What the two sides rely on\<close>

text \<open>
  \<open>std::uniform_int_distribution(0, 65536)\<close> stays in its range. Packed values are residues; they come
  back as the representatives around zero.
\<close>

definition draws_residues :: "('s, int) rng \<Rightarrow> bool" where
  "draws_residues R \<longleftrightarrow> (\<forall>n seed. set (gen_input_vec R n seed) \<subseteq> {0..65536})"

definition centered :: "int \<Rightarrow> int" where
  "centered x = (if 32768 < x mod 65537 then x mod 65537 - 65537 else x mod 65537)"

definition padded :: "int list \<Rightarrow> int list" where
  "padded v = v @ replicate (4096 - length v) 0"

text \<open>
  A key pair works in its context: what is packed and encrypted with it holds the residues, filled up
  with zeros, and products that were not relinearized are decrypted like any other ciphertext.
\<close>

definition bgv_pair_works :: "('g, 'cc, 'ct, 'pt, 'sk) bgv_client \<Rightarrow> ('g, 'cc, 'ct) bgv_view \<Rightarrow> 'cc \<Rightarrow> 'sk \<Rightarrow> bool" where
  "bgv_pair_works C V cc kp \<longleftrightarrow>
     (\<forall>g vals. PKE \<in> bw_on V g cc \<longrightarrow> vals \<noteq> [] \<longrightarrow> length vals \<le> 4096 \<longrightarrow> set vals \<subseteq> {0..65536} \<longrightarrow>
        yields (bind_p (bc_pack C cc vals) (bc_encrypt C cc kp)) g (\<lambda>c. holds V cc 2 c (padded vals))) \<and>
     (\<forall>g c v k n. holds V cc k c v \<longrightarrow> k \<le> 3 \<longrightarrow> n \<le> length v \<longrightarrow>
        yields (bc_decrypt C cc kp c n) g (\<lambda>dec. dec = map centered (take n v)))"

text \<open>
  The relinearization keys are read by the first deserializer; there are no other keys, so that the
  other two serializers fail or write nothing.
\<close>

definition bgv_keys_ship :: "('g, 'ct) openfhe \<Rightarrow> ('g, 'cc, 'ct, 'pt, 'sk) bgv_client \<Rightarrow> ('g, 'cc, 'ct) bgv_view \<Rightarrow>
    'cc \<Rightarrow> 'g \<Rightarrow> bool" where
  "bgv_keys_ship L C V cc g \<longleftrightarrow>
     yields (bc_serialize_mult C cc) g (\<lambda>(ok, s). \<forall>h. runs (fl_deserialize_mult L s) h
       (\<lambda>read h'. read \<and> (\<forall>cc. bw_on V h cc \<subseteq> bw_on V h' cc))) \<and>
     yields (bc_serialize_sum C cc) g (\<lambda>(ok, s). ok \<longrightarrow> s = []) \<and>
     yields (bc_serialize_auto C cc) g (\<lambda>(ok, s). ok \<longrightarrow> s = [])"

definition bgv_makes_keys :: "('g, 'cc, 'ct, 'pt, 'sk) bgv_client \<Rightarrow> ('g, 'cc, 'ct) bgv_view \<Rightarrow> bool" where
  "bgv_makes_keys C V \<longleftrightarrow> (\<forall>cc g. PKE \<in> bw_on V g cc \<longrightarrow> LEVELEDSHE \<in> bw_on V g cc \<longrightarrow>
     runs (bc_keygen C cc) g (\<lambda>kp g1. bw_on V g cc \<subseteq> bw_on V g1 cc \<and>
       runs (bc_mult_keygen C cc kp) g1 (\<lambda>_ g2. bw_on V g1 cc \<subseteq> bw_on V g2 cc)))"

text \<open>What is known of the keys that the setup of this session makes.\<close>

definition bgv_session_keys :: "('g, 'ct) openfhe \<Rightarrow> ('g, 'cc, 'ct, 'pt, 'sk) bgv_client \<Rightarrow>
    ('g, 'cc) prog \<Rightarrow> ('g, 'cc, 'ct) bgv_view \<Rightarrow> 'g \<Rightarrow> bool" where
  "bgv_session_keys L C mk V g \<longleftrightarrow> (\<forall>cc kp g1. bgv_make_keys C mk None g = (Inr (cc, kp), g1) \<longrightarrow>
     bgv_pair_works C V cc kp \<and> bgv_keys_ship L C V cc g1)"

text \<open>
  A ciphertext that holds one of the vectors, with the given number of parts, is written, and read back
  in every context with the same parameters.
\<close>

definition bgv_arrives :: "('g, 'ct) openfhe \<Rightarrow> ('g, 'cc, 'ct) bgv_view \<Rightarrow> bgv_params \<Rightarrow> nat \<Rightarrow> int list \<Rightarrow> string \<Rightarrow> bool" where
  "bgv_arrives L V ps k v s \<longleftrightarrow> (\<forall>cc g. bw_params V cc = ps \<longrightarrow>
     yields (deserialize_ciphertext L s) g (\<lambda>c. holds V cc k c v))"

definition bgv_ships :: "('g, 'ct) openfhe \<Rightarrow> ('g, 'cc, 'ct) bgv_view \<Rightarrow> bgv_params \<Rightarrow> (nat \<times> int list) set \<Rightarrow> bool" where
  "bgv_ships L V ps vs \<longleftrightarrow> (\<forall>c v k cc. (k, v) \<in> vs \<longrightarrow> bw_params V cc = ps \<longrightarrow> holds V cc k c v \<longrightarrow>
     (\<exists>s. serialize_ciphertext L c = Inr s \<and> bgv_arrives L V ps k v s))"

lemma bgv_shipsD:
  "bgv_ships L V ps vs \<Longrightarrow> (k, v) \<in> vs \<Longrightarrow> bw_params V cc = ps \<Longrightarrow> holds V cc k c v \<Longrightarrow>
    \<exists>s. serialize_ciphertext L c = Inr s \<and> bgv_arrives L V ps k v s"
  unfolding bgv_ships_def by blast

section \<open>Slots\<close>

lemma take_map2: "take n (map2 f v w) = map2 f (take n v) (take n w)"
  by (simp add: take_map take_zip)

lemma take_padded: "length v = n \<Longrightarrow> take n (padded v) = v"
  by (simp add: padded_def)

lemma length_padded: "length v \<le> 4096 \<Longrightarrow> length (padded v) = 4096"
  by (simp add: padded_def)

text \<open>The workloads of the clients' tables, and how many inputs they take.\<close>

definition bgv_ids :: "string set" where
  "bgv_ids = {''noop'', ''toy'', ''small'', ''medium'', ''BGV-Add-4K'', ''BGV-Mul-4K''}"

definition bgv_arity :: "string \<Rightarrow> nat" where
  "bgv_arity wid = (if wid = ''noop'' then 1 else if wid = ''small'' then 4 else if wid = ''medium'' then 6 else 2)"

text \<open>Plaintexts of the same length, of residues.\<close>

definition residue_vectors :: "nat \<Rightarrow> int list list \<Rightarrow> bool" where
  "residue_vectors n vs \<longleftrightarrow> 0 < n \<and> n \<le> 4096 \<and> (\<forall>v\<in>set vs. length v = n \<and> set v \<subseteq> {0..65536})"

lemma residue_vectorsD:
  assumes "residue_vectors n vs" and "v \<in> set vs"
  shows "length v = n" and "v \<noteq> []" and "length v \<le> 4096" and "set v \<subseteq> {0..65536}"
  using assms by (auto simp: residue_vectors_def)

lemma draw_length: "length (draw nx n st) = n"
  by (induction n arbitrary: st) (simp_all add: split_def Let_def)

lemma drawn_residues:
  assumes "draws_residues R" and "0 < n" and "n \<le> 4096"
  shows "residue_vectors (nat n) (map (\<lambda>i. gen_input_vec R n (seed i)) js)"
  using assms by (auto simp: residue_vectors_def draws_residues_def gen_input_vec_def draw_length)

text \<open>The circuits work slot by slot: filling up commutes with what they compute.\<close>

lemma bgv_function_padded:
  assumes "wid \<in> bgv_ids" and "length vs = bgv_arity wid" and "residue_vectors n vs"
  shows "take n (bgv_function wid (map padded vs)) = bgv_function wid vs"
proof -
  have at: "take n (padded (vs ! i)) = vs ! i" if "i < length vs" for i
    using residue_vectorsD(1) [OF assms(3), of "vs ! i"] that by (simp add: take_padded)
  show ?thesis
    using assms(1,2) unfolding bgv_ids_def insert_iff empty_iff
    by (elim disjE) (simp_all add: bgv_arity_def bgv_function_def vadd_def vmul_def take_map take_zip at)
qed

lemma find_spec_distinct: "distinct (map ws_id xs) \<Longrightarrow> s \<in> set xs \<Longrightarrow> find_spec xs (ws_id s) = Some s"
  unfolding find_spec_def by (induction xs) (auto simp: rev_image_eqI)

lemma bgv_specs:
  assumes "s \<in> set bgv_kWorkloads"
  shows "find_spec bgv_kWorkloads (ws_id s) = Some s" and "8 \<le> nat (ws_slots s)" and "ws_slots s \<le> 4096"
    and "ws_id s \<in> bgv_ids" and "nat (ws_num_inputs s) = bgv_arity (ws_id s)"
proof -
  have "distinct (map ws_id bgv_kWorkloads)"
    by (simp add: bgv_kWorkloads_def mk_spec_def)
  then show "find_spec bgv_kWorkloads (ws_id s) = Some s"
    using assms by (rule find_spec_distinct)
  show "8 \<le> nat (ws_slots s)" "ws_slots s \<le> 4096" "ws_id s \<in> bgv_ids" "nat (ws_num_inputs s) = bgv_arity (ws_id s)"
    using assms by (auto simp: bgv_kWorkloads_def mk_spec_def bgv_ids_def bgv_arity_def)
qed

lemma bgv_inputs:
  assumes "s \<in> set bgv_kWorkloads" and "draws_residues R"
  shows "residue_vectors (nat (ws_slots s)) (bgv_input_vectors R (Some s))"
    and "length (bgv_input_vectors R (Some s)) = bgv_arity (ws_id s)"
proof -
  have "0 < ws_slots s" "ws_slots s \<le> 4096"
    using bgv_specs(2,3) [OF assms(1)] by simp_all
  from drawn_residues [OF assms(2) this] show "residue_vectors (nat (ws_slots s)) (bgv_input_vectors R (Some s))"
    by (simp add: bgv_input_vectors_def)
  show "length (bgv_input_vectors R (Some s)) = bgv_arity (ws_id s)"
    by (simp add: bgv_input_vectors_def bgv_specs(5) [OF assms(1)])
qed

text \<open>Every workload of the table is registered, and its circuit holds its function.\<close>

definition holds_function :: "('g, 'cc, 'ct) bgv \<Rightarrow> string \<Rightarrow> ('cc \<Rightarrow> 'ct list \<Rightarrow> ('g, 'ct) prog) \<Rightarrow> bool" where
  "holds_function B wid eval \<longleftrightarrow> (\<forall>V cc g inputs vs. bgv_evaluates B V cc g \<longrightarrow> fresh_inputs V cc inputs vs \<longrightarrow>
     length vs = bgv_arity wid \<longrightarrow>
     yields (eval cc inputs) g (\<lambda>c. holds V cc (bgv_parts wid) c (bgv_function wid vs)))"

lemma holds_functionD:
  "holds_function B wid eval \<Longrightarrow> bgv_evaluates B V cc g \<Longrightarrow> fresh_inputs V cc inputs vs \<Longrightarrow> length vs = bgv_arity wid \<Longrightarrow>
    yields (eval cc inputs) g (\<lambda>c. holds V cc (bgv_parts wid) c (bgv_function wid vs))"
  unfolding holds_function_def by blast

lemma circuits_hold_function:
  "holds_function B ''noop'' bgv_noop_eval" "holds_function B ''toy'' (bgv_toy_eval B)"
  "holds_function B ''small'' (bgv_small_eval B)" "holds_function B ''medium'' (bgv_medium_eval B)"
  "holds_function B ''BGV-Add-4K'' (bgv_add_4k_eval B)" "holds_function B ''BGV-Mul-4K'' (bgv_mul_4k_eval B)"
  unfolding holds_function_def
  by (intro allI impI; simp add: bgv_parts_def bgv_arity_def; rule bgv_circuits_hold; (assumption | simp))+

lemma bgv_registered_circuit:
  assumes "wid \<in> bgv_ids"
  obtains eval where "bgv_registry B wid = Some (bgv_entry B eval)" and "holds_function B wid eval"
proof -
  have "\<exists>eval. bgv_registry B wid = Some (bgv_entry B eval) \<and> holds_function B wid eval"
    using assms unfolding bgv_ids_def insert_iff empty_iff
    by (elim disjE FalseE) (hypsubst, intro exI conjI, rule bgv_registered, rule circuits_hold_function)+
  with that show thesis by blast
qed

section \<open>The client prepares\<close>

definition bgv_session_vectors :: "string \<Rightarrow> int list list \<Rightarrow> (nat \<times> int list) set" where
  "bgv_session_vectors wid vecs =
     insert (bgv_parts wid, bgv_function wid (map padded vecs)) ((\<lambda>v. (2, padded v)) ` set vecs)"

text \<open>The ciphertexts of a request, and a request that the server of \<open>tee-vfhe-bgvrns\<close> can work on.\<close>

definition inputs_arrive_as :: "('g, 'ct) openfhe \<Rightarrow> ('g, 'cc, 'ct) bgv_view \<Rightarrow> bgv_params \<Rightarrow> int list list \<Rightarrow>
    bytes list \<Rightarrow> bool" where
  "inputs_arrive_as L V ps = list_all2 (\<lambda>v b. bgv_arrives L V ps 2 (padded v) (to_string b))"

definition bgv_request :: "('g, 'ct) openfhe \<Rightarrow> ('g, 'cc, 'ct) bgv_view \<Rightarrow> string \<Rightarrow> int list list \<Rightarrow>
    request \<Rightarrow> bool" where
  "bgv_request L V wid vecs rq \<longleftrightarrow> rq_workload rq = wid \<and>
     (\<forall>h. runs (bgv_load_eval_keys L (rq_keys rq)) h (\<lambda>_ h'. \<forall>cc. bw_on V h cc \<subseteq> bw_on V h' cc)) \<and>
     inputs_arrive_as L V bgv_baseline_params vecs (rq_cts rq)"

lemma bgv_make_keys_runs:
  assumes "runs mk g (\<lambda>cc g'. bgv_evaluates B V cc g' \<and> bw_params V cc = ps \<and> {PKE, LEVELEDSHE} \<subseteq> bw_on V g' cc)"
    and "bgv_makes_keys C V"
  shows "runs (bgv_make_keys C mk None) g (\<lambda>(cc, kp) g'. bw_params V cc = ps \<and> PKE \<in> bw_on V g' cc)"
  unfolding bgv_make_keys_def
proof (rule runs_bind [OF assms(1)])
  fix cc g1
  assume cc: "bgv_evaluates B V cc g1 \<and> bw_params V cc = ps \<and> {PKE, LEVELEDSHE} \<subseteq> bw_on V g1 cc"
  then have "runs (bc_keygen C cc) g1 (\<lambda>kp g2. bw_on V g1 cc \<subseteq> bw_on V g2 cc \<and>
      runs (bc_mult_keygen C cc kp) g2 (\<lambda>_ g3. bw_on V g2 cc \<subseteq> bw_on V g3 cc))"
    using assms(2) unfolding bgv_makes_keys_def by blast
  then show "runs (bind_p (bc_keygen C cc) (\<lambda>kp. bind_p (case None of None \<Rightarrow> ret () | Some gk \<Rightarrow> gk cc kp)
      (\<lambda>_. bind_p (bc_mult_keygen C cc kp) (\<lambda>_. ret (cc, kp))))) g1
      (\<lambda>(cc, kp) g'. bw_params V cc = ps \<and> PKE \<in> bw_on V g' cc)"
  proof (rule runs_bind)
    fix kp g2
    assume "bw_on V g1 cc \<subseteq> bw_on V g2 cc \<and> runs (bc_mult_keygen C cc kp) g2 (\<lambda>_ g3. bw_on V g2 cc \<subseteq> bw_on V g3 cc)"
    with cc have on: "PKE \<in> bw_on V g2 cc" and
      run: "runs (bc_mult_keygen C cc kp) g2 (\<lambda>_ g3. bw_on V g2 cc \<subseteq> bw_on V g3 cc)" by auto
    from run show "runs (bind_p (case None of None \<Rightarrow> ret () | Some gk \<Rightarrow> gk cc kp)
        (\<lambda>_. bind_p (bc_mult_keygen C cc kp) (\<lambda>_. ret (cc, kp)))) g2
        (\<lambda>(cc, kp) g'. bw_params V cc = ps \<and> PKE \<in> bw_on V g' cc)"
      by (simp add: bind_p_def runs_def split: prod.splits sum.splits) (use on cc in auto)
  qed
qed

lemma bgv_keys_serialize:
  assumes "bgv_keys_ship L C V cc g"
  obtains mk sk ak where "bc_serialize_mult C cc g = (Inr mk, g)" and "bc_serialize_sum C cc g = (Inr sk, g)"
    and "bc_serialize_auto C cc g = (Inr ak, g)" and "fst sk \<longrightarrow> snd sk = []" and "fst ak \<longrightarrow> snd ak = []"
    and "\<And>h. runs (fl_deserialize_mult L (snd mk)) h (\<lambda>read h'. read \<and> (\<forall>cc. bw_on V h cc \<subseteq> bw_on V h' cc))"
proof -
  obtain mk where "bc_serialize_mult C cc g = (Inr mk, g)"
    "\<forall>h. runs (fl_deserialize_mult L (snd mk)) h (\<lambda>read h'. read \<and> (\<forall>cc. bw_on V h cc \<subseteq> bw_on V h' cc))"
    using assms unfolding bgv_keys_ship_def by (auto elim!: yieldsE)
  moreover obtain sk where "bc_serialize_sum C cc g = (Inr sk, g)" "fst sk \<longrightarrow> snd sk = []"
    using assms unfolding bgv_keys_ship_def by (auto elim!: yieldsE)
  moreover obtain ak where "bc_serialize_auto C cc g = (Inr ak, g)" "fst ak \<longrightarrow> snd ak = []"
    using assms unfolding bgv_keys_ship_def by (auto elim!: yieldsE)
  ultimately show thesis by (blast intro: that)
qed

lemma bgv_keys_load:
  assumes "fst sk \<longrightarrow> snd sk = []" and "fst ak \<longrightarrow> snd ak = []"
    and "\<And>h. runs (fl_deserialize_mult L (snd mk)) h (\<lambda>read h'. read \<and> (\<forall>cc. bw_on V h cc \<subseteq> bw_on V h' cc))"
  shows "runs (bgv_load_eval_keys L (bgv_serialize_all_eval_keys mk sk ak)) h (\<lambda>_ h'. \<forall>cc. bw_on V h cc \<subseteq> bw_on V h' cc)"
proof -
  have "bgv_serialize_all_eval_keys mk sk ak = (if fst mk \<and> snd mk \<noteq> [] then [to_bytes (snd mk)] else [])"
    using assms(1,2) by (auto simp: bgv_serialize_all_eval_keys_def key_blob_def)
  moreover have "runs (for_p (\<lambda>kb. if kb = [] then ret () else load_eval_key L kb) [to_bytes (snd mk)]) h
      (\<lambda>_ h'. \<forall>cc. bw_on V h cc \<subseteq> bw_on V h' cc)" if "snd mk \<noteq> []"
    using assms(3) [of h]
    by (rule runsE) (simp add: that load_eval_key_def Let_def try_p_def bind_p_def runs_def)
  ultimately show ?thesis
    by (simp add: bgv_load_eval_keys_def del: for_p.simps(2))
qed

lemma bgv_blobs_yield:
  assumes "bgv_pair_works C V cc kp" and "bgv_ships L V ps (bgv_session_vectors wid vecs)" and "bw_params V cc = ps"
    and "PKE \<in> bw_on V g cc" and "residue_vectors n vecs"
  shows "yields (bgv_input_blobs C L cc kp vecs) g (inputs_arrive_as L V ps vecs)"
  unfolding bgv_input_blobs_def inputs_arrive_as_def
proof (rule yields_for)
  fix v
  assume v: "v \<in> set vecs"
  then have sent: "(2, padded v) \<in> bgv_session_vectors wid vecs"
    by (simp add: bgv_session_vectors_def)
  have "yields (bind_p (bind_p (bc_pack C cc v) (bc_encrypt C cc kp))
      (\<lambda>ct. bind_p (lift_p (serialize_ciphertext L ct)) (\<lambda>s. ret (to_bytes s)))) g
      (\<lambda>b. bgv_arrives L V ps 2 (padded v) (to_string b))"
  proof (rule yields_bind)
    show "yields (bind_p (bc_pack C cc v) (bc_encrypt C cc kp)) g (\<lambda>c. holds V cc 2 c (padded v))"
      using assms(1,4) residue_vectorsD(2-) [OF assms(5) v] unfolding bgv_pair_works_def by blast
    fix c
    assume "holds V cc 2 c (padded v)"
    from bgv_shipsD [OF assms(2) sent assms(3) this] show
      "yields (bind_p (lift_p (serialize_ciphertext L c)) (\<lambda>s. ret (to_bytes s))) g
        (\<lambda>b. bgv_arrives L V ps 2 (padded v) (to_string b))"
      by (auto simp: yields_def bind_p_def)
  qed
  then show "yields (bind_p (bc_pack C cc v) (\<lambda>pt. bind_p (bc_encrypt C cc kp pt)
      (\<lambda>ct. bind_p (lift_p (serialize_ciphertext L ct)) (\<lambda>s. ret (to_bytes s))))) g
      (\<lambda>b. bgv_arrives L V ps 2 (padded v) (to_string b))"
    by (simp only: bind_p_assoc)
qed

lemma bgv_prepare_runs:
  assumes "bgv_works B V" and "bgv_makes_keys (be_client T) V"
    and "bgv_session_keys (be_lib T) (be_client T) (make_bgv_baseline_context B) V g"
    and "draws_residues (be_rng T)" and "s \<in> set bgv_kWorkloads" and "co_workload opts = ws_id s"
    and "bgv_ships (be_lib T) V bgv_baseline_params
      (bgv_session_vectors (ws_id s) (bgv_input_vectors (be_rng T) (Some s)))"
  shows "runs (bgv_prepare T opts (bgv_entry B eval)) g (\<lambda>(rq, cc, kp) _.
    bgv_pair_works (be_client T) V cc kp \<and> bw_params V cc = bgv_baseline_params \<and>
    bgv_request (be_lib T) V (ws_id s) (bgv_input_vectors (be_rng T) (Some s)) rq)"
proof -
  let ?C = "be_client T" and ?L = "be_lib T" and ?vecs = "bgv_input_vectors (be_rng T) (Some s)"
  have "runs (make_bgv_baseline_context B) g (\<lambda>cc g'. bgv_evaluates B V cc g' \<and> bw_params V cc = bgv_baseline_params \<and>
      {PKE, LEVELEDSHE} \<subseteq> bw_on V g' cc)"
    unfolding make_bgv_baseline_context_def by (rule baseline_context_runs [OF assms(1)]) simp
  from bgv_make_keys_runs [OF this assms(2)] obtain cc kp g1 where
    mk: "bgv_make_keys ?C (make_bgv_baseline_context B) None g = (Inr (cc, kp), g1)"
    and ps: "bw_params V cc = bgv_baseline_params" and on: "PKE \<in> bw_on V g1 cc"
    by (rule runsE) auto
  from assms(3) mk have pair: "bgv_pair_works ?C V cc kp" and keys: "bgv_keys_ship ?L ?C V cc g1"
    unfolding bgv_session_keys_def by blast+
  obtain m sk ak where ser: "bc_serialize_mult ?C cc g1 = (Inr m, g1)" "bc_serialize_sum ?C cc g1 = (Inr sk, g1)"
      "bc_serialize_auto ?C cc g1 = (Inr ak, g1)" and none: "fst sk \<longrightarrow> snd sk = []" "fst ak \<longrightarrow> snd ak = []"
    and read: "\<And>h. runs (fl_deserialize_mult ?L (snd m)) h (\<lambda>read h'. read \<and> (\<forall>cc. bw_on V h cc \<subseteq> bw_on V h' cc))"
    by (rule bgv_keys_serialize [OF keys]) (rule that; assumption)
  obtain blobs where b: "bgv_input_blobs ?C ?L cc kp ?vecs g1 = (Inr blobs, g1)"
    "inputs_arrive_as ?L V bgv_baseline_params ?vecs blobs"
    using bgv_blobs_yield [OF pair assms(7) ps on bgv_inputs(1) [OF assms(5,4)]] by (rule yieldsE)
  let ?rq = "\<lparr>rq_nonce = random_nonce 16 (be_urandom T), rq_keys = bgv_serialize_all_eval_keys m sk ak,
    rq_cts = blobs, rq_workload = ws_id s\<rparr>"
  have "bgv_prepare T opts (bgv_entry B eval) g = (Inr (?rq, cc, kp), g1)"
    by (simp add: bgv_prepare_def bgv_entry_def Let_def assms(6) bgv_specs(1) [OF assms(5)] mk ser b(1) bind_p_run(1))
  moreover have "bgv_request ?L V (ws_id s) ?vecs ?rq"
    using bgv_keys_load [OF none read] b(2) by (simp add: bgv_request_def)
  ultimately show ?thesis
    using pair ps by (simp add: runs_def)
qed

section \<open>The server evaluates\<close>

definition bgv_server_registry :: "('g, 'cc, 'ct) bgv \<Rightarrow> ('g, 'cc, 'ct) workload registry" where
  "bgv_server_registry B = (\<lambda>wid. map_option workload.truncate
     (bgv_registry B wid :: ('g, 'cc, 'ct, unit) keyed_workload option))"

lemma bgv_inputs_load:
  assumes "inputs_arrive_as L V ps vecs blobs" and "bw_params V cc = ps"
  shows "yields (load_inputs L blobs) g (\<lambda>ins. fresh_inputs V cc ins (map padded vecs))"
  using assms(1) unfolding inputs_arrive_as_def
proof (induction rule: list_all2_induct)
  case Nil
  then show ?case by (simp add: load_inputs_def fresh_inputs_def yields_def)
next
  case (Cons v vecs b blobs)
  have "yields (deserialize_ciphertext L (to_string b)) g (\<lambda>c. holds V cc 2 c (padded v))"
    using Cons.hyps(1) assms(2) by (simp add: bgv_arrives_def)
  then show ?case
    unfolding load_inputs_def for_p.simps
    by (rule yields_bind, intro yields_bind [OF Cons.IH [unfolded load_inputs_def]])
      (simp add: fresh_inputs_def)
qed

text \<open>The output of a circuit on the inputs of a request is written, and arrives.\<close>

lemma output_arrives:
  assumes "holds_function B wid eval" and "bgv_evaluates B V cc g" and "fresh_inputs V cc ins (map padded vecs)"
    and "length vecs = bgv_arity wid" and "bgv_ships L V ps (bgv_session_vectors wid vecs)" and "bw_params V cc = ps"
  obtains out t where "eval cc ins g = (Inr out, g)" and "serialize_ciphertext L out = Inr t"
    and "bgv_arrives L V ps (bgv_parts wid) (bgv_function wid (map padded vecs)) t"
proof -
  have "length (map padded vecs) = bgv_arity wid" by (simp add: assms(4))
  from holds_functionD [OF assms(1-3) this] obtain out where 1: "eval cc ins g = (Inr out, g)"
    "holds V cc (bgv_parts wid) out (bgv_function wid (map padded vecs))"
    by (rule yieldsE)
  have "(bgv_parts wid, bgv_function wid (map padded vecs)) \<in> bgv_session_vectors wid vecs"
    by (simp add: bgv_session_vectors_def)
  from bgv_shipsD [OF assms(5) this assms(6) 1(2)] that [OF 1(1)] show thesis by blast
qed

lemma bgv_evaluates_request:
  fixes B :: "('g, 'cc, 'ct) bgv"
  assumes "bgv_works B V" and "wid \<in> bgv_ids" and "length vecs = bgv_arity wid" and "bgv_request L V wid vecs rq"
    and "bgv_ships L V bgv_baseline_params (bgv_session_vectors wid vecs)"
  shows "\<exists>t sg'. evaluates bgv_load_eval_keys L (bgv_server_registry B) rq sg t sg' \<and>
    bgv_arrives L V bgv_baseline_params (bgv_parts wid) (bgv_function wid (map padded vecs)) t"
proof -
  obtain eval where reg: "bgv_registry B wid = Some (bgv_entry B eval :: ('g, 'cc, 'ct, unit) keyed_workload)"
    and circuit: "holds_function B wid eval"
    by (rule bgv_registered_circuit [OF assms(2)]) (rule that; assumption)
  note rq = assms(4) [unfolded bgv_request_def]
  obtain cc g1 where 1: "make_bgv_baseline_context B sg = (Inr cc, g1)" "bw_params V cc = bgv_baseline_params"
      "LEVELEDSHE \<in> bw_on V g1 cc"
    using baseline_context_runs [OF assms(1), of bgv_baseline_params sg]
    unfolding make_bgv_baseline_context_def by (auto elim!: runsE)
  obtain ks g2 where 2: "bgv_load_eval_keys L (rq_keys rq) g1 = (Inr ks, g2)" "bw_on V g1 cc \<subseteq> bw_on V g2 cc"
    using rq by (elim conjE allE [of _ g1]) (auto elim!: runsE)
  have ev: "bgv_evaluates B V cc g2"
    by (rule bgv_worksD(3) [OF assms(1)]) (use 1 2 in \<open>auto simp: bgv_baseline_params_def\<close>)
  obtain ins where 3: "load_inputs L (rq_cts rq) g2 = (Inr ins, g2)" "fresh_inputs V cc ins (map padded vecs)"
    using bgv_inputs_load [OF _ 1(2), of L vecs "rq_cts rq" g2] rq by (auto elim!: yieldsE)
  obtain out t where 4: "eval cc ins g2 = (Inr out, g2)" "serialize_ciphertext L out = Inr t"
    "bgv_arrives L V bgv_baseline_params (bgv_parts wid) (bgv_function wid (map padded vecs)) t"
    using output_arrives [OF circuit ev 3(2) assms(3,5) 1(2)] .
  have "evaluates bgv_load_eval_keys L (bgv_server_registry B) rq sg t g2"
    unfolding evaluates_def bgv_server_registry_def
    by (rule exI [of _ "workload.truncate (bgv_entry B eval :: ('g, 'cc, 'ct, unit) keyed_workload)"])
      (simp add: rq reg bgv_entry_def workload.truncate_def 1(1) 2(1) 3(1) 4(1,2))
  with 4(3) show ?thesis by blast
qed

section \<open>The session\<close>

text \<open>
  What the handler answers from the state \<open>sg\<close> reaches the client; the two sides agree on hash and JSON
  library; request and answer fit into the message format, and the quote verifies against \<open>mr\<close>.
\<close>

definition bgv_serves :: "('g, 'cc, 'ct, 'pt, 'sk, 's, 'h) bgv_client_env \<Rightarrow> ('g, 'cc, 'ct) bgv \<Rightarrow> 'h platform \<Rightarrow>
    durations \<Rightarrow> 'g \<Rightarrow> string \<Rightarrow> 16 word \<Rightarrow> bool" where
  "bgv_serves T B P D sg host port \<longleftrightarrow> (\<forall>b resp sg'.
     bgv_handle_client P D (be_lib T) (bgv_server_registry B) (Inr b) sg = (Inr (Some resp), sg') \<longrightarrow>
     be_exchange T host port b = Inr resp)"

definition bgv_same_libraries :: "('g, 'cc, 'ct, 'pt, 'sk, 's, 'h) bgv_client_env \<Rightarrow> 'h platform \<Rightarrow> bool" where
  "bgv_same_libraries T P \<longleftrightarrow> be_b3 T = pf_b3 P \<and> b3_sized (pf_b3 P) \<and> ve_json (be_verifier T) = pf_json P"

definition bgv_session_fits :: "('g, 'cc, 'ct, 'pt, 'sk, 's, 'h) bgv_client_env \<Rightarrow> 'h platform \<Rightarrow> durations \<Rightarrow>
    string \<Rightarrow> request \<Rightarrow> bytes \<Rightarrow> bool" where
  "bgv_session_fits T P D mr rq out \<longleftrightarrow> request_ok (pf_alloc P) rq \<and> length (build_request rq) < 2 ^ 64 \<and>
     json_session (pf_json P) (bgv_transcript_members (bgv_server_transcript P D rq out)) \<and>
     quote_works (pf_tdx P) (be_verifier T) mr (bgv_compute_transcript_hash (pf_b3 P) (pf_json P)
       (bgv_server_transcript P D rq out)) \<and>
     length (bgv_evaluated_response P D rq out) < 2 ^ 64"

text \<open>The client's options and the requests that its preparation can lead to.\<close>

definition workload_options :: "string \<Rightarrow> string \<Rightarrow> client_options" where
  "workload_options wid mr = \<lparr>co_host = ''127.0.0.1'', co_port = 8080, co_workload = wid, co_mr_td = mr\<rparr>"

definition bgv_sessions_fit :: "('g, 'cc, 'ct, 'pt, 'sk, 's, 'h) bgv_client_env \<Rightarrow> ('g, 'cc, 'ct) bgv \<Rightarrow>
    'h platform \<Rightarrow> durations \<Rightarrow> 'g \<Rightarrow> string \<Rightarrow> string \<Rightarrow> 'g \<Rightarrow> bool" where
  "bgv_sessions_fit T B P D sg wid mr g \<longleftrightarrow> (\<forall>w rq k g' t sg'. bgv_registry B wid = Some w \<longrightarrow>
     bgv_prepare T (workload_options wid mr) w g = (Inr (rq, k), g') \<longrightarrow>
     evaluates bgv_load_eval_keys (be_lib T) (bgv_server_registry B) rq sg t sg' \<longrightarrow>
     bgv_session_fits T P D mr rq (to_bytes t))"

lemma bgv_handle_client_evaluates:
  assumes "request_ok (pf_alloc P) rq" and "length (build_request rq) < 2 ^ 64"
    and "evaluates bgv_load_eval_keys L reg rq g s g'"
  shows "bgv_handle_client P D L reg (Inr (build_request rq)) g =
    (Inr (Some (bgv_evaluated_response P D rq (to_bytes s))), g')"
proof -
  have "parse_request (pf_alloc P) (build_request rq) = Inr rq"
    by (rule tee_request.parse_build [OF assms(1,2)])
  then show ?thesis
    using evaluate_request_ok [OF assms(3)]
    by (simp add: bgv_handle_client_def try_then_def reply_def)
qed

lemma bgv_parts_le: "bgv_parts wid \<le> 3"
  by (simp add: bgv_parts_def)

text \<open>Decryption of the output of a workload prints the first slots of its function.\<close>

lemma bgv_finish_yields:
  assumes "bgv_pair_works C V cc kp" and "bw_params V cc = ps" and "bp_batch ps = 4096"
    and "bgv_arrives L V ps (bgv_parts wid) (bgv_function wid (map padded vecs)) t"
    and "wid \<in> bgv_ids" and "length vecs = bgv_arity wid" and "residue_vectors n vecs"
  shows "yields (bgv_finish C L n (cc, kp) (to_bytes t)) g (\<lambda>r. r = map centered (take 8 (bgv_function wid vecs)))"
proof -
  let ?v = "bgv_function wid (map padded vecs)"
  have "yields (deserialize_ciphertext L t) g (\<lambda>c. holds V cc (bgv_parts wid) c ?v)"
    using assms(2,4) by (simp add: bgv_arrives_def)
  then show ?thesis
    unfolding bgv_finish_def prod.case to_string_to_bytes
  proof (rule yields_bind)
    fix c
    assume c: "holds V cc (bgv_parts wid) c ?v"
    have "length ?v = 4096"
      using c assms(2,3) by (simp add: holds_def)
    with assms(7) have "n \<le> length ?v" by (simp add: residue_vectors_def)
    with assms(1) c bgv_parts_le have "yields (bc_decrypt C cc kp c n) g (\<lambda>dec. dec = map centered (take n ?v))"
      unfolding bgv_pair_works_def by simp
    then show "yields (bind_p (bc_decrypt C cc kp c n) (\<lambda>dec. ret (take 8 dec))) g
        (\<lambda>r. r = map centered (take 8 (bgv_function wid vecs)))"
      by (rule yields_bind) (simp add: bgv_function_padded [OF assms(5-7)] take_map)
  qed
qed

lemma bgv_program_releases:
  fixes T :: "('g, 'cc, 'ct, 'pt, 'sk, 's, 'h) bgv_client_env" and B :: "('g, 'cc, 'ct) bgv"
  assumes "bgv_works B V" and "bgv_makes_keys (be_client T) V"
    and "bgv_session_keys (be_lib T) (be_client T) (make_bgv_baseline_context B) V g"
    and "draws_residues (be_rng T)" and "s \<in> set bgv_kWorkloads"
    and "bgv_ships (be_lib T) V bgv_baseline_params
      (bgv_session_vectors (ws_id s) (bgv_input_vectors (be_rng T) (Some s)))"
    and reg: "bgv_registry B (ws_id s) = Some (bgv_entry B eval :: ('g, 'cc, 'ct, 'sk) keyed_workload)"
    and "bgv_serves T B P D sg ''127.0.0.1'' 8080" and "bgv_same_libraries T P"
    and "bgv_sessions_fit T B P D sg (ws_id s) mr g"
  shows "\<exists>g'. released (bgv_prepare T (workload_options (ws_id s) mr) (bgv_entry B eval)) build_request
    (be_exchange T ''127.0.0.1'' 8080) (bgv_check_response (be_b3 T) (be_verifier T) mr)
    (bgv_finish (be_client T) (be_lib T) (bgv_output_length (ws_id s))) g
    (map centered (take 8 (bgv_function (ws_id s) (bgv_input_vectors (be_rng T) (Some s))))) g'"
proof -
  let ?vecs = "bgv_input_vectors (be_rng T) (Some s)"
  have wid: "co_workload (workload_options (ws_id s) mr) = ws_id s" by (simp add: workload_options_def)
  note spec = bgv_specs [OF assms(5)] and ins = bgv_inputs [OF assms(5,4)]
  obtain rq cc kp g1 where prep: "bgv_prepare T (workload_options (ws_id s) mr) (bgv_entry B eval) g = (Inr (rq, cc, kp), g1)"
    and pair: "bgv_pair_works (be_client T) V cc kp" and ps: "bw_params V cc = bgv_baseline_params"
    and rq: "bgv_request (be_lib T) V (ws_id s) ?vecs rq"
    using bgv_prepare_runs [OF assms(1-5) wid assms(6), of eval] by (rule runsE) auto
  obtain t sg' where ev: "evaluates bgv_load_eval_keys (be_lib T) (bgv_server_registry B) rq sg t sg'"
    and arrives: "bgv_arrives (be_lib T) V bgv_baseline_params (bgv_parts (ws_id s))
      (bgv_function (ws_id s) (map padded ?vecs)) t"
    using bgv_evaluates_request [OF assms(1) spec(4) ins(2) rq assms(6)] by blast
  have fit: "bgv_session_fits T P D mr rq (to_bytes t)"
    using assms(10) reg prep ev unfolding bgv_sessions_fit_def by blast
  note same = assms(9) [unfolded bgv_same_libraries_def]
  have sent: "be_exchange T ''127.0.0.1'' 8080 (build_request rq) = Inr (bgv_evaluated_response P D rq (to_bytes t))"
    using bgv_handle_client_evaluates [OF _ _ ev] fit assms(8) unfolding bgv_serves_def bgv_session_fits_def by blast
  have checked: "bgv_check_response (be_b3 T) (be_verifier T) mr rq (bgv_evaluated_response P D rq (to_bytes t)) =
      Inr (Some (to_bytes t))"
    using bgv_honest_response_accepted [of P D rq "to_bytes t" "be_verifier T" mr] fit same
    unfolding bgv_session_fits_def by simp
  have n: "bgv_output_length (ws_id s) = nat (ws_slots s)"
    by (simp add: bgv_output_length_def spec(1))
  have "bp_batch bgv_baseline_params = 4096" by (simp add: bgv_baseline_params_def)
  from bgv_finish_yields [OF pair ps this arrives spec(4) ins(2,1)] obtain r where
    "bgv_finish (be_client T) (be_lib T) (bgv_output_length (ws_id s)) (cc, kp) (to_bytes t) g1 = (Inr r, g1)"
    "r = map centered (take 8 (bgv_function (ws_id s) ?vecs))"
    unfolding n by (rule yieldsE)
  then show ?thesis
    unfolding released_def using prep sent checked by blast
qed

end
