(* ===== verification/Examples_Training.thy ===== *)
theory Examples_Training
  imports Session_Training Properties_Circuits Examples
begin

text \<open>
  A concrete session of training: the ideal CKKS, ciphertexts written as entries of a code book, a
  file whose cells are ones, a server that answers with the handler of \<open>tee-vfhe\<close>, and a JSON library
  and a DCAP library that know the transcript of this session.
\<close>

section \<open>A session over the ideal library\<close>

text \<open>Ciphertexts are written as the index of their slots in a code book, and one letter per level.\<close>

definition book_index :: "real list list \<Rightarrow> real list \<Rightarrow> nat" where
  "book_index vs v = length (takeWhile (\<lambda>w. w \<noteq> v) vs)"

lemma book_index: "v \<in> set vs \<Longrightarrow> book_index vs v < length vs \<and> vs ! book_index vs v = v"
proof (induction vs)
  case (Cons w vs)
  then show ?case by (cases "w = v") (simp_all add: book_index_def)
qed simp

definition book_lib :: "real list list \<Rightarrow> (ideal_state, ideal_ct) openfhe" where
  "book_lib vs = \<lparr>
     fl_deserialize_mult = (\<lambda>s g. if s = ''m'' then (Inr True, g\<lparr>id_mult := True\<rparr>)
       else (throw (Lib_error ''mult''), g)),
     fl_deserialize_sum = (\<lambda>s g. (throw (Lib_error ''sum''), g)),
     fl_deserialize_auto = (\<lambda>s g. if s = ''a'' then (Inr True, g\<lparr>id_rotations := logistic_rotations @ id_rotations g\<rparr>)
       else (throw (Lib_error ''auto''), g)),
     fl_deserialize_ct = (\<lambda>s. case s of [] \<Rightarrow> raise (Throw (Lib_error ''empty''))
       | c # xs \<Rightarrow> ret (ideal_ct (vs ! of_char c) (length xs) 1)),
     fl_serialize_ct = (\<lambda>c. if ic_slots c \<in> set vs \<and> ic_level c < 100
       then Inr (char_of (book_index vs (ic_slots c)) # replicate (ic_level c) (CHR ''x''))
       else throw (Lib_error ''unknown''))\<rparr>"

lemma book_ships:
  assumes "length vs < 256" and "cp_depth ps < 100"
  shows "ships (book_lib vs) ideal_view ps (set vs)"
proof -
  have "\<exists>s. serialize_ciphertext (book_lib vs) c = Inr s \<and> (\<forall>cc' g. vs_params ideal_view cc' = ps \<longrightarrow>
      yields (deserialize_ciphertext (book_lib vs) s) g (\<lambda>c'. carries ideal_view cc' c' v l))"
    if v: "v \<in> set vs" "l \<le> cp_depth ps" "vs_params ideal_view cc = ps" "carries ideal_view cc c v l" for c v l cc
  proof -
    have "(of_char (char_of (book_index vs v) :: char) :: nat) = book_index vs v"
      using book_index [OF v(1)] assms(1) by (simp add: take_bit_nat_def)
    with book_index [OF v(1)] v assms(2) show ?thesis
      by (simp add: serialize_ciphertext_def deserialize_ciphertext_def book_lib_def carries_def ideal_view_def)
  qed
  then show ?thesis unfolding ships_def by blast
qed

lemma book_text:
  assumes "serialize_ciphertext (book_lib vs) c = Inr s"
  shows "length s \<le> 100"
  using assms by (auto simp: serialize_ciphertext_def book_lib_def split: if_splits)

definition training_vectors :: "(real list \<times> real) list \<Rightarrow> real list list" where
  "training_vectors rows = weight_slots (train (row_features rows) (row_labels rows) (\<lambda>_. 0) lr_kNumIterations) #
     batch_list (row_features rows) (row_labels rows) (\<lambda>_. 0)"

lemma training_vectors: "set (training_vectors rows) = session_vectors rows" "length (training_vectors rows) = 22"
  by (simp_all add: training_vectors_def session_vectors_def lr_kNumInputs_def)

text \<open>The documents of a session with a transcript whose members are \<open>m\<close>, and \<open>u\<close> without its durations.\<close>

definition session_json :: "(string \<times> json) list \<Rightarrow> (string \<times> json) list \<Rightarrow> json_lib" where
  "session_json m u = json_table
     [(''timed'', JObj m), (''untimed'', JObj u),
      (''P'', JObj [(''appraisal_result'', JStr ''A'')]),
      (''A'', JArr [JObj [(''result'', JObj [(''appraised_reports'', JArr
         [JObj [(''report'', JObj [(''measurement'', ex_measurement ex_digest)])]])])]])]"

definition session_verifier :: "json_lib \<Rightarrow> verifier_env" where
  "session_verifier J = (ex_verifier ex_digest)\<lparr>ve_json := J\<rparr>"

definition session_platform :: "json_lib \<Rightarrow> bytes platform" where
  "session_platform J = (ex_platform ex_digest)\<lparr>pf_json := J\<rparr>"

lemma session_sel [simp]:
  "pf_b3 (session_platform J) = ex_b3" "pf_json (session_platform J) = J" "pf_tdx (session_platform J) = Inr"
  "pf_alloc (session_platform J) = (\<lambda>n. n < 1000)" "ve_json (session_verifier J) = J"
  by (simp_all add: session_platform_def session_verifier_def)

lemma session_dump:
  assumes "m \<noteq> u"
  shows "js_dump (session_json m u) (JObj m) = ''timed''" "js_dump (session_json m u) (JObj u) = ''untimed''"
  using assms by (simp_all add: session_json_def json_table_def)

lemma session_json_session:
  assumes "m \<noteq> u"
  shows "json_session (session_json m u) m"
proof -
  have "\<not> contains_text error_mark ''timed''" by code_simp
  moreover have "js_parse (session_json m u) ''timed'' = Inr (JObj m)"
    by (simp add: session_json_def json_table_def)
  ultimately show ?thesis
    using session_dump(1) [OF assms]
    by (simp add: json_session_def json_text_def session_json_def json_members_table)
qed

lemma untimed_digest: "blake3_hash ex_b3 (to_bytes ''untimed'') = ex_digest"
  by (simp add: ex_digest_def ex_b3_def blake3_hash_def Let_def to_bytes_def)

lemma session_quote: "quote_works Inr (session_verifier (session_json m u)) ''ab'' ex_digest"
proof -
  let ?q = "report_data ex_digest"
  have "quote_measurement (session_verifier (session_json m u)) ?q = Inr (Some (ex_measurement ex_digest))"
    by (simp add: quote_measurement_def session_verifier_def ex_verifier_def ex_dcap_def jwt_payload_def to_bytes_def
        to_string_def base64url_decode_def b64_decode_def b64_pad_def session_json_def json_table_def
        ex_measurement_def Let_def b64url_char_def report_data_def)
  moreover have "js_value_str (session_json m u) (ex_measurement ex_digest) ''tdx_reportdata'' [] =
      Inr (to_hex (rev (report_data ex_digest)))"
    "js_value_str (session_json m u) (ex_measurement ex_digest) ''tdx_mrtd'' [] = Inr ''AB''"
    by (simp_all add: session_json_def json_table_def ex_measurement_def)
  moreover have "length (to_hex (rev (report_data ex_digest))) = 128"
    by (simp add: report_data_def)
  then have "to_hex (rev (report_data ex_digest)) \<noteq> []"
    by (metis list.size(3) zero_neq_numeral)
  moreover have "to_lower ''AB'' = to_lower ''ab''"
    by code_simp
  ultimately have "attests (session_verifier (session_json m u)) ?q (to_hex (rev ?q)) ''ab''"
    unfolding attests_def by auto
  then show ?thesis
    unfolding quote_works_def by (intro exI [of _ ?q]) (simp add: generate_tdx_quote_def)
qed

text \<open>The session of \<open>tee-vfhe\<close> with the transcript \<open>t\<close>.\<close>

definition book_json :: "transcript \<Rightarrow> json_lib" where
  "book_json t = session_json (transcript_members t) (transcript_members (untimed t))"

abbreviation book_verifier :: "transcript \<Rightarrow> verifier_env" where
  "book_verifier t \<equiv> session_verifier (book_json t)"

abbreviation book_platform :: "transcript \<Rightarrow> bytes platform" where
  "book_platform t \<equiv> session_platform (book_json t)"

lemma book_members:
  assumes "tr_fhe_eval_us t \<noteq> 0"
  shows "transcript_members t \<noteq> transcript_members (untimed t)"
  using assms by (simp add: transcript_members_def evidence_members_def untimed_def)

lemma book_session: "tr_fhe_eval_us t \<noteq> 0 \<Longrightarrow> json_session (book_json t) (transcript_members t)"
  unfolding book_json_def by (rule session_json_session [OF book_members])

lemma book_dump:
  assumes "tr_fhe_eval_us t \<noteq> 0"
  shows "to_json (book_json t) t = ''timed''" "to_json (book_json t) (untimed t) = ''untimed''"
  unfolding to_json_def book_json_def by (rule session_dump [OF book_members [OF assms]])+

lemma book_digest:
  assumes "tr_fhe_eval_us t \<noteq> 0"
  shows "compute_transcript_hash ex_b3 (book_json t) t = ex_digest"
  by (simp add: compute_transcript_hash_untimed book_dump(2) [OF assms] untimed_digest)

lemma book_quote: "quote_works Inr (book_verifier t) ''ab'' ex_digest"
  unfolding book_json_def by (rule session_quote)


text \<open>The client and its server; the server starts from the state of a fresh process.\<close>

definition ones_data :: "(real list \<times> real) list" where
  "ones_data = map (\<lambda>_. (replicate 196 1 @ replicate 60 0, 1)) (take 1280 ones_file)"

definition training_lib :: "(ideal_state, ideal_ct) openfhe" where
  "training_lib = book_lib (training_vectors ones_data)"

definition training_server :: "transcript \<Rightarrow> bytes \<Rightarrow> bytes result" where
  "training_server t b = (case fst (handle_client (book_platform t) ex_durations training_lib
      (tee_server_registry ones_rng ideal_ckks) (Inr b) ideal_start) of
     Inr (Some resp) \<Rightarrow> Inr resp | _ \<Rightarrow> throw (Runtime_error ''recv failed''))"

definition training_env ::
    "transcript \<Rightarrow> (ideal_state, cc_params, ideal_ct, real list \<times> nat, unit, unit, bytes) client_env" where
  "training_env t = \<lparr>ce_ckks = ideal_ckks, ce_lib = training_lib, ce_serialize_mult = ret (True, ''m''),
     ce_serialize_auto = ret (True, ''a''), ce_decrypt = (\<lambda>_ _ c. ret (take 256 (ic_slots c))),
     ce_registry = tee_registry ones_rng ideal_ckks, ce_rng = ones_rng, ce_stoi = (\<lambda>_. throw (Invalid_argument ''stoi'')),
     ce_stod = (\<lambda>_. Inr 1), ce_csv = Some ones_file, ce_urandom = None,
     ce_exchange = (\<lambda>_ _. training_server t), ce_b3 = ex_b3, ce_verifier = book_verifier t\<rparr>"

lemma training_env_sel [simp]:
  "ce_ckks (training_env t) = ideal_ckks" "ce_lib (training_env t) = training_lib"
  "ce_registry (training_env t) = tee_registry ones_rng ideal_ckks" "ce_rng (training_env t) = ones_rng"
  "ce_stod (training_env t) = (\<lambda>_. Inr 1)" "ce_csv (training_env t) = Some ones_file"
  "ce_b3 (training_env t) = ex_b3" "ce_verifier (training_env t) = book_verifier t"
  "ce_exchange (training_env t) host port = training_server t" "ce_urandom (training_env t) = None"
  "ce_serialize_mult (training_env t) = ret (True, ''m'')" "ce_serialize_auto (training_env t) = ret (True, ''a'')"
  by (simp_all add: training_env_def)

lemma training_env_ships: "ships training_lib ideal_view logistic_params (session_vectors ones_data)"
  unfolding training_lib_def training_vectors(1) [symmetric]
  by (rule book_ships) (simp_all add: training_vectors logistic_params_def set_params_def lr_kMultDepth_def)

lemma training_env_keys: "keys_ship (training_env t) ideal_view (set logistic_rotations)"
  unfolding keys_ship_def mult_text_def rotation_text_def declines_def
  by (simp add: training_env_def training_lib_def book_lib_def runs_def keeps_def keeps_but_rotations_def
      ideal_view_def)

lemma training_env_decrypts: "decrypts (training_env t) ideal_view"
  by (simp add: decrypts_def training_env_def carries_def ideal_view_def)

lemma training_env_serves: "serves (training_env t) (book_platform t) ex_durations ideal_start host port"
  by (simp add: serves_def training_server_def)

lemma training_env_rows:
  "map_r (read_row (ce_stod (training_env t)) 0) (take 1280 ones_file) = Inr ones_data" "length ones_data = 1280"
  unfolding ones_data_def training_env_sel by (rule ones_rows)+

text \<open>What is prepared does not depend on the transcript to come.\<close>

lemma training_prepare: "tee_prepare (training_env t) = tee_prepare (training_env t')"
  by (intro ext) (simp add: tee_prepare_def ckks_input_blobs_def ckks_blobs_def cong: if_cong)

text \<open>The request is small: a nonce of 16 bytes, two keys of a letter, 21 ciphertexts of at most 100 bytes.\<close>

lemma training_request_small:
  assumes "tee_prepare (training_env t) opts w g = (Inr (rq, k), g')" and "co_workload opts = ''logistic-regression''"
  shows "length (rq_nonce rq) = 16" and "rq_keys rq = [to_bytes ''m'', to_bytes ''a'']" and "length (rq_cts rq) = 21"
    and "\<forall>b\<in>set (rq_cts rq). length b \<le> 100" and "rq_workload rq = ''logistic-regression''"
proof -
  from assms(1) obtain cc kp g1 blobs g2 where k: "k = (cc, kp)"
    and b: "ckks_input_blobs (training_env t) (co_workload opts) cc kp g1 = (Inr blobs, g2)"
    and rq: "rq = \<lparr>rq_nonce = random_nonce 16 None, rq_keys = serialize_all_eval_keys (True, ''m'') (True, ''a''),
      rq_cts = blobs, rq_workload = co_workload opts\<rparr>"
    unfolding tee_prepare_def by (auto elim!: bind_p_cases simp: Let_def)
  from b obtain ins g3 where i: "gen_logreg_inputs (\<lambda>_. Inr 1) (Some ones_file) ideal_ckks cc kp g1 = (Inr ins, g3)"
    and f: "for_p (\<lambda>ct. bind_p (lift_p (serialize_ciphertext training_lib ct)) (\<lambda>s. ret (to_bytes s))) ins g3 = (Inr blobs, g2)"
    by (auto simp: ckks_input_blobs_def ckks_blobs_def assms(2) elim!: bind_p_cases)
  have "length ins = 21"
    using i unfolding gen_logreg_inputs_def encrypt_logreg_inputs_def
    by (auto simp: logreg_vectors_def bind_r_def kNumBatches_def split: if_splits sum.splits elim!: bind_p_cases dest!: for_p_length)
  with for_p_length [OF f] show "length (rq_cts rq) = 21" by (simp add: rq)
  have "length b \<le> 100" if "b \<in> set blobs" for b
  proof (rule for_p_all [OF f _ that])
    fix c h y h'
    assume "bind_p (lift_p (serialize_ciphertext training_lib c)) (\<lambda>s. ret (to_bytes s)) h = (Inr y, h')"
    then obtain s where "serialize_ciphertext training_lib c = Inr s" "y = to_bytes s"
      by (auto elim!: bind_p_cases)
    with book_text [of "training_vectors ones_data" c s] show "length y \<le> 100"
      by (simp add: training_lib_def)
  qed
  then show "\<forall>b\<in>set (rq_cts rq). length b \<le> 100" by (simp add: rq)
  show "length (rq_nonce rq) = 16" "rq_keys rq = [to_bytes ''m'', to_bytes ''a'']"
    "rq_workload rq = ''logistic-regression''"
    by (simp_all add: rq random_nonce_def serialize_all_eval_keys_def key_blob_def assms(2))
qed

lemma concat_blob_bytes: "length (concat (map blob_bytes bs)) = 8 * length bs + sum_list (map length bs)"
  by (induction bs) (simp_all add: blob_bytes_def)

lemma sum_length_le: "\<forall>b\<in>set bs. length b \<le> m \<Longrightarrow> sum_list (map length bs) \<le> m * length bs"
  by (induction bs) auto

lemma training_evaluates_small:
  assumes "evaluates load_eval_keys training_lib reg rq g s g'"
  shows "length s \<le> 100"
  using assms unfolding evaluates_def training_lib_def by (blast intro: book_text)

lemma training_fits:
  assumes "tee_prepare (training_env t) opts w g = (Inr (rq, k), g')" and "co_workload opts = ''logistic-regression''"
    and "length s \<le> 100" and t: "t = server_transcript (book_platform t) ex_durations rq (to_bytes s)"
  shows "session_fits (training_env t) (book_platform t) ex_durations ''ab'' rq (to_bytes s)"
proof -
  note small = training_request_small [OF assms(1,2)]
  from sum_length_le [OF small(4)] have "length (build_request rq) < 2 ^ 64"
    using small(1,2,3,5) by (simp add: build_bytes counted_bytes_def string_bytes_def blob_bytes_def concat_blob_bytes)
  moreover have "request_ok (pf_alloc (book_platform t)) rq"
    using small(2,3) by (simp add: request_ok_def counted_ok_def)
  moreover have timed: "tr_fhe_eval_us t \<noteq> 0"
    by (subst t) (simp add: server_transcript_def ex_durations_def micros_def)
  moreover have "length (evaluated_response (book_platform t) ex_durations rq (to_bytes s)) < 2 ^ 64"
    using assms(3) unfolding evaluated_response_eq t [symmetric]
    by (simp add: book_dump(1) [OF timed] generate_tdx_quote_def quote_or_empty_def build_bytes string_bytes_def
        report_data_def book_digest [OF timed] blob_bytes_def)
  ultimately show ?thesis
    unfolding session_fits_def t [symmetric]
    by (simp add: book_session book_digest book_quote)
qed


text \<open>The transcript of the session, which the JSON library of the session has in its table.\<close>

lemma training_transcript:
  obtains t where "\<forall>rq k g' s sg'. tee_prepare (training_env t) (training_options ''ab'') (logistic_workload ideal_ckks)
      ideal_start = (Inr (rq, k), g') \<longrightarrow> evaluates load_eval_keys training_lib (tee_server_registry ones_rng ideal_ckks)
      rq ideal_start s sg' \<longrightarrow> session_fits (training_env t) (book_platform t) ex_durations ''ab'' rq (to_bytes s)"
proof -
  let ?prep = "\<lambda>t. tee_prepare (training_env t) (training_options ''ab'') (logistic_workload ideal_ckks) ideal_start"
  let ?ev = "\<lambda>rq s sg'. evaluates load_eval_keys training_lib (tee_server_registry ones_rng ideal_ckks) rq ideal_start s sg'"
  have same: "?prep t = ?prep t'" for t t' using training_prepare by metis
  have wid: "co_workload (training_options ''ab'') = ''logistic-regression''" by (simp add: training_options_def)
  show thesis
  proof (cases "\<exists>rq k g' s sg'. ?prep ex_transcript = (Inr (rq, k), g') \<and> ?ev rq s sg'")
    case True
    then obtain rq k g' s sg' where 1: "?prep ex_transcript = (Inr (rq, k), g')" "?ev rq s sg'" by blast
    let ?t = "server_transcript (book_platform ex_transcript) ex_durations rq (to_bytes s)"
    have t: "?t = server_transcript (book_platform ?t) ex_durations rq (to_bytes s)"
      by (simp add: server_transcript_def)
    have "session_fits (training_env ?t) (book_platform ?t) ex_durations ''ab'' rq' (to_bytes s')"
      if "?prep ?t = (Inr (rq', k'), h)" "?ev rq' s' h'" for rq' k' s' h h'
    proof -
      from that(1) 1(1) same [of ?t ex_transcript] have rq: "rq' = rq" by simp
      with that(2) 1(2) have s: "s' = s" by (blast dest: evaluates_unique)
      from that(1) show ?thesis
        unfolding rq s by (rule training_fits [OF _ wid training_evaluates_small [OF 1(2)] t])
    qed
    then show thesis by (blast intro: that)
  next
    case False
    then have "\<not> (?prep ex_transcript = (Inr (rq, k), g') \<and> ?ev rq s sg')" for rq k g' s sg' by blast
    then show thesis by (blast intro: that)
  qed
qed

end
