(* ===== verification/Examples_Bgv.thy ===== *)
theory Examples_Bgv
  imports Session_Bgv Examples_Training
begin

text \<open>
  A concrete session of \<open>tee-vfhe-bgvrns\<close>: the workload \<open>toy\<close> over the ideal BGV, on inputs that are
  all 200. The two ciphertexts of the session are written as letters.
\<close>

definition const_rng :: "(unit, int) rng" where
  "const_rng = \<lparr>rg_seed = (\<lambda>_. ()), rg_next = (\<lambda>_. (200, ()))\<rparr>"

definition toy_spec :: workload_spec where
  "toy_spec = mk_spec ''toy'' 2 64 42 123"

definition toy_input :: "int list" where
  "toy_input = padded (replicate 64 200)"

definition toy_output :: "int list" where
  "toy_output = modt (vmul toy_input toy_input)"

definition toy_client :: "(feature set, bgv_params, ideal_bgv_ct, int list, unit) bgv_client" where
  "toy_client = \<lparr>bc_keygen = (\<lambda>_. ret ()), bc_mult_keygen = (\<lambda>_ _. ret ()), bc_pack = (\<lambda>_ v. ret (padded v)),
     bc_encrypt = (\<lambda>_ _ v. ret (ideal_bgv_ct v 2)),
     bc_decrypt = (\<lambda>_ _ c n. ret (map centered (take n (ib_slots c)))),
     bc_serialize_mult = (\<lambda>_. ret (True, ''m'')), bc_serialize_sum = (\<lambda>_. ret (False, [])),
     bc_serialize_auto = (\<lambda>_. ret (False, [])), bc_clear_keys = ret ()\<rparr>"

definition toy_lib :: "(feature set, ideal_bgv_ct) openfhe" where
  "toy_lib = \<lparr>
     fl_deserialize_mult = (\<lambda>s. if s = ''m'' then ret True else raise (Throw (Lib_error ''mult''))),
     fl_deserialize_sum = (\<lambda>s. raise (Throw (Lib_error ''sum''))),
     fl_deserialize_auto = (\<lambda>s. raise (Throw (Lib_error ''auto''))),
     fl_deserialize_ct = (\<lambda>s. if s = ''i'' then ret (ideal_bgv_ct toy_input 2)
       else if s = ''o'' then ret (ideal_bgv_ct toy_output 3) else raise (Throw (Lib_error ''ciphertext''))),
     fl_serialize_ct = (\<lambda>c. if c = ideal_bgv_ct toy_input 2 then Inr ''i''
       else if c = ideal_bgv_ct toy_output 3 then Inr ''o'' else throw (Lib_error ''unknown''))\<rparr>"

text \<open>The request of the session and the transcript of its evaluation.\<close>

definition toy_request :: request where
  "toy_request = \<lparr>rq_nonce = random_nonce 16 None, rq_keys = [to_bytes ''m''],
     rq_cts = [to_bytes ''i'', to_bytes ''i''], rq_workload = ''toy''\<rparr>"

definition toy_transcript :: bgv_transcript where
  "toy_transcript = bgv_server_transcript (ex_platform ex_digest) ex_durations toy_request (to_bytes ''o'')"

definition toy_json :: json_lib where
  "toy_json = session_json (bgv_transcript_members toy_transcript) (bgv_transcript_members (bgv_untimed toy_transcript))"

definition toy_server :: "bytes \<Rightarrow> bytes result" where
  "toy_server b = (case fst (bgv_handle_client (session_platform toy_json) ex_durations toy_lib
      (bgv_server_registry ideal_bgv) (Inr b) {}) of
     Inr (Some resp) \<Rightarrow> Inr resp | _ \<Rightarrow> throw (Runtime_error ''recv failed''))"

definition toy_env :: "(feature set, bgv_params, ideal_bgv_ct, int list, unit, unit, bytes) bgv_client_env" where
  "toy_env = \<lparr>be_client = toy_client, be_lib = toy_lib, be_registry = bgv_registry ideal_bgv, be_rng = const_rng,
     be_stoi = (\<lambda>_. throw (Invalid_argument ''stoi'')), be_urandom = None, be_exchange = (\<lambda>_ _. toy_server),
     be_b3 = ex_b3, be_verifier = session_verifier toy_json\<rparr>"

lemma toy_env_sel [simp]:
  "be_client toy_env = toy_client" "be_lib toy_env = toy_lib" "be_registry toy_env = bgv_registry ideal_bgv"
  "be_rng toy_env = const_rng" "be_b3 toy_env = ex_b3" "be_verifier toy_env = session_verifier toy_json"
  "be_exchange toy_env host port = toy_server" "be_urandom toy_env = None"
  by (simp_all add: toy_env_def)

lemma toy_spec: "toy_spec \<in> set bgv_kWorkloads" "ws_id toy_spec = ''toy''"
  by (simp_all add: toy_spec_def bgv_kWorkloads_def mk_spec_def)

lemma const_draw: "draw (rg_next const_rng) n st = replicate n 200"
  by (induction n arbitrary: st) (simp_all add: const_rng_def)

lemma toy_inputs: "bgv_input_vectors const_rng (Some toy_spec) = [replicate 64 200, replicate 64 200]"
  by (simp add: bgv_input_vectors_def gen_input_vec_def const_draw toy_spec_def mk_spec_def upto.simps)

lemma toy_lengths [simp]: "length toy_input = 4096" "length toy_output = 4096"
  by (simp_all add: toy_input_def toy_output_def padded_def)

lemma toy_draws: "draws_residues const_rng"
  by (auto simp: draws_residues_def gen_input_vec_def const_draw)

lemma toy_makes_keys: "bgv_makes_keys toy_client ideal_bgv_view"
  by (simp add: bgv_makes_keys_def toy_client_def runs_def)

lemma toy_keys:
  assumes "bp_batch cc = 4096"
  shows "bgv_pair_works toy_client ideal_bgv_view cc kp" and "bgv_keys_ship toy_lib toy_client ideal_bgv_view cc g"
  using assms by (simp_all add: bgv_pair_works_def bgv_keys_ship_def toy_client_def toy_lib_def ideal_bgv_defs
      yields_def runs_def bind_p_def length_padded)

lemma toy_session_keys:
  "bgv_session_keys toy_lib toy_client (make_bgv_baseline_context ideal_bgv) ideal_bgv_view g"
  unfolding bgv_session_keys_def
proof (intro allI impI)
  fix cc kp g1
  assume "bgv_make_keys toy_client (make_bgv_baseline_context ideal_bgv) None g = (Inr (cc, kp), g1)"
  then have "bp_batch cc = 4096"
    by (auto simp: bgv_make_keys_def make_bgv_baseline_context_def ideal_bgv_def bgv_baseline_params_def
        elim!: bind_p_cases)
  then show "bgv_pair_works toy_client ideal_bgv_view cc kp \<and> bgv_keys_ship toy_lib toy_client ideal_bgv_view cc g1"
    by (simp add: toy_keys)
qed

lemma toy_vectors:
  "bgv_session_vectors ''toy'' [replicate 64 200, replicate 64 200] = {(3, toy_output), (2, toy_input)}"
  by (auto simp: bgv_session_vectors_def bgv_parts_def bgv_function_def toy_input_def toy_output_def)

lemma toy_ct: "ib_slots c = v \<Longrightarrow> ib_parts c = k \<Longrightarrow> c = ideal_bgv_ct v k"
  by (simp add: ideal_bgv_ct_def)

lemma toy_ships:
  assumes "bp_batch ps = 4096"
  shows "bgv_ships toy_lib ideal_bgv_view ps (bgv_session_vectors ''toy'' [replicate 64 200, replicate 64 200])"
  using assms unfolding bgv_ships_def toy_vectors
  by (auto simp: holds_def bgv_arrives_def serialize_ciphertext_def deserialize_ciphertext_def toy_lib_def
      ideal_bgv_view_def dest: toy_ct)

lemma bgv_batch: "bp_batch bgv_baseline_params = 4096" "bp_batch zk_baseline_params = 4096"
  by (simp_all add: bgv_baseline_params_def zk_baseline_params_def)

lemma toy_serves: "bgv_serves toy_env ideal_bgv (session_platform toy_json) ex_durations {} host port"
  by (simp add: bgv_serves_def toy_server_def)

lemma toy_same_libraries: "bgv_same_libraries toy_env (session_platform toy_json)"
  by (simp add: bgv_same_libraries_def)

lemma toy_server_transcript:
  "bgv_server_transcript (session_platform J) ex_durations toy_request (to_bytes ''o'') = toy_transcript"
  by (simp add: toy_transcript_def bgv_server_transcript_def)

text \<open>The only request that is prepared, and the only output of its evaluation.\<close>

lemma toy_prepares:
  assumes "bgv_registry ideal_bgv ''toy'' = Some w"
    and "bgv_prepare toy_env (workload_options ''toy'' mr) w g = (Inr (rq, k), g')"
  shows "rq = toy_request"
proof -
  have w: "w = bgv_entry ideal_bgv (bgv_toy_eval ideal_bgv)"
    using assms(1) by (simp add: bgv_registered)
  have "find_spec bgv_kWorkloads ''toy'' = Some toy_spec"
    using bgv_specs(1) [OF toy_spec(1)] by (simp add: toy_spec(2))
  moreover have "serialize_ciphertext toy_lib (ideal_bgv_ct (padded (replicate 64 200)) 2) = Inr ''i''"
    by (simp add: serialize_ciphertext_def toy_lib_def toy_input_def)
  ultimately show ?thesis
    using assms(2) unfolding bgv_prepare_def
    by (auto simp: w workload_options_def toy_client_def toy_request_def Let_def bgv_input_blobs_def toy_inputs
        bgv_serialize_all_eval_keys_def key_blob_def elim!: bind_p_cases)
qed

lemma toy_evaluates:
  assumes "evaluates bgv_load_eval_keys toy_lib (bgv_server_registry ideal_bgv) toy_request sg t sg'"
  shows "t = ''o''"
proof -
  have "bgv_request toy_lib ideal_bgv_view ''toy'' [replicate 64 200, replicate 64 200] toy_request"
    by (simp add: bgv_request_def inputs_arrive_as_def toy_request_def bgv_arrives_def deserialize_ciphertext_def
        toy_lib_def toy_input_def [symmetric] holds_def ideal_bgv_view_def ideal_bgv_ct_def bgv_baseline_params_def
        bgv_load_eval_keys_def load_eval_key_def Let_def try_p_def bind_p_def runs_def yields_def)
  from bgv_evaluates_request [OF ideal_bgv_works _ _ this toy_ships [OF bgv_batch(1)], of sg] obtain t' sg'' where
    "evaluates bgv_load_eval_keys toy_lib (bgv_server_registry ideal_bgv) toy_request sg t' sg''"
    and a: "bgv_arrives toy_lib ideal_bgv_view bgv_baseline_params 3 toy_output t'"
    by (auto simp: bgv_ids_def bgv_arity_def bgv_parts_def bgv_function_def toy_output_def toy_input_def)
  with assms have "t' = t" by (blast dest: evaluates_unique)
  with a have "yields (deserialize_ciphertext toy_lib t) {} (\<lambda>c. holds ideal_bgv_view bgv_baseline_params 3 c toy_output)"
    by (simp add: bgv_arrives_def ideal_bgv_view_def)
  then show ?thesis
    by (auto simp: deserialize_ciphertext_def toy_lib_def ideal_bgv_defs split: if_splits elim!: yieldsE)
qed

lemma toy_fits: "bgv_sessions_fit toy_env ideal_bgv (session_platform toy_json) ex_durations {} ''toy'' ''ab'' g"
proof -
  have members: "bgv_transcript_members toy_transcript \<noteq> bgv_transcript_members (bgv_untimed toy_transcript)"
    by (simp add: toy_transcript_def bgv_server_transcript_def bgv_transcript_members_def evidence_members_def
        bgv_untimed_def ex_durations_def micros_def)
  have digest: "bgv_compute_transcript_hash ex_b3 toy_json toy_transcript = ex_digest"
    using session_dump(2) [OF members]
    by (simp add: compute_transcript_hash_untimed bgv_to_json_def toy_json_def untimed_digest)
  have nonce: "length (random_nonce 16 None) = 16" by (simp add: random_nonce_def)
  have "bgv_session_fits toy_env (session_platform toy_json) ex_durations ''ab'' toy_request (to_bytes ''o'')"
    unfolding bgv_session_fits_def evaluated_response_eq toy_server_transcript session_sel digest toy_env_sel
  proof (intro conjI)
    show "request_ok (\<lambda>n. n < 1000) toy_request"
      by (simp add: toy_request_def request_ok_def counted_ok_def)
    show "length (build_request toy_request) < 2 ^ 64"
      by (simp add: toy_request_def build_bytes counted_bytes_def string_bytes_def blob_bytes_def nonce)
    show "json_session toy_json (bgv_transcript_members toy_transcript)"
      unfolding toy_json_def by (rule session_json_session [OF members])
    show "quote_works Inr (session_verifier toy_json) ''ab'' ex_digest"
      unfolding toy_json_def by (rule session_quote)
    have "bgv_to_json toy_json toy_transcript = ''timed''"
      using session_dump(1) [OF members] by (simp add: bgv_to_json_def toy_json_def)
    then show "length (build_response \<lparr>rs_output = to_bytes ''o'', rs_transcript = bgv_to_json toy_json toy_transcript,
        rs_quote = quote_or_empty (generate_tdx_quote Inr ex_digest)\<rparr>) < 2 ^ 64"
      by (simp add: generate_tdx_quote_def quote_or_empty_def build_bytes string_bytes_def report_data_def blob_bytes_def)
  qed
  then show ?thesis
    unfolding bgv_sessions_fit_def using toy_prepares toy_evaluates by (metis toy_env_sel(2))
qed

end
