(* ===== verification/Properties_Programs.thy ===== *)
theory Properties_Programs
  imports Properties_Circuits Benchmarks Examples_Bgv
begin

text \<open>
  The properties of whole programs: what the \<open>main\<close> functions of the clients print, and what the exit
  code of a benchmark says.
\<close>

section \<open>The clients\<close>


section \<open>The benchmarks\<close>

text \<open>C24: The exit code of a benchmark says nothing of the evidence. With a quote library that rejects
  every quote, or a proof system that rejects every proof, the benchmarks end in the same state, with
  the same exit code and the same rows but for the verdict, which only goes to the console.\<close>

theorem benchmarks_ignore_evidence:
  "follows (rel_prod (=) (list_all2 (\<lambda>r r'. r' = r\<lparr>br_attested := False\<rparr>))) (tee_bench_main T argv)
     (tee_bench_main (T\<lparr>ce_verifier := refusing (ce_verifier T)\<rparr>) argv) \<and>
   follows (rel_prod (=) (list_all2 (\<lambda>r r'. r' = r\<lparr>gr_attested := False\<rparr>))) (bgv_bench_main B argv)
     (bgv_bench_main (B\<lparr>be_verifier := refusing (be_verifier B)\<rparr>) argv) \<and>
   follows (rel_prod (=) (list_all2 (\<lambda>r r'. r' = r\<lparr>zr_proof_ok := zr_proof_ok r'\<rparr>))) (zk_bench_main Z argv)
     (zk_bench_main (Z\<lparr>ye_snark := (ye_snark Z)\<lparr>sn_verify := \<lambda>_ _ _. False\<rparr>\<rparr>) argv)"
  unfolding tee_bench_main_def
  by (intro conjI bgv_bench_main_refusing zk_bench_main_refusing bench_frame_refusing bench_run_refusing refl)
    simp_all


section \<open>A program that ends well\<close>



text \<open>C99: The BGV prototype computes, end to end: \<open>client --workload w --expected-mr-td mr\<close>, for every
  workload of the client's table, against an honest server, ends with exit code zero and prints the first
  eight values of the function of \<open>w\<close> on the inputs that the client drew, as representatives around zero
  of the residues modulo 65537. Nothing is left of the zeros that fill the slots up.\<close>

theorem bgv_program_computes:
  fixes T :: "('g, 'cc, 'ct, 'pt, 'sk, 's, 'h) bgv_client_env" and B :: "('g, 'cc, 'ct) bgv"
  assumes "bgv_works B V" and "bgv_makes_keys (be_client T) V"
    and "bgv_session_keys (be_lib T) (be_client T) (make_bgv_baseline_context B) V g"
    and "draws_residues (be_rng T)" and "s \<in> set bgv_kWorkloads"
    and "bgv_ships (be_lib T) V bgv_baseline_params
      (bgv_session_vectors (ws_id s) (bgv_input_vectors (be_rng T) (Some s)))"
    and "be_registry T = bgv_registry B"
    and "bgv_serves T B P D sg ''127.0.0.1'' 8080" and "bgv_same_libraries T P"
    and "bgv_sessions_fit T B P D sg (ws_id s) mr g"
  shows "\<exists>g'. bgv_client_main T [''--workload'', ws_id s, ''--expected-mr-td'', mr] g =
    (Inr (0, Some (map centered (take 8 (bgv_function (ws_id s) (bgv_input_vectors (be_rng T) (Some s)))))), g')"
proof -
  let ?opts = "workload_options (ws_id s) mr"
  obtain eval where reg: "bgv_registry B (ws_id s) = Some (bgv_entry B eval :: ('g, 'cc, 'ct, 'sk) keyed_workload)"
    by (rule bgv_registered_circuit [OF bgv_specs(4) [OF assms(5)]]) (rule that; assumption)
  have args: "parse_args (be_stoi T) [''--workload'', ws_id s, ''--expected-mr-td'', mr] default_options = Inr (Inr ?opts)"
    by (simp add: default_options_def workload_options_def)
  have opts: "co_workload ?opts = ws_id s" "co_host ?opts = ''127.0.0.1''" "co_port ?opts = 8080" "co_mr_td ?opts = mr"
    by (simp_all add: workload_options_def)
  from bgv_program_releases [OF assms(1-6) reg assms(8-10)] args reg assms(7) show ?thesis
    unfolding bgv_client.prints_iff by (auto simp: opts)
qed

lemma bgv_program_computes_witness:
  "\<exists>g'. bgv_client_main toy_env [''--workload'', ''toy'', ''--expected-mr-td'', ''ab''] {} =
    (Inr (0, Some (replicate 8 (- 25537))), g')"
proof -
  have fit: "bgv_sessions_fit toy_env ideal_bgv (session_platform toy_json) ex_durations {} (ws_id toy_spec) ''ab'' {}"
    using toy_fits by (simp only: toy_spec(2))
  have "bgv_function ''toy'' [replicate 64 200, replicate 64 200] = replicate 64 40000"
    by (simp add: bgv_function_def vmul_def zip_replicate)
  then have "map centered (take 8 (bgv_function ''toy'' [replicate 64 200, replicate 64 200])) = replicate 8 (- 25537)"
    by (simp add: centered_def)
  then show ?thesis
    using bgv_program_computes [where T = toy_env, OF ideal_bgv_works _ _ _ toy_spec(1) _ _ toy_serves toy_same_libraries fit]
    by (simp add: toy_makes_keys toy_session_keys toy_draws toy_ships bgv_batch toy_inputs toy_spec(2))
qed

end
