(* ===== verification/Server_Threads.thy ===== *)
theory Server_Threads
  imports Gpu_Training Server_Zk
begin

text \<open>
  The detached threads of the four servers. \<open>main\<close> starts one thread per connection and never waits
  for it, so the handlers interleave on the state they share: the key maps of OpenFHE, the public key
  of \<open>gpucc-vfhe\<close>, the cached key pair of \<open>zk-vfhe\<close>. No mutex is taken anywhere in the servers. A handler is
  given here as a resumable computation; one step is one call on the shared state (a key, a
  ciphertext, a context, an evaluation, a static variable), and the scheduler picks the thread.
\<close>

section \<open>Resumable computations\<close>

datatype ('g, 'b) thread = Done "'b result" | Act "'g \<Rightarrow> ('g, 'b) thread \<times> 'g"

text \<open>A thread with the server for itself.\<close>

primrec solo :: "('g, 'b) thread \<Rightarrow> ('g, 'b) prog" where
  "solo (Done r) = lift_p r"
| "solo (Act f) = (\<lambda>g. case map_prod solo id (f g) of (p, g') \<Rightarrow> p g')"

definition act :: "('g, 'a) prog \<Rightarrow> ('a result \<Rightarrow> ('g, 'b) thread) \<Rightarrow> ('g, 'b) thread" where
  "act p k = Act (\<lambda>g. case p g of (r, g') \<Rightarrow> (k r, g'))"

definition stop_or :: "('a \<Rightarrow> ('g, 'b) thread) \<Rightarrow> 'a result \<Rightarrow> ('g, 'b) thread" where
  "stop_or k r = (case r of Inl e \<Rightarrow> Done (Inl e) | Inr x \<Rightarrow> k x)"

text \<open>The \<open>try\<close> blocks of the handlers: an exception becomes the answer \<open>err\<close>.\<close>

definition answer_or :: "(exn \<Rightarrow> 'b) \<Rightarrow> ('a \<Rightarrow> ('g, 'b) thread) \<Rightarrow> 'a result \<Rightarrow> ('g, 'b) thread" where
  "answer_or err k r = (case r of
      Inl (Throw e) \<Rightarrow> Done (Inr (err e)) | Inl (Ub u) \<Rightarrow> Done (Inl (Ub u)) | Inr x \<Rightarrow> k x)"

text \<open>A loop inside of a \<open>try\<close> block, one step per element.\<close>

fun act_for :: "(exn \<Rightarrow> 'b) \<Rightarrow> ('a \<Rightarrow> ('g, 'c) prog) \<Rightarrow> 'a list \<Rightarrow> ('c list \<Rightarrow> ('g, 'b) thread) \<Rightarrow> ('g, 'b) thread" where
  "act_for err f [] k = k []"
| "act_for err f (x # xs) k = act (f x) (answer_or err (\<lambda>y. act_for err f xs (\<lambda>ys. k (y # ys))))"

lemma solo_act: "solo (act p k) = (\<lambda>g. case p g of (r, g') \<Rightarrow> solo (k r) g')"
  by (rule ext) (simp add: act_def split: prod.split)

lemma solo_bind: "solo (act p (stop_or k)) = bind_p p (\<lambda>x. solo (k x))"
  by (rule ext) (simp add: solo_act bind_p_def stop_or_def split: prod.split sum.split)

lemma solo_answer: "solo (act p (answer_or err k)) = try_then p err (\<lambda>x. solo (k x))"
  by (rule ext) (simp add: solo_act try_then_def answer_or_def split: prod.split sum.split fault.split)

lemma try_then_bind: "try_then (bind_p p f) err k = try_then p err (\<lambda>x. try_then (f x) err k)"
  by (rule ext) (simp add: try_then_def bind_p_def split: prod.split sum.split fault.split)

lemma solo_for: "solo (act_for err f xs k) = try_then (for_p f xs) err (\<lambda>ys. solo (k ys))"
proof (induction xs arbitrary: k)
  case Nil
  show ?case by (rule ext) (simp add: try_then_def)
next
  case (Cons x xs)
  show ?case
    by (simp add: solo_answer Cons try_then_bind) (simp add: try_then_def)
qed

section \<open>Schedules\<close>

inductive pool_step :: "('g, 'b) thread list \<times> 'g \<Rightarrow> ('g, 'b) thread list \<times> 'g \<Rightarrow> bool" where
  run: "i < length ts \<Longrightarrow> ts ! i = Act f \<Longrightarrow> f g = (t, g') \<Longrightarrow> pool_step (ts, g) (ts[i := t], g')"

inductive_cases pool_stepE: "pool_step (ts, g) q"

text \<open>A step in a pool of two, which the examples below schedule by hand.\<close>

lemma pool_left: "p g = (r, g') \<Longrightarrow> pool_step ([act p k, u], g) ([k r, u], g')"
  using pool_step.run [of 0 "[act p k, u]" "\<lambda>g. case p g of (r, g') \<Rightarrow> (k r, g')" g "k r" g'] by (simp add: act_def)

lemma pool_right: "p g = (r, g') \<Longrightarrow> pool_step ([u, act p k], g) ([u, k r], g')"
  using pool_step.run [of 1 "[u, act p k]" "\<lambda>g. case p g of (r, g') \<Rightarrow> (k r, g')" g "k r" g'] by (simp add: act_def)

text \<open>What a thread may still end with, whatever the others do.\<close>

primrec finals :: "('g, 'b) thread \<Rightarrow> 'b result set" where
  "finals (Done r) = {r}"
| "finals (Act f) = (\<Union>g. fst (map_prod finals id (f g)))"

lemma finals_act: "finals (act p k) = (\<Union>g. finals (k (fst (p g))))"
  by (simp add: act_def split_beta)

lemma finals_step: "f g = (t, g') \<Longrightarrow> finals t \<subseteq> finals (Act f)"
  by (auto intro!: exI [of _ g])

lemma pool_step_finals:
  assumes "pool_step (ts, g) (us, h)"
  shows "length us = length ts \<and> (\<forall>i<length ts. finals (us ! i) \<subseteq> finals (ts ! i))"
  using assms by (elim pool_stepE) (auto simp: nth_list_update simp del: finals.simps dest: finals_step)

lemma pool_finals:
  assumes "pool_step\<^sup>*\<^sup>* (ts, g) (us, h)"
  shows "length us = length ts \<and> (\<forall>i<length ts. finals (us ! i) \<subseteq> finals (ts ! i))"
  using assms
proof (induction us h rule: rtranclp_induct2)
  case (step vs g' us h)
  with pool_step_finals [OF step(2)] show ?case by fastforce
qed simp

text \<open>A bound on the steps of a thread, whatever the others do.\<close>

fun ends_within :: "nat \<Rightarrow> ('g, 'b) thread \<Rightarrow> bool" where
  "ends_within n (Done r) \<longleftrightarrow> True"
| "ends_within 0 (Act f) \<longleftrightarrow> False"
| "ends_within (Suc n) (Act f) \<longleftrightarrow> (\<forall>g. ends_within n (fst (f g)))"

lemma within_mono: "ends_within n t \<Longrightarrow> n \<le> m \<Longrightarrow> ends_within m t"
proof (induction n t arbitrary: m rule: ends_within.induct)
  case (3 n f)
  then show ?case by (cases m) auto
qed auto

lemma within_act: "(\<And>r. ends_within n (k r)) \<Longrightarrow> ends_within (Suc n) (act p k)"
  by (simp add: act_def split: prod.split)

lemma within_stop: "(\<And>x. ends_within n (k x)) \<Longrightarrow> ends_within n (stop_or k r)"
  by (simp add: stop_or_def split: sum.split)

lemma within_answer: "(\<And>x. ends_within n (k x)) \<Longrightarrow> ends_within n (answer_or err k r)"
  by (simp add: answer_or_def split: sum.split fault.split)

lemma within_for: "(\<And>ys. ends_within n (k ys)) \<Longrightarrow> ends_within (length xs + n) (act_for err f xs k)"
proof (induction xs arbitrary: k)
  case (Cons x xs)
  show ?case
    by (simp del: ends_within.simps) (rule within_act, rule within_answer, rule Cons.IH, rule Cons.prems)
qed simp


text \<open>Every schedule ends: each step spends one of the steps that the threads have left.\<close>

lemma pool_step_spends:
  assumes "pool_step (ts, g) (us, h)" and "list_all2 ends_within ns ts"
  shows "\<exists>ns'. list_all2 ends_within ns' us \<and> sum_list ns = Suc (sum_list ns')"
  using assms(1)
proof (elim pool_stepE)
  fix j f t g'
  assume j: "(us, h) = (ts[j := t], g')" "j < length ts" "ts ! j = Act f" "f g = (t, g')"
  have len: "length ns = length ts" using assms(2) by (rule list_all2_lengthD)
  have "ends_within (ns ! j) (Act f)" using list_all2_nthD2 [OF assms(2) j(2)] j(3) by simp
  then obtain n where n: "ns ! j = Suc n" "ends_within n (fst (f g))" by (cases "ns ! j") auto
  have "list_all2 ends_within (ns[j := n]) us"
    using assms(2) n(2) j by (auto intro: list_all2_update_cong)
  moreover have "sum_list ns = Suc (sum_list (ns[j := n]))"
    using j(2) len n(1) elem_le_sum_list [of j ns] by (simp add: sum_list_update)
  ultimately show ?thesis by blast
qed

lemma pool_bound:
  assumes "(pool_step ^^ n) (ts, g) (us, h)" and "list_all2 ends_within ns ts"
  shows "n \<le> sum_list ns"
  using assms
proof (induction n arbitrary: ts g ns)
  case (Suc n)
  from Suc.prems(1) obtain vs g' where step: "pool_step (ts, g) (vs, g')" and rest: "(pool_step ^^ n) (vs, g') (us, h)"
    by (auto simp: relpowp_Suc_left relcompp.simps simp del: relpowp.simps)
  from pool_step_spends [OF step Suc.prems(2)] obtain ns' where
    "list_all2 ends_within ns' vs" "sum_list ns = Suc (sum_list ns')" by blast
  with Suc.IH [OF rest] show ?case by simp
qed simp

lemma pool_stuck:
  assumes "\<nexists>q. pool_step (ts, g) q" and "t \<in> set ts"
  shows "\<exists>r. t = Done r"
proof (cases t)
  case (Act f)
  then obtain j where "j < length ts" "ts ! j = Act f" using assms(2) by (auto simp: in_set_conv_nth)
  moreover obtain t' g' where "f g = (t', g')" by (cases "f g")
  ultimately have "pool_step (ts, g) (ts[j := t'], g')" by (rule pool_step.run)
  with assms(1) show ?thesis by blast
qed simp

text \<open>Any thread can run to its end while the others wait.\<close>

lemma pool_solo:
  assumes "solo t g = (r, g')" and "i < length ts" and "ts ! i = t"
  shows "pool_step\<^sup>*\<^sup>* (ts, g) (ts[i := Done r], g')"
  using assms
proof (induction t arbitrary: g ts)
  case (Done x)
  then show ?case by (metis lift_p_def list_update_id prod.inject rtranclp.rtrancl_refl solo.simps(1))
next
  case (Act f)
  obtain u h where f: "f g = (u, h)" by (cases "f g")
  have "pool_step (ts, g) (ts[i := u], h)"
    using Act.prems(2,3) f by (rule pool_step.run)
  moreover have "pool_step\<^sup>*\<^sup>* (ts[i := u], h) (ts[i := u, i := Done r], g')"
    by (rule Act.IH [OF rangeI [of f g]]) (use Act.prems f in auto)
  ultimately show ?case by (simp add: converse_rtranclp_into_rtranclp)
qed

section \<open>The handlers as threads\<close>

definition error_answer :: "string \<Rightarrow> exn \<Rightarrow> bytes option" where
  "error_answer prefix e = Some (build_error_response (prefix @ what e))"

definition request_thread :: "(('g, 'ct) openfhe \<Rightarrow> bytes \<Rightarrow> ('g, unit) prog) \<Rightarrow> (request \<Rightarrow> bytes \<Rightarrow> bytes) \<Rightarrow>
    ('g, 'ct) openfhe \<Rightarrow> ('g, 'cc, 'ct) workload registry \<Rightarrow> request \<Rightarrow> ('g, bytes option) thread" where
  "request_thread load_key respond L reg rq =
     (case reg (rq_workload rq) of
        None \<Rightarrow> Done (Inr (Some (build_error_response (''unknown workload: '' @ rq_workload rq))))
      | Some w \<Rightarrow>
          act (wl_make_context w) (stop_or (\<lambda>cc.
          act_for (error_answer ''bad eval key: '') (load_key L) (rq_keys rq) (\<lambda>_.
          act_for (error_answer ''bad ciphertext: '') (\<lambda>cb. deserialize_ciphertext L (to_string cb)) (rq_cts rq) (\<lambda>inputs.
          act (wl_eval w cc inputs) (answer_or (error_answer ''eval failed: '') (\<lambda>output_ct.
          answer_or (error_answer ''serialize failed: '') (\<lambda>output_str.
            Done (Inr (Some (respond rq (to_bytes output_str))))) (serialize_ciphertext L output_ct))))))))"

definition tee_thread :: "'h platform \<Rightarrow> durations \<Rightarrow> ('g, 'ct) openfhe \<Rightarrow> ('g, 'cc, 'ct) workload registry \<Rightarrow>
    request \<Rightarrow> ('g, bytes option) thread" where
  "tee_thread P D = request_thread load_eval_key (evaluated_response P D)"

definition bgv_thread :: "'h platform \<Rightarrow> durations \<Rightarrow> ('g, 'ct) openfhe \<Rightarrow> ('g, 'cc, 'ct) workload registry \<Rightarrow>
    request \<Rightarrow> ('g, bytes option) thread" where
  "bgv_thread P D = request_thread (\<lambda>L kb. if kb = [] then ret () else load_eval_key L kb) (bgv_evaluated_response P D)"

definition gpu_thread :: "'h platform \<Rightarrow> durations \<Rightarrow> nvat \<Rightarrow> ('g, 'cc, 'ct, 'pk) gpu_openfhe \<Rightarrow>
    ('g, 'cc, 'ct, 'pk) gpu_workload registry \<Rightarrow> gpu_request \<Rightarrow> (('g, 'pk) gpu_globals, bytes option) thread" where
  "gpu_thread P D nv L reg rq =
     (case reg (rq_workload rq) of
        None \<Rightarrow> Done (Inr (Some (build_error_response (''unknown workload: '' @ rq_workload rq))))
      | Some eval \<Rightarrow>
          act (in_gpu_lib (fl_deserialize_pk L (to_string (rq_public_key rq)))) (answer_or (error_answer ''bad public key: '') (\<lambda>pk.
          act (set_client_public_key pk) (answer_or (error_answer ''bad public key: '') (\<lambda>_.
          act_for (error_answer ''bad eval key: '') (\<lambda>(i, kb). in_gpu_lib (gpu_load_eval_key L i kb)) (enumerate 0 (rq_keys rq)) (\<lambda>_.
          act_for (error_answer ''bad ciphertext: '') (\<lambda>cb. in_gpu_lib (deserialize_ciphertext (openfhe.truncate L) (to_string cb)))
            (rq_cts rq) (\<lambda>inputs.
          act (eval (fl_pk_context L pk) inputs) (answer_or (error_answer ''eval failed: '') (\<lambda>output_ct.
          answer_or (error_answer ''serialize failed: '') (\<lambda>output_str.
            Done (Inr (Some (gpu_evaluated_response P D nv rq (to_bytes output_str)))))
            (serialize_ciphertext (openfhe.truncate L) output_ct))))))))))"

section \<open>One thread alone is the handler\<close>

lemma solo_answer_pure: "solo (answer_or err k r) = try_then (lift_p r) err (\<lambda>x. solo (k x))"
  by (rule ext) (simp add: answer_or_def try_then_def split: sum.split fault.split)

lemma solo_ret: "solo (Done (Inr x)) = ret x"
  by (rule ext) simp

lemmas solo_simps = solo_bind solo_answer solo_for solo_answer_pure solo_ret

lemma reply_error: "reply prefix = (\<lambda>p. try_then p (error_answer prefix))"
  by (intro ext) (simp add: reply_def error_answer_def [abs_def])

lemma request_thread_alone:
  "solo (request_thread load_key respond L reg rq) =
    evaluate_request (\<lambda>L. for_p (load_key L)) respond L reg rq"
  by (cases "reg (rq_workload rq)")
    (simp_all only: request_thread_def evaluate_request_def option.case solo_simps reply_error load_inputs_def)

lemma tee_thread_alone: "solo (tee_thread P D L reg rq) = evaluate_request load_eval_keys (evaluated_response P D) L reg rq"
  by (simp only: tee_thread_def request_thread_alone load_eval_keys_def [abs_def])

lemma bgv_thread_alone:
  "solo (bgv_thread P D L reg rq) = evaluate_request bgv_load_eval_keys (bgv_evaluated_response P D) L reg rq"
  by (simp only: bgv_thread_def request_thread_alone bgv_load_eval_keys_def [abs_def])

lemma in_gpu_lib_bind: "in_gpu_lib (bind_p p f) = bind_p (in_gpu_lib p) (\<lambda>x. in_gpu_lib (f x))"
  by (rule ext) (simp add: in_gpu_lib_def on_field_def bind_p_def Let_def split: prod.split sum.split)

lemma in_gpu_lib_ret: "in_gpu_lib (ret x) = ret x"
  by (rule ext) (simp add: in_gpu_lib_def on_field_def)

lemma in_gpu_lib_for: "in_gpu_lib (for_p f xs) = for_p (\<lambda>x. in_gpu_lib (f x)) xs"
  by (induction xs) (simp_all only: for_p.simps in_gpu_lib_bind in_gpu_lib_ret)

lemma try_then_ret: "try_then (ret x) err k = k x"
  by (rule ext) (simp add: try_then_def)

lemma gpu_thread_alone: "solo (gpu_thread P D nv L reg rq) = gpu_evaluate_request P D nv L reg rq"
proof -
  have pair: "(\<lambda>p. in_gpu_lib (case p of (i, kb) \<Rightarrow> gpu_load_eval_key L i kb)) =
      (\<lambda>(i, kb). in_gpu_lib (gpu_load_eval_key L i kb))" by auto
  show ?thesis
    by (cases "reg (rq_workload rq)")
      (simp_all only: gpu_thread_def gpu_evaluate_request_def option.case solo_simps reply_error load_inputs_def
        gpu_load_eval_keys_def load_public_key_def in_gpu_lib_for pair try_then_bind try_then_ret Let_def)
qed


section \<open>Every answer is about the request of its own connection\<close>

lemma finals_act_le: "(\<And>g r g'. p g = (r, g') \<Longrightarrow> finals (k r) \<subseteq> S) \<Longrightarrow> finals (act p k) \<subseteq> S"
  unfolding finals_act by (metis (no_types, lifting) SUP_least prod.collapse)

lemma finals_stop_le: "(\<And>e. Inl e \<in> S) \<Longrightarrow> (\<And>x. r = Inr x \<Longrightarrow> finals (k x) \<subseteq> S) \<Longrightarrow> finals (stop_or k r) \<subseteq> S"
  by (simp add: stop_or_def split: sum.split)

lemma finals_answer_le:
  "(\<And>e. Inl e \<in> S) \<Longrightarrow> (\<And>e. Inr (err e) \<in> S) \<Longrightarrow> (\<And>x. r = Inr x \<Longrightarrow> finals (k x) \<subseteq> S) \<Longrightarrow>
    finals (answer_or err k r) \<subseteq> S"
  by (simp add: answer_or_def split: sum.split fault.split)

definition may_return :: "('g, 'a) prog \<Rightarrow> 'a \<Rightarrow> bool" where
  "may_return p x \<longleftrightarrow> (\<exists>g g'. p g = (Inr x, g'))"

lemma may_returnI: "p g = (Inr x, g') \<Longrightarrow> may_return p x"
  by (auto simp: may_return_def)

lemma finals_for_le:
  assumes "\<And>e. Inl e \<in> S" and "\<And>e. Inr (err e) \<in> S"
    and "\<And>ys. list_all2 (\<lambda>x. may_return (f x)) xs ys \<Longrightarrow> finals (k ys) \<subseteq> S"
  shows "finals (act_for err f xs k) \<subseteq> S"
  using assms(3)
proof (induction xs arbitrary: k)
  case (Cons x xs)
  have "finals (act (f x) (answer_or err (\<lambda>y. act_for err f xs (\<lambda>ys. k (y # ys))))) \<subseteq> S"
  proof (rule finals_act_le, rule finals_answer_le [OF assms(1,2)], rule Cons.IH)
    fix g r g' y ys
    assume "f x g = (r, g')" "r = Inr y" "list_all2 (\<lambda>x. may_return (f x)) xs ys"
    then have "may_return (f x) y" by (auto simp: may_return_def)
    then show "finals (k (y # ys)) \<subseteq> S"
      using \<open>list_all2 (\<lambda>x. may_return (f x)) xs ys\<close> by (intro Cons.prems) simp
  qed
  then show ?case by simp
qed simp

text \<open>
  \<open>answers_own\<close>: an error response, or the response for the request \<open>rq\<close> to the output of an evaluation
  of the workload that \<open>rq\<close> names on ciphertexts that were read from the blobs of \<open>rq\<close>. What the
  threads in between did to the keys is left open.
\<close>

definition answers_own :: "('g, 'ct) openfhe \<Rightarrow> ('g, 'cc, 'ct) workload registry \<Rightarrow> (request \<Rightarrow> bytes \<Rightarrow> bytes) \<Rightarrow>
    request \<Rightarrow> bytes \<Rightarrow> bool" where
  "answers_own L reg respond rq b \<longleftrightarrow> is_error_response b \<or>
     (\<exists>w cc ins out s. reg (rq_workload rq) = Some w \<and> may_return (wl_make_context w) cc \<and>
        list_all2 (\<lambda>cb. may_return (deserialize_ciphertext L (to_string cb))) (rq_cts rq) ins \<and>
        may_return (wl_eval w cc ins) out \<and> serialize_ciphertext L out = Inr s \<and> b = respond rq (to_bytes s))"

lemma request_thread_finals:
  "finals (request_thread load_key respond L reg rq) \<subseteq> {r. \<forall>b. r = Inr (Some b) \<longrightarrow> answers_own L reg respond rq b}"
proof (cases "reg (rq_workload rq)")
  case None
  then show ?thesis by (simp add: request_thread_def answers_own_def)
next
  case (Some w)
  have own: "answers_own L reg respond rq (respond rq (to_bytes s))"
    if "may_return (wl_make_context w) cc" "may_return (wl_eval w cc ins) out" "serialize_ciphertext L out = Inr s"
      "list_all2 (\<lambda>cb. may_return (deserialize_ciphertext L (to_string cb))) (rq_cts rq) ins" for cc ins out s
    unfolding answers_own_def using that Some by blast
  show ?thesis
    unfolding request_thread_def Some option.case
    by (rule finals_act_le, rule finals_stop_le, simp, rule finals_for_le, simp,
        simp add: error_answer_def answers_own_def, rule finals_for_le, simp,
        simp add: error_answer_def answers_own_def, rule finals_act_le, rule finals_answer_le, simp,
        simp add: error_answer_def answers_own_def, rule finals_answer_le, simp,
        simp add: error_answer_def answers_own_def)
      (auto intro!: own intro: may_returnI)
qed

lemma request_pool_answers:
  assumes "pool_step\<^sup>*\<^sup>* (map (request_thread load_key respond L reg) rqs, g) (us, h)"
    and "i < length rqs" and "us ! i = Done (Inr (Some b))"
  shows "answers_own L reg respond (rqs ! i) b"
proof -
  from pool_finals [OF assms(1)] assms(2,3)
  have "Inr (Some b) \<in> finals (request_thread load_key respond L reg (rqs ! i))" by fastforce
  with request_thread_finals show ?thesis by fastforce
qed

section \<open>A bound on the schedules\<close>

lemma request_thread_within:
  "ends_within (2 + length (rq_keys rq) + length (rq_cts rq)) (request_thread load_key respond L reg rq)"
proof (cases "reg (rq_workload rq)")
  case (Some w)
  have n: "2 + length (rq_keys rq) + length (rq_cts rq) = Suc (length (rq_keys rq) + (length (rq_cts rq) + Suc 0))"
    by simp
  show ?thesis
    unfolding request_thread_def Some option.case n
    by (rule within_act, rule within_stop, rule within_for, rule within_for, rule within_act, rule within_answer,
        rule within_answer) simp
qed (simp add: request_thread_def)

lemma request_pool_ends:
  assumes "(pool_step ^^ n) (map (request_thread load_key respond L reg) rqs, g) (us, h)"
  shows "n \<le> (\<Sum>rq\<leftarrow>rqs. 2 + length (rq_keys rq) + length (rq_cts rq))"
  by (rule pool_bound [OF assms])
    (use request_thread_within [of _ load_key respond L reg] in \<open>simp add: list.rel_map list_all2_same del: add_Suc add_2_eq_Suc\<close>)


lemma gpu_thread_within:
  "ends_within (3 + length (rq_keys rq) + length (rq_cts rq)) (gpu_thread P D nv L reg rq)"
proof (cases "reg (rq_workload rq)")
  case (Some eval)
  have n: "3 + length (rq_keys rq) + length (rq_cts rq) =
      Suc (Suc (length (enumerate 0 (rq_keys rq)) + (length (rq_cts rq) + Suc 0)))"
    by simp
  show ?thesis
    unfolding gpu_thread_def Some option.case n
    by (rule within_act, rule within_answer, rule within_act, rule within_answer, rule within_for,
        rule within_for, rule within_act, rule within_answer, rule within_answer) simp
qed (simp add: gpu_thread_def)

section \<open>The public key of another connection\<close>

lemma answer_or_run [simp]: "answer_or err k (Inr x) = k x"
  by (simp add: answer_or_def)

lemma pool_left_ok: "p g = (Inr x, g') \<Longrightarrow> pool_step ([act p (answer_or err k), u], g) ([k x, u], g')"
  using pool_left [of p g "Inr x" g' "answer_or err k" u] by simp

lemma pool_right_ok: "p g = (Inr x, g') \<Longrightarrow> pool_step ([u, act p (answer_or err k)], g) ([u, k x], g')"
  using pool_right [of p g "Inr x" g' u "answer_or err k"] by simp

lemma pool_left_for:
  "for_p f xs g = (Inr ys, g') \<Longrightarrow> pool_step\<^sup>*\<^sup>* ([act_for err f xs k, u], g) ([k ys, u], g')"
proof (induction xs arbitrary: g ys k)
  case (Cons x xs)
  from Cons.prems obtain y g1 zs where x: "f x g = (Inr y, g1)" and xs: "for_p f xs g1 = (Inr zs, g')"
    and ys: "ys = y # zs" by (auto elim!: bind_p_cases)
  have "pool_step ([act_for err f (x # xs) k, u], g) ([act_for err f xs (\<lambda>ys. k (y # ys)), u], g1)"
    unfolding act_for.simps by (rule pool_left_ok, rule x)
  with Cons.IH [OF xs, of "\<lambda>ys. k (y # ys)"] show ?case
    by (simp add: ys converse_rtranclp_into_rtranclp)
qed simp

lemma load_public_key_steps:
  assumes "load_public_key L blob s = (Inr pk, s')"
  shows "\<exists>s1. in_gpu_lib (fl_deserialize_pk L (to_string blob)) s = (Inr pk, s1) \<and>
    set_client_public_key pk s1 = (Inr (), s') \<and> gg_client_pk s' = Some pk"
  using assms by (auto simp: load_public_key_def set_client_public_key_def elim!: bind_p_cases)

text \<open>
  The schedule: the first thread stores its key and loads everything, the second stores its own key,
  then the first evaluates, and reads the key of the second.
\<close>

lemma gpu_key_overwritten:
  assumes eval: "reg (rq_workload rq) = Some eval" and other: "reg (rq_workload rq') = Some eval'"
    and 1: "load_public_key L (rq_public_key rq) s = (Inr pk, s1)"
    and 2: "in_gpu_lib (gpu_load_eval_keys L (rq_keys rq)) s1 = (Inr ks, s2)"
    and 3: "in_gpu_lib (load_inputs (openfhe.truncate L) (rq_cts rq)) s2 = (Inr ins, s3)"
    and 4: "load_public_key L (rq_public_key rq') s3 = (Inr pk', s4)"
    and 5: "eval (fl_pk_context L pk) ins s4 = (Inr out, s5)"
    and 6: "serialize_ciphertext (openfhe.truncate L) out = Inr text"
  shows "\<exists>t. pool_step\<^sup>*\<^sup>* (map (gpu_thread P D nv L reg) [rq, rq'], s)
    ([Done (Inr (Some (gpu_evaluated_response P D nv rq (to_bytes text)))), t], s5)"
proof -
  let ?b = "gpu_thread P D nv L reg rq'"
  obtain u1 where 1: "in_gpu_lib (fl_deserialize_pk L (to_string (rq_public_key rq))) s = (Inr pk, u1)"
    "set_client_public_key pk u1 = (Inr (), s1)" using load_public_key_steps [OF 1] by blast
  obtain u2 where 4: "in_gpu_lib (fl_deserialize_pk L (to_string (rq_public_key rq'))) s3 = (Inr pk', u2)"
    "set_client_public_key pk' u2 = (Inr (), s4)" using load_public_key_steps [OF 4] by blast
  have pair: "(\<lambda>p. in_gpu_lib (case p of (i, kb) \<Rightarrow> gpu_load_eval_key L i kb)) =
      (\<lambda>(i, kb). in_gpu_lib (gpu_load_eval_key L i kb))" by auto
  note loads = 2 [unfolded gpu_load_eval_keys_def in_gpu_lib_for pair]
    3 [unfolded load_inputs_def in_gpu_lib_for]
  let ?done = "Done (Inr (Some (gpu_evaluated_response P D nv rq (to_bytes text))))"
  let ?evaluate = "act (eval (fl_pk_context L pk) ins) (answer_or (error_answer ''eval failed: '') (\<lambda>output_ct.
      answer_or (error_answer ''serialize failed: '') (\<lambda>output_str.
        Done (Inr (Some (gpu_evaluated_response P D nv rq (to_bytes output_str)))))
        (serialize_ciphertext (openfhe.truncate L) output_ct)))"
  have "pool_step\<^sup>*\<^sup>* ([gpu_thread P D nv L reg rq, ?b], s) ([?evaluate, ?b], s3)"
    unfolding gpu_thread_def [of P D nv L reg rq] eval option.case
    by (rule converse_rtranclp_into_rtranclp, rule pool_left_ok, rule 1(1),
        rule converse_rtranclp_into_rtranclp, rule pool_left_ok, rule 1(2),
        rule rtranclp_trans, rule pool_left_for [OF loads(1)], rule pool_left_for [OF loads(2)])
  moreover have "\<exists>t. pool_step\<^sup>*\<^sup>* ([?evaluate, ?b], s3) ([?evaluate, t], s4)"
    unfolding gpu_thread_def [of P D nv L reg rq'] other option.case
    by (rule exI, rule converse_rtranclp_into_rtranclp, rule pool_right_ok, rule 4(1),
        rule converse_rtranclp_into_rtranclp, rule pool_right_ok, rule 4(2), rule rtranclp.rtrancl_refl)
  moreover have "pool_step ([?evaluate, t], s4) ([answer_or (error_answer ''serialize failed: '') (\<lambda>output_str.
      Done (Inr (Some (gpu_evaluated_response P D nv rq (to_bytes output_str)))))
      (serialize_ciphertext (openfhe.truncate L) out), t], s5)" for t
    by (rule pool_left_ok, rule 5)
  then have "pool_step ([?evaluate, t], s4) ([?done, t], s5)" for t
    by (simp add: 6)
  ultimately show ?thesis
    by (simp del: rtranclp.rtrancl_refl) (meson rtranclp.rtrancl_into_rtrancl rtranclp_trans)
qed


section \<open>The key pair of another connection\<close>

text \<open>
  The third pass of \<open>zk-vfhe\<close>: key generation, proof and the reset of the cache are three steps. \<open>kont\<close>
  receives the outcome.
\<close>

definition or_else :: "('a result \<Rightarrow> ('g, 'b) thread) \<Rightarrow> ('c \<Rightarrow> ('g, 'b) thread) \<Rightarrow> 'c result \<Rightarrow> ('g, 'b) thread" where
  "or_else kont k r = (case r of Inl e \<Rightarrow> kont (Inl e) | Inr x \<Rightarrow> k x)"

definition third_thread :: "('r, 'cc, 'ps, 'cs, 'f, 'w, 'pk, 'vk, 'p) zk_env \<Rightarrow> zk_durations \<Rightarrow> 'ps \<Rightarrow>
    (zk_artifacts result \<Rightarrow> (('g, 'pk, 'vk) zk_globals, 'b) thread) \<Rightarrow> (('g, 'pk, 'vk) zk_globals, 'b) thread" where
  "third_thread V D ps kont =
     (let Z = ze_zk V; S = ze_snark V;
          cs = zl_cs Z ps; x = zl_primary Z ps; w = zl_auxiliary Z ps;
          witness_us = micros (zd_witness D)
      in if zl_num_constraints Z cs = 0 then kont (Inr (no_artifacts\<lparr>za_witness_us := witness_us\<rparr>))
         else if \<not> sn_satisfied S cs x w
         then kont (throw (Runtime_error ''constraint system not satisfied by witness''))
         else
           act (in_keys (setup_keys S (ze_setup_rand V) cs)) (or_else kont (\<lambda>vk.
           act (in_keys (prove S (ze_prove_rand V) x w)) (or_else kont (\<lambda>pf.
           or_else kont (\<lambda>pi_bytes.
             act (in_keys (clear_cached_keypair S)) (or_else kont (\<lambda>_.
             kont (Inr \<lparr>za_proof = zb_proof (ze_bytes V) pf, za_public_inputs = pi_bytes,
                za_vk = zb_vk (ze_bytes V) vk, za_witness_us = witness_us,
                za_proof_us = micros (zd_proof D)\<rparr>)))) (serialize_public_inputs (ze_field V) x))))))"

text \<open>The \<open>try\<close> block around the three passes: an exception leaves the artifacts empty.\<close>

definition contain :: "(zk_artifacts \<Rightarrow> ('g, 'b) thread) \<Rightarrow> zk_artifacts result \<Rightarrow> ('g, 'b) thread" where
  "contain k r = (case r of
      Inl (Throw e) \<Rightarrow> k no_artifacts | Inl (Ub u) \<Rightarrow> Done (Inl (Ub u)) | Inr a \<Rightarrow> k a)"

definition phase_thread :: "('r, 'cc, 'ps, 'cs, 'f, 'w, 'pk, 'vk, 'p) zk_env \<Rightarrow> zk_durations \<Rightarrow>
    ('g, 'cc, 'ct) zk_openfhe \<Rightarrow> ('g, 'cc, 'ct, 'ps) zk_workload \<Rightarrow> 'cc \<Rightarrow> bytes list \<Rightarrow>
    (zk_artifacts \<Rightarrow> (('g, 'pk, 'vk) zk_globals, 'b) thread) \<Rightarrow> (('g, 'pk, 'vk) zk_globals, 'b) thread" where
  "phase_thread V D L w cc cts k =
     (case wl_eval_zk w of
        None \<Rightarrow> k no_artifacts
      | Some eval_zk \<Rightarrow>
          act (in_lib (two_passes (ze_zk V) (openfhe.truncate L) eval_zk cc cts))
            (or_else (contain k) (\<lambda>ps. third_thread V D ps (contain k))))"

definition zk_error_answer :: "string \<Rightarrow> exn \<Rightarrow> bytes option" where
  "zk_error_answer prefix e = Some (zk_build_error_response (prefix @ what e))"

definition zk_thread :: "('r, 'cc, 'ps, 'cs, 'f, 'w, 'pk, 'vk, 'p) zk_env \<Rightarrow> 'h platform \<Rightarrow>
    zk_durations \<Rightarrow> ('g, 'cc, 'ct) zk_openfhe \<Rightarrow> ('g, 'cc, 'ct, 'ps) zk_workload registry \<Rightarrow>
    request \<Rightarrow> (('g, 'pk, 'vk) zk_globals, bytes option) thread" where
  "zk_thread V P D L reg rq =
     (case reg (rq_workload rq) of
        None \<Rightarrow> Done (Inr (Some (zk_build_error_response (''unknown workload: '' @ rq_workload rq))))
      | Some w \<Rightarrow>
          act (in_lib (fl_clear_keys L)) (stop_or (\<lambda>_.
          act (in_lib (wl_make_context w)) (stop_or (\<lambda>cc.
          act (in_lib (fl_enable L cc)) (stop_or (\<lambda>_.
          act_for (zk_error_answer ''bad key: '') (\<lambda>(i, kb). in_lib (deserialize_eval_key_by_index L i kb))
            (enumerate 0 (rq_keys rq)) (\<lambda>_.
          act_for (zk_error_answer ''bad ct: '') (\<lambda>cb. in_lib (deserialize_ciphertext (openfhe.truncate L) (to_string cb)))
            (rq_cts rq) (\<lambda>inputs.
          act (in_lib (wl_eval w cc inputs)) (answer_or (zk_error_answer ''eval failed: '') (\<lambda>out.
          phase_thread V D L w cc (rq_cts rq) (\<lambda>a.
          answer_or (zk_error_answer ''serialize: '') (\<lambda>out_str.
            Done (Inr (Some (zk_evaluated_response P D rq a (to_bytes out_str)))))
            (serialize_ciphertext (openfhe.truncate L) out)))))))))))))"

lemma or_else_simps [simp]: "or_else kont k (Inl e) = kont (Inl e)" "or_else kont k (Inr x) = k x"
  by (simp_all add: or_else_def)

lemma solo_act_kont:
  assumes "\<And>e. kont (Inl e) = kont' (Inl e)" and "\<And>x. solo (k x) = (\<lambda>s. case f x s of (r, s') \<Rightarrow> solo (kont' r) s')"
  shows "solo (act p (or_else kont k)) = (\<lambda>s. case bind_p p f s of (r, s') \<Rightarrow> solo (kont' r) s')"
  by (rule ext) (simp add: solo_act bind_p_def assms split: prod.split sum.split)

lemma third_thread_alone:
  "solo (third_thread V D ps kont) = (\<lambda>s. case third_pass V D ps s of (r, s') \<Rightarrow> solo (kont r) s')"
proof (cases "zl_num_constraints (ze_zk V) (zl_cs (ze_zk V) ps) = 0 \<or>
    \<not> sn_satisfied (ze_snark V) (zl_cs (ze_zk V) ps) (zl_primary (ze_zk V) ps) (zl_auxiliary (ze_zk V) ps)")
  case False
  then show ?thesis
    unfolding third_thread_def third_pass_def Let_def
    apply (simp only: if_False simp_thms de_Morgan_disj not_not)
    apply (intro solo_act_kont refl)
    apply (cases "serialize_public_inputs (ze_field V) (zl_primary (ze_zk V) ps)")
     apply (simp add: bind_p_def)
    apply (simp only: or_else_simps)
    apply (rule ext)
    apply (simp add: solo_act bind_p_def split: prod.split sum.split)
    done
qed (auto simp: third_thread_def third_pass_def Let_def)


lemma contain_alone:
  "(\<lambda>s. case p s of (r, s') \<Rightarrow> solo (contain k r) s') = bind_p (try_p p (\<lambda>_. ret no_artifacts)) (\<lambda>a. solo (k a))"
  by (rule ext) (simp add: contain_def bind_p_def try_p_def split: prod.split sum.split fault.split)

lemma phase_thread_alone:
  "solo (phase_thread V D L w cc cts k) = bind_p (zk_phase V D L w cc cts) (\<lambda>a. solo (k a))"
proof (cases "wl_eval_zk w")
  case None
  then show ?thesis by (intro ext) (simp add: phase_thread_def zk_phase_def bind_p_def)
next
  case (Some eval_zk)
  have "solo (act p (or_else (contain k) (\<lambda>ps. third_thread V D ps (contain k)))) =
      bind_p (try_p (bind_p p (third_pass V D)) (\<lambda>_. ret no_artifacts)) (\<lambda>a. solo (k a))" for p
    unfolding contain_alone [symmetric] by (rule solo_act_kont) (simp_all only: third_thread_alone)
  then show ?thesis by (simp only: phase_thread_def zk_phase_def Some option.case)
qed

lemma in_lib_bind: "in_lib (bind_p p f) = bind_p (in_lib p) (\<lambda>x. in_lib (f x))"
  by (rule ext) (simp add: in_lib_def on_field_def bind_p_def Let_def split: prod.split sum.split)

lemma in_lib_ret: "in_lib (ret x) = ret x"
  by (rule ext) (simp add: in_lib_def on_field_def)

lemma in_lib_for: "in_lib (for_p f xs) = for_p (\<lambda>x. in_lib (f x)) xs"
  by (induction xs) (simp_all only: for_p.simps in_lib_bind in_lib_ret)

lemma zk_reply_error: "zk_reply prefix = (\<lambda>p. try_then p (zk_error_answer prefix))"
  by (intro ext) (simp add: zk_reply_def zk_error_answer_def [abs_def])

lemma zk_thread_alone: "solo (zk_thread V P D L reg rq) = zk_evaluate_request V P D L reg rq"
proof -
  have pair: "(\<lambda>p. in_lib (case p of (i, kb) \<Rightarrow> deserialize_eval_key_by_index L i kb)) =
      (\<lambda>(i, kb). in_lib (deserialize_eval_key_by_index L i kb))" by auto
  show ?thesis
    by (cases "reg (rq_workload rq)")
      (simp_all only: zk_thread_def zk_evaluate_request_def option.case solo_simps zk_reply_error load_inputs_def
        zk_load_keys_def in_lib_for pair phase_thread_alone)
qed

text \<open>
  The schedule: both threads generate their keys before the first one makes its proof. The cache then
  holds the key of the second, and the first answers with a proof made by it beside its own
  verification key.
\<close>

lemma third_thread_start:
  assumes "zl_num_constraints (ze_zk V) (zl_cs (ze_zk V) ps) \<noteq> 0"
    and "sn_satisfied (ze_snark V) (zl_cs (ze_zk V) ps) (zl_primary (ze_zk V) ps) (zl_auxiliary (ze_zk V) ps)"
  shows "third_thread V D ps kont =
    (let S = ze_snark V; x = zl_primary (ze_zk V) ps; w = zl_auxiliary (ze_zk V) ps in
     act (in_keys (setup_keys S (ze_setup_rand V) (zl_cs (ze_zk V) ps))) (or_else kont (\<lambda>vk.
     act (in_keys (prove S (ze_prove_rand V) x w)) (or_else kont (\<lambda>pf.
     or_else kont (\<lambda>pi_bytes.
       act (in_keys (clear_cached_keypair S)) (or_else kont (\<lambda>_.
       kont (Inr \<lparr>za_proof = zb_proof (ze_bytes V) pf, za_public_inputs = pi_bytes,
          za_vk = zb_vk (ze_bytes V) vk, za_witness_us = micros (zd_witness D),
          za_proof_us = micros (zd_proof D)\<rparr>)))) (serialize_public_inputs (ze_field V) x))))))"
  using assms by (simp only: third_thread_def Let_def if_False simp_thms not_not)

lemma zk_key_overwritten:
  assumes V: "zl_num_constraints (ze_zk V) (zl_cs (ze_zk V) ps) \<noteq> 0"
      "sn_satisfied (ze_snark V) (zl_cs (ze_zk V) ps) (zl_primary (ze_zk V) ps) (zl_auxiliary (ze_zk V) ps)"
    and V': "zl_num_constraints (ze_zk V) (zl_cs (ze_zk V) ps') \<noteq> 0"
      "sn_satisfied (ze_snark V) (zl_cs (ze_zk V) ps') (zl_primary (ze_zk V) ps') (zl_auxiliary (ze_zk V) ps')"
    and gen: "sn_generate (ze_snark V) (ze_setup_rand V) (zl_cs (ze_zk V) ps) = (pk, vk)"
      "sn_generate (ze_snark V) (ze_setup_rand V) (zl_cs (ze_zk V) ps') = (pk', vk')"
    and pi: "serialize_public_inputs (ze_field V) (zl_primary (ze_zk V) ps) = Inr pi_bytes"
  shows "\<exists>t s'. pool_step\<^sup>*\<^sup>* ([third_thread V D ps kont, third_thread V D ps' kont'], s)
    ([kont (Inr \<lparr>za_proof = zb_proof (ze_bytes V) (sn_prove (ze_snark V) (ze_prove_rand V) pk'
          (zl_primary (ze_zk V) ps) (zl_auxiliary (ze_zk V) ps)), za_public_inputs = pi_bytes,
        za_vk = zb_vk (ze_bytes V) vk, za_witness_us = micros (zd_witness D), za_proof_us = micros (zd_proof D)\<rparr>), t], s')"
proof -
  let ?S = "ze_snark V"
  let ?x = "zl_primary (ze_zk V) ps" and ?w = "zl_auxiliary (ze_zk V) ps"
  let ?keep = "\<lambda>s pk vk. s\<lparr>zg_keys := (zg_keys s)\<lparr>kc_vk := vk, kc_pk := pk, kc_valid := True\<rparr>\<rparr>"
  note gens = in_keys_setup [OF gen(1)] in_keys_setup [OF gen(2)]
  have proves: "in_keys (prove ?S (ze_prove_rand V) ?x ?w) (?keep s1 pk' vk') =
      (Inr (sn_prove ?S (ze_prove_rand V) pk' ?x ?w), ?keep s1 pk' vk')" for s1
    by (simp add: in_keys_def on_field_def prove_def)
  have clears: "\<exists>s2. in_keys (clear_cached_keypair ?S) s1 = (Inr (), s2)" for s1
    by (simp add: in_keys_def on_field_def clear_is_init)
  then obtain s2 where clear: "in_keys (clear_cached_keypair ?S) (?keep (?keep s pk vk) pk' vk') = (Inr (), s2)" by blast
  show ?thesis
    unfolding third_thread_start [OF V] third_thread_start [OF V'] Let_def
    by (intro exI, rule converse_rtranclp_into_rtranclp, rule pool_left, rule gens(1), unfold or_else_simps,
        rule converse_rtranclp_into_rtranclp, rule pool_right, rule gens(2), unfold or_else_simps,
        rule converse_rtranclp_into_rtranclp, rule pool_left, rule proves, unfold or_else_simps pi,
        rule converse_rtranclp_into_rtranclp, rule pool_left, rule clear, unfold or_else_simps,
        rule rtranclp.rtrancl_refl)
qed


lemma within_or_else: "(\<And>e. ends_within n (kont (Inl e))) \<Longrightarrow> (\<And>x. ends_within n (k x)) \<Longrightarrow> ends_within n (or_else kont k r)"
  by (simp add: or_else_def split: sum.split)

lemma third_thread_within:
  assumes k: "\<And>r. ends_within n (kont r)"
  shows "ends_within (Suc (Suc (Suc n))) (third_thread V D ps kont)"
proof -
  have more: "ends_within (Suc n) (kont r)" "ends_within (Suc (Suc n)) (kont r)" "ends_within (Suc (Suc (Suc n))) (kont r)" for r
    by (rule within_mono [OF k], simp)+
  show ?thesis
    unfolding third_thread_def Let_def
    by (simp only: more split: if_split)
      (intro conjI impI; (rule TrueI within_act within_or_else k more)+)
qed

lemma zk_thread_within:
  "ends_within (8 + length (rq_keys rq) + length (rq_cts rq)) (zk_thread V P D L reg rq)"
proof (cases "reg (rq_workload rq)")
  case (Some w)
  have n: "8 + length (rq_keys rq) + length (rq_cts rq) =
      Suc (Suc (Suc (length (enumerate 0 (rq_keys rq)) + (length (rq_cts rq) + Suc 4))))"
    by simp
  have phase: "ends_within 4 (phase_thread V D L w cc cts k)" if k: "\<And>a. ends_within 0 (k a)" for cc cts k
  proof -
    have c: "ends_within 0 (contain k r)" for r
      by (simp add: contain_def k split: sum.split fault.split)
    have third: "ends_within 3 (third_thread V D ps (contain k))" for ps
      using third_thread_within [OF c] by (simp add: numeral_3_eq_3)
    have "ends_within (Suc 3) (act p (or_else (contain k) (\<lambda>ps. third_thread V D ps (contain k))))" for p
      by (rule within_act, rule within_or_else, rule within_mono [OF c], simp, rule third)
    then show ?thesis
      using within_mono [OF k, of 4] by (simp add: phase_thread_def split: option.split)
  qed
  show ?thesis
    unfolding zk_thread_def Some option.case n
    by (rule within_act, rule within_stop, rule within_act, rule within_stop, rule within_act, rule within_stop,
        rule within_for, rule within_for, rule within_act, rule within_answer, rule phase, rule within_answer) simp
qed (simp add: zk_thread_def)

text \<open>
  Whatever the requests and the schedule: no more steps than they cost, and a pool without a step left
  has ended.
\<close>

definition schedules_end :: "('r \<Rightarrow> ('g, 'b) thread) \<Rightarrow> ('r \<Rightarrow> nat) \<Rightarrow> bool" where
  "schedules_end thread cost \<longleftrightarrow> (\<forall>rqs g n us h. (pool_step ^^ n) (map thread rqs, g) (us, h) \<longrightarrow>
     n \<le> (\<Sum>rq\<leftarrow>rqs. cost rq) \<and> ((\<nexists>q. pool_step (us, h) q) \<longrightarrow> set us \<subseteq> range Done))"

lemma schedules_endI: "(\<And>rq. ends_within (cost rq) (thread rq)) \<Longrightarrow> schedules_end thread cost"
  unfolding schedules_end_def
proof (intro allI impI conjI)
  fix rqs g n us h
  assume w: "\<And>rq. ends_within (cost rq) (thread rq)" and steps: "(pool_step ^^ n) (map thread rqs, g) (us, h)"
  show "n \<le> (\<Sum>rq\<leftarrow>rqs. cost rq)"
    by (rule pool_bound [OF steps]) (simp add: list.rel_map list_all2_same w)
next
  fix us h
  assume "\<nexists>q. pool_step (us, h) q"
  from pool_stuck [OF this] show "set us \<subseteq> range Done" by blast
qed

end
