(* ===== verification/Server_Main.thy ===== *)
theory Server_Main
  imports Sockets Server_Threads
begin

text \<open>
  The programs of the servers: the command line, the listening socket, the accept loop, and a thread
  per connection that receives, handles, sends and closes. The accept loop is the one of \<open>Sockets\<close>, the
  threads are those of \<open>Server_Threads\<close>; a step of the program is a step of either.
\<close>

section \<open>The command line\<close>

text \<open>
  \<open>main\<close> returns the exit code, or goes on with a port. \<open>std::stoi\<close> and the constructor of \<open>TCPServer\<close>
  are outside of the \<open>try\<close> block.
\<close>

fun server_args :: "(string \<Rightarrow> int result) \<Rightarrow> string list \<Rightarrow> 16 word \<Rightarrow> (int + 16 word) result" where
  "server_args stoi [] port = Inr (Inr port)"
| "server_args stoi (a # rest) port =
     (if a = ''--port'' \<and> rest \<noteq> [] then bind_r (stoi (hd rest)) (\<lambda>p. server_args stoi (tl rest) (word_of_int p))
      else if a = ''--help'' \<or> a = ''-h'' then Inr (Inl 0) else Inr (Inl 1))"

definition server_start :: "(string \<Rightarrow> int result) \<Rightarrow> listen_env \<Rightarrow> string list \<Rightarrow> kernel \<Rightarrow>
    (int + main_state) result \<times> kernel" where
  "server_start stoi env argv k = (case server_args stoi argv 8080 of
      Inl e \<Rightarrow> (Inl e, k)
    | Inr (Inl code) \<Rightarrow> (Inr (Inl code), k)
    | Inr (Inr port) \<Rightarrow> (case tcp_server_new env ''0.0.0.0'' port k of
          (Inl e, k') \<Rightarrow> (Inl e, k')
        | (Inr srv, k') \<Rightarrow> (Inr (Inr (main_init srv k')), k')))"

section \<open>Connections\<close>

text \<open>
  A connection: its descriptor, what \<open>recv_message\<close> returned for it, and the rest of its thread.
  \<open>sv_sent\<close> records what was handed to \<open>send_message\<close>, with what it answers.
\<close>

record 'g server_state =
  sv_main :: main_state
  sv_conns :: "(int \<times> bytes result \<times> ('g, bytes option) thread) list"
  sv_lib :: 'g
  sv_sent :: "(bytes result \<times> bytes) list"

definition server_init :: "main_state \<Rightarrow> 'g \<Rightarrow> 'g server_state" where
  "server_init m g = \<lparr>sv_main = m, sv_conns = [], sv_lib = g, sv_sent = []\<rparr>"

text \<open>The thread closes its descriptor, whether the handler returned or threw.\<close>

definition close_connection :: "int \<times> bytes result \<times> ('g, bytes option) thread \<Rightarrow> 'g server_state \<Rightarrow> 'g server_state" where
  "close_connection c s = s\<lparr>
     sv_main := (sv_main s)\<lparr>m_kernel := sys_close (fst c) (m_kernel (sv_main s)),
       m_threads := remove1 (fst c) (m_threads (sv_main s))\<rparr>,
     sv_conns := remove1 c (sv_conns s)\<rparr>"

inductive server_step :: "(bytes result \<Rightarrow> ('g, bytes option) thread) \<Rightarrow> 'g server_state \<Rightarrow> 'g server_state \<Rightarrow> bool"
  for handler where
  connects: "main_step (sv_main s) m \<Longrightarrow> m_threads m = fd # m_threads (sv_main s) \<Longrightarrow>
    server_step handler s (s\<lparr>sv_main := m, sv_conns := (fd, received, handler received) # sv_conns s\<rparr>)"
| stops: "main_step (sv_main s) m \<Longrightarrow> m_threads m = m_threads (sv_main s) \<Longrightarrow>
    server_step handler s (s\<lparr>sv_main := m\<rparr>)"
| runs: "i < length (sv_conns s) \<Longrightarrow> sv_conns s ! i = (fd, received, Act f) \<Longrightarrow> f (sv_lib s) = (t, g) \<Longrightarrow>
    server_step handler s (s\<lparr>sv_conns := (sv_conns s)[i := (fd, received, t)], sv_lib := g\<rparr>)"
| answers: "(fd, received, Done (Inr (Some b))) \<in> set (sv_conns s) \<Longrightarrow>
    server_step handler s (close_connection (fd, received, Done (Inr (Some b))) (s\<lparr>sv_sent := (received, b) # sv_sent s\<rparr>))"
| ends: "(fd, received, Done r) \<in> set (sv_conns s) \<Longrightarrow> r = Inr None \<or> r = Inl (Throw e) \<Longrightarrow>
    server_step handler s (close_connection (fd, received, Done r) s)"

section \<open>The handlers of received messages\<close>

definition received_thread :: "(exn \<Rightarrow> bytes option) \<Rightarrow> (bytes \<Rightarrow> 'q result) \<Rightarrow> ('q \<Rightarrow> ('g, bytes option) thread) \<Rightarrow>
    bytes result \<Rightarrow> ('g, bytes option) thread" where
  "received_thread bad parse thread received =
     answer_or (\<lambda>_. None) (\<lambda>req. answer_or bad thread (parse req)) received"

definition tee_connection :: "'h platform \<Rightarrow> durations \<Rightarrow> ('g, 'ct) openfhe \<Rightarrow> ('g, 'cc, 'ct) workload registry \<Rightarrow>
    bytes result \<Rightarrow> ('g, bytes option) thread" where
  "tee_connection P D L reg =
     received_thread (error_answer ''bad request: '') (parse_request (pf_alloc P)) (tee_thread P D L reg)"

definition bgv_connection :: "'h platform \<Rightarrow> durations \<Rightarrow> ('g, 'ct) openfhe \<Rightarrow> ('g, 'cc, 'ct) workload registry \<Rightarrow>
    bytes result \<Rightarrow> ('g, bytes option) thread" where
  "bgv_connection P D L reg =
     received_thread (error_answer ''bad request: '') (parse_request (pf_alloc P)) (bgv_thread P D L reg)"

definition gpu_connection :: "'h platform \<Rightarrow> durations \<Rightarrow> nvat \<Rightarrow> ('g, 'cc, 'ct, 'pk) gpu_openfhe \<Rightarrow>
    ('g, 'cc, 'ct, 'pk) gpu_workload registry \<Rightarrow> bytes result \<Rightarrow> (('g, 'pk) gpu_globals, bytes option) thread" where
  "gpu_connection P D nv L reg =
     received_thread (error_answer ''bad request: '') (gpu_parse_request (pf_alloc P)) (gpu_thread P D nv L reg)"

definition zk_connection :: "('r, 'cc, 'ps, 'cs, 'f, 'w, 'pk, 'vk, 'p) zk_env \<Rightarrow> 'h platform \<Rightarrow>
    zk_durations \<Rightarrow> ('g, 'cc, 'ct) zk_openfhe \<Rightarrow> ('g, 'cc, 'ct, 'ps) zk_workload registry \<Rightarrow>
    bytes result \<Rightarrow> (('g, 'pk, 'vk) zk_globals, bytes option) thread" where
  "zk_connection V P D L reg =
     received_thread (zk_error_answer ''bad request: '') (zk_parse_request (pf_alloc P)) (zk_thread V P D L reg)"

lemma connection_alone:
  "solo (tee_connection P D L reg received) = handle_client P D L reg received"
  "solo (bgv_connection P D L reg received) = bgv_handle_client P D L reg received"
  "solo (gpu_connection P D nv GL greg received) = gpu_handle_client P D nv GL greg received"
  "solo (zk_connection V P ZD ZL zreg received) = zk_handle_client V P ZD ZL zreg received"
  by (simp_all only: tee_connection_def bgv_connection_def gpu_connection_def zk_connection_def received_thread_def
      handle_client_def bgv_handle_client_def gpu_handle_client_def zk_handle_client_def solo_answer_pure
      tee_thread_alone bgv_thread_alone gpu_thread_alone zk_thread_alone reply_error zk_reply_error)

text \<open>What is sent in answer to a message: an error, or an answer to the request in it.\<close>

definition answers_message :: "(bytes \<Rightarrow> request result) \<Rightarrow> (request \<Rightarrow> bytes \<Rightarrow> bool) \<Rightarrow> bytes result \<Rightarrow> bytes \<Rightarrow> bool" where
  "answers_message parse own received b \<longleftrightarrow> is_error_response b \<or>
     (\<exists>req rq. received = Inr req \<and> parse req = Inr rq \<and> own rq b)"

lemma received_thread_finals:
  assumes "\<And>rq b. Inr (Some b) \<in> finals (thread rq) \<Longrightarrow> own rq b"
    and "Inr (Some b) \<in> finals (received_thread (error_answer prefix) parse thread received)"
  shows "answers_message parse own received b"
  using assms by (auto simp: received_thread_def answers_message_def answer_or_def error_answer_def
      split: sum.splits fault.splits)

lemma connection_finals:
  "Inr (Some b) \<in> finals (tee_connection P D L reg received) \<Longrightarrow>
    answers_message (parse_request (pf_alloc P)) (answers_own L reg (evaluated_response P D)) received b"
  "Inr (Some b) \<in> finals (bgv_connection P D L reg received) \<Longrightarrow>
    answers_message (parse_request (pf_alloc P)) (answers_own L reg (bgv_evaluated_response P D)) received b"
proof -
  have own: "Inr (Some b) \<in> finals (request_thread load_key respond L reg rq) \<Longrightarrow> answers_own L reg respond rq b"
    for load_key respond rq b using request_thread_finals by fastforce
  show "Inr (Some b) \<in> finals (tee_connection P D L reg received) \<Longrightarrow>
    answers_message (parse_request (pf_alloc P)) (answers_own L reg (evaluated_response P D)) received b"
    "Inr (Some b) \<in> finals (bgv_connection P D L reg received) \<Longrightarrow>
    answers_message (parse_request (pf_alloc P)) (answers_own L reg (bgv_evaluated_response P D)) received b"
    unfolding tee_connection_def bgv_connection_def tee_thread_def bgv_thread_def
    by (blast intro: received_thread_finals own)+
qed

section \<open>The invariant\<close>

text \<open>
  Every descriptor has one owner, the threads are those of the open connections, and what was sent or
  may still be sent on a connection is among the outcomes of its handler.
\<close>

definition server_ok :: "(bytes result \<Rightarrow> ('g, bytes option) thread) \<Rightarrow> int list \<Rightarrow> nat \<Rightarrow> 'g server_state \<Rightarrow> bool" where
  "server_ok handler base bad s \<longleftrightarrow> one_owner base bad (sv_main s) \<and>
     mset (map fst (sv_conns s)) = mset (m_threads (sv_main s)) \<and>
     (\<forall>fd received t. (fd, received, t) \<in> set (sv_conns s) \<longrightarrow> finals t \<subseteq> finals (handler received)) \<and>
     (\<forall>received b. (received, b) \<in> set (sv_sent s) \<longrightarrow> Inr (Some b) \<in> finals (handler received))"

lemma server_okD:
  assumes "server_ok handler base bad s"
  shows "one_owner base bad (sv_main s)" and "mset (map fst (sv_conns s)) = mset (m_threads (sv_main s))"
    and "(fd, received, t) \<in> set (sv_conns s) \<Longrightarrow> finals t \<subseteq> finals (handler received)"
    and "(received, b) \<in> set (sv_sent s) \<Longrightarrow> Inr (Some b) \<in> finals (handler received)"
  using assms unfolding server_ok_def by auto

lemma close_connection_ok:
  assumes "server_ok handler base bad s" and "c \<in> set (sv_conns s)"
  shows "server_ok handler base bad (close_connection c s)"
proof -
  have fd: "fst c \<in># mset (map fst (sv_conns s))" using assms(2) by simp
  then have "fst c \<in> set (m_threads (sv_main s))"
    unfolding server_okD(2) [OF assms(1)] by simp
  from one_owner_step [OF main_step.handler_ends [OF this] server_okD(1) [OF assms(1)]]
  have "one_owner base bad (sv_main (close_connection c s))" by (simp add: close_connection_def)
  moreover have "mset (map fst (remove1 c (sv_conns s))) = mset (map fst (sv_conns s)) - {#fst c#}"
    using assms(2) by (simp add: image_mset_Diff)
  moreover have "set (remove1 c (sv_conns s)) \<subseteq> set (sv_conns s)"
    by (rule set_remove1_subset)
  ultimately show ?thesis
    using assms(1) unfolding server_ok_def by (simp add: close_connection_def subset_iff) blast
qed

lemma server_ok_step:
  assumes "server_step handler s t" and "server_ok handler base bad s"
  shows "server_ok handler base bad t"
  using assms(1)
proof (cases rule: server_step.cases)
  case (connects m fd received)
  with one_owner_step [OF connects(2) server_okD(1) [OF assms(2)]] assms(2) show ?thesis
    by (simp add: server_ok_def)
next
  case (stops m)
  with one_owner_step [OF stops(2) server_okD(1) [OF assms(2)]] assms(2) show ?thesis
    by (simp add: server_ok_def)
next
  case (runs i fd received f u g)
  have "finals (Act f) \<subseteq> finals (handler received)"
    using server_okD(3) [OF assms(2)] runs(2,3) by (metis nth_mem)
  moreover have "finals u \<subseteq> finals (Act f)"
    by (rule finals_step, rule runs(4))
  ultimately have u: "finals u \<subseteq> finals (handler received)" by (rule subset_trans [rotated])
  moreover have "map fst ((sv_conns s)[i := (fd, received, u)]) = map fst (sv_conns s)"
    using runs(2,3) by (simp add: map_update list_update_same_conv)
  moreover have "finals t' \<subseteq> finals (handler received')"
    if "(fd', received', t') \<in> set ((sv_conns s)[i := (fd, received, u)])" for fd' received' t'
    using set_update_subset_insert [THEN subsetD, OF that] server_okD(3) [OF assms(2)] u
    by (cases "(fd', received', t') = (fd, received, u)") (simp, blast)
  ultimately show ?thesis
    using server_okD(1,2,4) [OF assms(2)] unfolding server_ok_def runs(1) mset_map [symmetric] by simp
next
  case (answers fd received b)
  have "Inr (Some b) \<in> finals (handler received)"
    using server_okD(3) [OF assms(2) answers(2)] by simp
  with assms(2) have "server_ok handler base bad (s\<lparr>sv_sent := (received, b) # sv_sent s\<rparr>)"
    by (simp add: server_ok_def)
  then show ?thesis
    unfolding answers(1) by (rule close_connection_ok) (simp add: answers(2))
next
  case (ends fd received r e)
  show ?thesis unfolding ends(1) by (rule close_connection_ok [OF assms(2) ends(2)])
qed

lemma server_ok_reach:
  "(server_step handler)\<^sup>*\<^sup>* s t \<Longrightarrow> server_ok handler base bad s \<Longrightarrow> server_ok handler base bad t"
  by (induction rule: rtranclp_induct) (blast intro: server_ok_step)+

lemma server_start_ok:
  assumes "server_start stoi env argv k = (Inr (Inr m), k')" and "distinct (k_open k)"
  shows "server_ok handler (k_open k) (k_bad k) (server_init m g)"
proof -
  from assms(1) obtain port srv where "tcp_server_new env ''0.0.0.0'' port k = (Inr srv, k')" "m = main_init srv k'"
    by (auto simp: server_start_def split: sum.splits prod.splits)
  with one_owner_init [of env "''0.0.0.0''" port k srv k'] assms(2) show ?thesis
    by (simp add: server_ok_def server_init_def main_init_def)
qed


text \<open>A connection that has the server for itself.\<close>

lemma server_solo:
  assumes "solo t (sv_lib s) = (r, g)" and "i < length (sv_conns s)" and "sv_conns s ! i = (fd, received, t)"
  shows "(server_step handler)\<^sup>*\<^sup>* s (s\<lparr>sv_conns := (sv_conns s)[i := (fd, received, Done r)], sv_lib := g\<rparr>)"
  using assms
proof (induction t arbitrary: s)
  case (Done x)
  then have "(sv_conns s)[i := (fd, received, Done r)] = sv_conns s" "g = sv_lib s"
    by (auto simp: list_update_same_conv)
  then show ?case by simp
next
  case (Act f)
  obtain u h where f: "f (sv_lib s) = (u, h)" by (cases "f (sv_lib s)")
  let ?t = "s\<lparr>sv_conns := (sv_conns s)[i := (fd, received, u)], sv_lib := h\<rparr>"
  have "server_step handler s ?t"
    using Act.prems(2,3) f by (rule server_step.runs)
  moreover have "(server_step handler)\<^sup>*\<^sup>* ?t
      (?t\<lparr>sv_conns := (sv_conns ?t)[i := (fd, received, Done r)], sv_lib := g\<rparr>)"
    by (rule Act.IH [OF rangeI [of f "sv_lib s"]]) (use Act.prems f in auto)
  ultimately show ?case by (simp add: converse_rtranclp_into_rtranclp)
qed

end
