(* ===== verification/Properties_Threads.thy ===== *)
theory Properties_Threads
  imports Server_Main Properties_Session Properties_Transport
begin

text \<open>
  The properties of the servers with several connections at once: what any schedule of their threads
  guarantees, and two schedules that the absence of mutexes allows.
\<close>

section \<open>All schedules\<close>



text \<open>C3: The whole program of a server of \<open>tee-vfhe\<close> or \<open>tee-vfhe-bgvrns\<close>, from its command line on: in
  every state that it can reach, in any order of new connections, steps of threads, answers and failing
  accepts, each open descriptor has one owner, the connections are exactly the running threads, and
  everything that was sent on a connection is an error, or the response to the request that was
  received on it for the output of its own workload on its own ciphertexts. No schedule mixes the
  answers up.\<close>

theorem server_program_answers_own:
  assumes "server_start stoi env argv k = (Inr (Inr m), k')" and "distinct (k_open k)"
    and "(server_step (tee_connection P D L reg))\<^sup>*\<^sup>* (server_init m g) s"
    and "(server_step (bgv_connection P D L reg))\<^sup>*\<^sup>* (server_init m g) s'"
  shows "one_owner (k_open k) (k_bad k) (sv_main s) \<and> mset (map fst (sv_conns s)) = mset (m_threads (sv_main s)) \<and>
    (\<forall>(received, b) \<in> set (sv_sent s). answers_message (parse_request (pf_alloc P))
      (answers_own L reg (evaluated_response P D)) received b) \<and>
    one_owner (k_open k) (k_bad k) (sv_main s') \<and> mset (map fst (sv_conns s')) = mset (m_threads (sv_main s')) \<and>
    (\<forall>(received, b) \<in> set (sv_sent s'). answers_message (parse_request (pf_alloc P))
      (answers_own L reg (bgv_evaluated_response P D)) received b)"
proof -
  have "server_ok (tee_connection P D L reg) (k_open k) (k_bad k) s"
    by (rule server_ok_reach [OF assms(3) server_start_ok [OF assms(1,2)]])
  moreover have "server_ok (bgv_connection P D L reg) (k_open k) (k_bad k) s'"
    by (rule server_ok_reach [OF assms(4) server_start_ok [OF assms(1,2)]])
  ultimately show ?thesis
    unfolding server_ok_def by (elim conjE, intro conjI) (auto intro: connection_finals)
qed

text \<open>One connection: accepted, served, answered.\<close>

definition ex_main :: main_state where
  "ex_main = main_init \<lparr>listen_fd = 2, bound_port = 8080\<rparr> \<lparr>k_open = [2, 0, 1], k_bad = 0\<rparr>"

lemma ex_served:
  assumes "solo (handler received) [] = (Inr (Some b), g)"
  shows "\<exists>s. (server_step handler)\<^sup>*\<^sup>* (server_init ex_main []) s \<and> sv_sent s = [(received, b)]"
proof -
  let ?m = "ex_main\<lparr>m_kernel := \<lparr>k_open = [3, 2, 0, 1], k_bad = 0\<rparr>, m_threads := 3 # m_threads ex_main\<rparr>"
  have acc: "server_accept (m_srv ex_main) (m_kernel ex_main) [Accept_intr, Accepted] =
      Some (Inr 3, \<lparr>k_open = [3, 2, 0, 1], k_bad = 0\<rparr>, [])"
    by code_simp
  have accept: "main_step ex_main ?m"
    by (rule spawn [OF _ acc accept_iteration]) (simp add: ex_main_def main_init_def)
  let ?s1 = "(server_init ex_main [])\<lparr>sv_main := ?m, sv_conns := [(3, received, handler received)]\<rparr>"
  let ?s2 = "?s1\<lparr>sv_conns := [(3, received, Done (Inr (Some b)))], sv_lib := g\<rparr>"
  have "server_step handler (server_init ex_main []) ?s1"
    using server_step.connects [of "server_init ex_main []" ?m 3 handler received] accept by (simp add: server_init_def)
  moreover have "(server_step handler)\<^sup>*\<^sup>* ?s1 ?s2"
    using server_solo [of "handler received" ?s1 "Inr (Some b)" g 0 3 received handler] assms
    by (simp add: server_init_def)
  moreover have "server_step handler ?s2 (close_connection (3, received, Done (Inr (Some b)))
      (?s2\<lparr>sv_sent := [(received, b)]\<rparr>))"
    using server_step.answers [of 3 received b ?s2 handler] by (simp add: server_init_def)
  ultimately show ?thesis
    by (intro exI conjI) (erule converse_rtranclp_into_rtranclp, erule (1) rtranclp.rtrancl_into_rtrancl,
      simp add: close_connection_def)
qed

theorem server_program_answers_own_witness:
  "\<exists>s. (server_step (tee_connection (ex_platform []) ex_durations ex_openfhe ex_registry))\<^sup>*\<^sup>* (server_init ex_main []) s \<and>
    sv_sent s = [(Inr (build_request ex_request), evaluated_response (ex_platform []) ex_durations ex_request ex_output)] \<and>
    one_owner [0, 1] 0 (sv_main s)"
proof -
  let ?tee = "tee_connection (ex_platform []) ex_durations ex_openfhe ex_registry"
  let ?bgv = "bgv_connection (ex_platform []) ex_durations ex_openfhe ex_registry"
  have start: "server_start (\<lambda>_. Inr 8080) example_listen [''--port'', ''8080''] \<lparr>k_open = [0, 1], k_bad = 0\<rparr> =
      (Inr (Inr ex_main), \<lparr>k_open = [2, 0, 1], k_bad = 0\<rparr>)"
    by code_simp
  have parse: "parse_request (\<lambda>n. n < 1000) (build_request ex_request) = Inr ex_request"
    by (rule tee_request.parse_build [OF ex_sizes(1,2)])
  have "solo (?tee (Inr (build_request ex_request))) [] =
      (Inr (Some (evaluated_response (ex_platform []) ex_durations ex_request ex_output)), [to_string [3]])"
    using ex_evaluates(1) [THEN evaluate_request_ok]
    by (simp add: connection_alone handle_client_def try_then_def reply_def parse)
  from ex_served [of ?tee, OF this] obtain s where s: "(server_step ?tee)\<^sup>*\<^sup>* (server_init ex_main []) s"
    "sv_sent s = [(Inr (build_request ex_request), evaluated_response (ex_platform []) ex_durations ex_request ex_output)]"
    by blast
  have "(server_step ?bgv)\<^sup>*\<^sup>* (server_init ex_main []) (server_init ex_main [])" by simp
  from server_program_answers_own [OF start _ s(1) this] s show ?thesis by auto
qed

section \<open>What the missing mutexes allow\<close>

text \<open>C13: A connection to \<open>gpucc-vfhe\<close> can be served with the public key of another one: the handler
  stores the key in a static variable, and the GPU workload reads it there, after any number of other
  connections may have stored theirs. In the schedule below the request \<open>rq\<close> is answered with an
  evaluation that finds the key of \<open>rq'\<close>; the training on the GPU then runs with that key.\<close>

theorem gpu_connections_share_the_key:
  assumes "reg (rq_workload rq) = Some eval" and "reg (rq_workload rq') = Some eval'"
    and "load_public_key L (rq_public_key rq) s = (Inr pk, s1)"
    and "in_gpu_lib (gpu_load_eval_keys L (rq_keys rq)) s1 = (Inr ks, s2)"
    and "in_gpu_lib (load_inputs (openfhe.truncate L) (rq_cts rq)) s2 = (Inr ins, s3)"
    and "load_public_key L (rq_public_key rq') s3 = (Inr pk', s4)"
    and "eval (fl_pk_context L pk) ins s4 = (Inr out, s5)"
    and "serialize_ciphertext (openfhe.truncate L) out = Inr text"
  shows "(\<exists>t. pool_step\<^sup>*\<^sup>* (map (gpu_thread P D nv L reg) [rq, rq'], s)
      ([Done (Inr (Some (gpu_evaluated_response P D nv rq (to_bytes text)))), t], s5)) \<and>
    gg_client_pk s4 = Some pk' \<and>
    gpu_logistic_eval F C cc inputs s4 = in_gpu_lib (gpu_train F C (Some pk') inputs) s4"
proof -
  have "gg_client_pk s4 = Some pk'" using load_public_key_stores [OF assms(6)] .
  then show ?thesis
    using gpu_key_overwritten [OF assms] by (simp add: gpu_logistic_eval_def)
qed

text \<open>A library whose ciphertexts and keys are texts, and a workload that returns the key it finds.\<close>

definition ex_gpu_lib :: "(string list, unit, string, string) gpu_openfhe" where
  "ex_gpu_lib = openfhe.extend ex_openfhe \<lparr>fl_deserialize_pk = (\<lambda>s g. (Inr s, g)), fl_pk_context = (\<lambda>_. ())\<rparr>"

definition ex_gpu_registry :: "(string list, unit, string, string) gpu_workload registry" where
  "ex_gpu_registry = [''toy'' \<mapsto> (\<lambda>_ _ s. (Inr (the (gg_client_pk s)), s))]"

definition ex_gpu_globals :: "(string list, string) gpu_globals" where
  "ex_gpu_globals = \<lparr>gg_lib = [], gg_client_pk = None\<rparr>"

theorem gpu_connections_share_the_key_witness:
  "\<exists>t s. pool_step\<^sup>*\<^sup>* (map (gpu_thread (ex_platform []) ex_durations ex_nvat ex_gpu_lib ex_gpu_registry)
      [ex_gpu_request, ex_gpu_request\<lparr>rq_public_key := [11]\<rparr>], ex_gpu_globals)
    ([Done (Inr (Some (gpu_evaluated_response (ex_platform []) ex_durations ex_nvat ex_gpu_request [11]))), t], s)"
proof -
  let ?s = "\<lambda>g k. \<lparr>gg_lib = g, gg_client_pk = Some k\<rparr> :: (string list, string) gpu_globals"
  let ?other = "ex_gpu_request\<lparr>rq_public_key := [11]\<rparr>"
  have reg: "ex_gpu_registry (rq_workload ex_gpu_request) = Some (\<lambda>_ _ s. (Inr (the (gg_client_pk s)), s))"
    "ex_gpu_registry (rq_workload ?other) = Some (\<lambda>_ _ s. (Inr (the (gg_client_pk s)), s))"
    by (simp_all add: ex_gpu_registry_def ex_gpu_request_def request.extend_def ex_request_def)
  have load: "load_public_key ex_gpu_lib b s = (Inr (to_string b), ?s (gg_lib s) (to_string b))" for b s
    by (cases s) (simp add: load_public_key_def in_gpu_lib_def on_field_def set_client_public_key_def bind_p_def
        ex_gpu_lib_def openfhe.extend_def)
  have keys: "in_gpu_lib (gpu_load_eval_keys ex_gpu_lib (rq_keys ex_gpu_request)) (?s [] k) =
      (Inr [()], ?s [to_string [3]] k)" for k
    by (simp add: gpu_load_eval_keys_def gpu_load_eval_key_def in_gpu_lib_def on_field_def bind_p_def try_p_def
        ex_gpu_lib_def openfhe.extend_def ex_openfhe_def ex_gpu_request_def request.extend_def ex_request_def Let_def)
  have cts: "in_gpu_lib (load_inputs (openfhe.truncate ex_gpu_lib) (rq_cts ex_gpu_request)) (?s g k) =
      (Inr [to_string [4], to_string [5, 6]], ?s g k)" for g k
    by (simp add: load_inputs_def deserialize_ciphertext_def in_gpu_lib_def on_field_def bind_p_def
        openfhe.truncate_def ex_gpu_lib_def openfhe.extend_def ex_openfhe_def ex_gpu_request_def
        request.extend_def ex_request_def)
  have ser: "serialize_ciphertext (openfhe.truncate ex_gpu_lib) c = Inr c" for c
    by (simp add: serialize_ciphertext_def openfhe.truncate_def ex_gpu_lib_def openfhe.extend_def ex_openfhe_def)
  let ?k = "to_string (rq_public_key ex_gpu_request)"
  have first: "load_public_key ex_gpu_lib (rq_public_key ex_gpu_request) ex_gpu_globals = (Inr ?k, ?s [] ?k)"
    by (simp add: load ex_gpu_globals_def)
  have second: "load_public_key ex_gpu_lib (rq_public_key ?other) (?s [to_string [3]] ?k) =
      (Inr (to_string [11]), ?s [to_string [3]] (to_string [11]))"
    by (simp add: load)
  have eval: "(Inr (the (gg_client_pk (?s g k))), ?s g k) = (Inr k, ?s g k)" for g k
    by simp
  from gpu_connections_share_the_key [OF reg first keys cts second eval ser, of "ex_platform []" ex_durations ex_nvat,
      THEN conjunct1] show ?thesis unfolding to_bytes_to_string by blast
qed


text \<open>Two relations with one public input each; a proof is right only under its own key.\<close>

definition ex_two_relations :: "(unit, unit, byte, byte, byte, byte, byte, byte, byte) zk_env" where
  "ex_two_relations = ex_zk_env\<lparr>ze_zk := \<lparr>zl_new = (\<lambda>_. 0), zl_set_mode = (\<lambda>_ ps. ps), zl_cs = (\<lambda>ps. ps),
     zl_primary = (\<lambda>_. [1, 2]), zl_auxiliary = (\<lambda>ps. 253 - ps), zl_num_constraints = unat\<rparr>\<rparr>"


end
