(* ===== verification/Text_Output.thy ===== *)
theory Text_Output
  imports Effects Complex_Main
begin

text \<open>
  Numbers as text, as \<open>snprintf\<close> and \<open>std::ostream\<close> print them: fixed, scientific and shortest
  notation, the field width, and the format flags of a stream, which stay set until they are changed.
  Values of type \<open>double\<close> are reals with the two infinities and NaN; rounding of the arithmetic is
  left out, rounding of the printed digits is not.
\<close>

section \<open>Values of type \<open>double\<close>\<close>

text \<open>\<open>Inf True\<close> is the negative infinity. Zero has no sign here.\<close>

datatype double = Fin real | Inf bool | NaN

instantiation double :: ord
begin

fun less_eq_double :: "double \<Rightarrow> double \<Rightarrow> bool" where
  "less_eq_double (Fin x) (Fin y) \<longleftrightarrow> x \<le> y"
| "less_eq_double NaN d \<longleftrightarrow> False"
| "less_eq_double d NaN \<longleftrightarrow> False"
| "less_eq_double (Inf s) (Inf t) \<longleftrightarrow> t \<longrightarrow> s"
| "less_eq_double (Inf s) (Fin y) \<longleftrightarrow> s"
| "less_eq_double (Fin x) (Inf t) \<longleftrightarrow> \<not> t"

definition less_double :: "double \<Rightarrow> double \<Rightarrow> bool" where
  "less_double a b \<longleftrightarrow> a \<le> b \<and> \<not> b \<le> a"

instance ..

end

instantiation double :: divide
begin

text \<open>A finite numerator over zero is an infinity, zero over zero is not a number.\<close>

fun divide_double :: "double \<Rightarrow> double \<Rightarrow> double" where
  "divide_double (Fin x) (Fin y) =
     (if y \<noteq> 0 then Fin (x / y) else if x = 0 then NaN else Inf (x < 0))"
| "divide_double (Inf s) (Fin y) = Inf (s \<noteq> (y < 0))"
| "divide_double (Fin x) (Inf t) = Fin 0"
| "divide_double _ _ = NaN"

instance ..

end

section \<open>Decimal digits\<close>

definition round_even :: "real \<Rightarrow> int" where
  "round_even x = (let n = \<lfloor>x\<rfloor>; d = x - of_int n
     in if d < 1 / 2 then n else if 1 / 2 < d then n + 1 else if even n then n else n + 1)"

definition pad_left :: "nat \<Rightarrow> char \<Rightarrow> string \<Rightarrow> string" where
  "pad_left n c s = replicate (n - length s) c @ s"

definition pad_right :: "nat \<Rightarrow> char \<Rightarrow> string \<Rightarrow> string" where
  "pad_right n c s = s @ replicate (n - length s) c"

definition minus_sign :: "real \<Rightarrow> string" where
  "minus_sign x = (if x < 0 then ''-'' else [])"

text \<open>\<open>m / 10 ^ p\<close> with \<open>p\<close> digits after the point.\<close>

definition with_point :: "nat \<Rightarrow> nat \<Rightarrow> string" where
  "with_point p m = dec_str (m div 10 ^ p) @
     (if p = 0 then [] else ''.'' @ pad_left p (CHR ''0'') (dec_str (m mod 10 ^ p)))"

definition fixed_text :: "nat \<Rightarrow> real \<Rightarrow> string" where
  "fixed_text p x = minus_sign x @ with_point p (nat (round_even (\<bar>x\<bar> * 10 ^ p)))"

text \<open>The power of ten of the first digit, in the range of a \<open>double\<close>.\<close>

definition decimal_exponent :: "real \<Rightarrow> int" where
  "decimal_exponent x = (case List.find (\<lambda>e. 10 powi e \<le> \<bar>x\<bar>) (rev [-324..308]) of
     Some e \<Rightarrow> e | None \<Rightarrow> 0)"

text \<open>The digits with \<open>p\<close> of them after the point, and the exponent, which a rounding may raise.\<close>

definition sci_digits :: "nat \<Rightarrow> real \<Rightarrow> nat \<times> int" where
  "sci_digits p x = (let e = decimal_exponent x; m = nat (round_even (\<bar>x\<bar> * 10 powi (int p - e)))
     in if m = 10 ^ (p + 1) then (m div 10, e + 1) else (m, e))"

definition exponent_text :: "int \<Rightarrow> string" where
  "exponent_text e = ''e'' @ (if e < 0 then ''-'' else ''+'') @ pad_left 2 (CHR ''0'') (dec_str (nat \<bar>e\<bar>))"

definition sci_text :: "nat \<Rightarrow> real \<Rightarrow> string" where
  "sci_text p x = (case sci_digits p x of (m, e) \<Rightarrow> minus_sign x @ with_point p m @ exponent_text e)"

definition drop_zeros :: "string \<Rightarrow> string" where
  "drop_zeros s = (if CHR ''.'' \<in> set s
     then let t = rev (dropWhile (\<lambda>c. c = CHR ''0'') (rev s))
          in if t \<noteq> [] \<and> last t = CHR ''.'' then butlast t else t
     else s)"

definition general_text :: "nat \<Rightarrow> real \<Rightarrow> string" where
  "general_text prec x = (let p = max 1 prec in case sci_digits (p - 1) x of (m, e) \<Rightarrow>
     if -4 \<le> e \<and> e < int p then drop_zeros (fixed_text (nat (int p - 1 - e)) x)
     else minus_sign x @ drop_zeros (with_point (p - 1) m) @ exponent_text e)"

text \<open>What is not finite is printed in the same way in all formats.\<close>

fun double_text :: "(real \<Rightarrow> string) \<Rightarrow> double \<Rightarrow> string" where
  "double_text f (Fin x) = f x"
| "double_text f (Inf s) = (if s then ''-inf'' else ''inf'')"
| "double_text f NaN = ''-nan''"

text \<open>\<open>snprintf\<close> into a buffer of \<open>n\<close> characters keeps what fits before the terminator.\<close>

definition snprintf :: "nat \<Rightarrow> string \<Rightarrow> string" where
  "snprintf n s = take (n - 1) s"

section \<open>Streams\<close>

datatype float_format = Default_float | Fixed_float | Scientific_float

record ostream =
  os_text :: string
  os_float :: float_format
  os_precision :: nat
  os_left :: bool
  os_width :: nat

definition cout_init :: ostream where
  "cout_init = \<lparr>os_text = [], os_float = Default_float, os_precision = 6, os_left = False, os_width = 0\<rparr>"

datatype out_item =
    Put string
  | Put_nat nat
  | Put_double double
  | Fmt float_format
  | Setprecision nat
  | Left_adjust
  | Right_adjust
  | Setw nat

definition os_put :: "string \<Rightarrow> ostream \<Rightarrow> ostream" where
  "os_put s os = os\<lparr>os_text := os_text os @
     (if os_left os then pad_right (os_width os) (CHR '' '') s else pad_left (os_width os) (CHR '' '') s),
     os_width := 0\<rparr>"

definition stream_double :: "ostream \<Rightarrow> double \<Rightarrow> string" where
  "stream_double os d = double_text (case os_float os of
      Default_float \<Rightarrow> general_text (os_precision os)
    | Fixed_float \<Rightarrow> fixed_text (os_precision os)
    | Scientific_float \<Rightarrow> sci_text (os_precision os)) d"

fun os_item :: "out_item \<Rightarrow> ostream \<Rightarrow> ostream" where
  "os_item (Put s) os = os_put s os"
| "os_item (Put_nat n) os = os_put (dec_str n) os"
| "os_item (Put_double d) os = os_put (stream_double os d) os"
| "os_item (Fmt f) os = os\<lparr>os_float := f\<rparr>"
| "os_item (Setprecision p) os = os\<lparr>os_precision := p\<rparr>"
| "os_item Left_adjust os = os\<lparr>os_left := True\<rparr>"
| "os_item Right_adjust os = os\<lparr>os_left := False\<rparr>"
| "os_item (Setw n) os = os\<lparr>os_width := n\<rparr>"

definition os_items :: "out_item list \<Rightarrow> ostream \<Rightarrow> ostream" where
  "os_items items os = fold os_item items os"

section \<open>The characters of numbers\<close>

text \<open>No number contains the separators of a table.\<close>

definition plain :: "string \<Rightarrow> bool" where
  "plain s \<longleftrightarrow> CHR '','' \<notin> set s \<and> CHR 0x0A \<notin> set s"

lemma plain_append [simp]: "plain (s @ t) \<longleftrightarrow> plain s \<and> plain t"
  by (auto simp: plain_def)

lemma plain_Nil [simp]: "plain []"
  and plain_Cons [simp]: "plain (c # s) \<longleftrightarrow> c \<noteq> CHR '','' \<and> c \<noteq> CHR 0x0A \<and> plain s"
  by (auto simp: plain_def)

lemma plain_replicate [simp]: "plain [c] \<Longrightarrow> plain (replicate n c)"
  by (auto simp: plain_def)

lemma plain_subset: "plain s \<Longrightarrow> set t \<subseteq> set s \<Longrightarrow> plain t"
  by (auto simp: plain_def)

lemma digit_plain: "is_digit c \<Longrightarrow> c \<noteq> CHR '','' \<and> c \<noteq> CHR 0x0A"
  by (auto simp: is_digit_def)

lemma plain_dec_str [simp]: "plain (dec_str n)"
  using dec_str_digits [of n] by (auto simp: plain_def list_all_iff dest: digit_plain)

lemma plain_with_point [simp]: "plain (with_point p m)"
  by (simp add: with_point_def pad_left_def)

lemma plain_sign [simp]: "plain (minus_sign x)"
  by (simp add: minus_sign_def)

lemma plain_exponent [simp]: "plain (exponent_text e)"
  by (simp add: exponent_text_def pad_left_def)

lemma plain_fixed [simp]: "plain (fixed_text p x)"
  by (simp add: fixed_text_def)

lemma plain_sci [simp]: "plain (sci_text p x)"
  by (simp add: sci_text_def split: prod.split)

lemma plain_drop_zeros:
  assumes "plain s"
  shows "plain (drop_zeros s)"
proof -
  let ?t = "rev (dropWhile (\<lambda>c. c = CHR ''0'') (rev s))"
  have sub: "set ?t \<subseteq> set s"
    by (auto dest: set_dropWhileD)
  then have "set (butlast ?t) \<subseteq> set s"
    by (blast dest: in_set_butlastD)
  with sub assms show ?thesis
    by (simp only: drop_zeros_def Let_def split: if_split) (blast intro: plain_subset)
qed

lemma plain_general [simp]: "plain (general_text p x)"
  by (auto simp: general_text_def Let_def intro: plain_drop_zeros split: prod.split)

lemma plain_double: "(\<And>x. plain (f x)) \<Longrightarrow> plain (double_text f d)"
  by (cases d) (auto simp: plain_def)

lemma plain_double_texts [simp]:
  "plain (double_text (fixed_text p) d)" "plain (double_text (sci_text p) d)"
  "plain (double_text (general_text p) d)"
  by (simp_all add: plain_double)

lemma plain_snprintf [simp]: "plain s \<Longrightarrow> plain (snprintf n s)"
  by (erule plain_subset) (auto simp: snprintf_def dest: in_set_takeD)

text \<open>Without a field width an item appends its text.\<close>

lemma os_put_no_width [simp]: "os_width os = 0 \<Longrightarrow> os_put s os = os\<lparr>os_text := os_text os @ s\<rparr>"
  by (simp add: os_put_def pad_left_def pad_right_def)

lemma os_items_simps [simp]:
  "os_items [] os = os" "os_items (i # is) os = os_items is (os_item i os)"
  by (simp_all add: os_items_def)

lemma os_items_append: "os_items (is @ js) os = os_items js (os_items is os)"
  by (simp add: os_items_def)

section \<open>Reading a table back\<close>

text \<open>The parts of a text between the occurrences of a separator.\<close>

fun split_on :: "char \<Rightarrow> string \<Rightarrow> string list" where
  "split_on c [] = [[]]"
| "split_on c (x # xs) = (if x = c then [] # split_on c xs else (x # hd (split_on c xs)) # tl (split_on c xs))"

lemma split_on_nonempty [simp]: "split_on c s \<noteq> []"
  by (induction s) auto

lemma split_on_plain: "c \<notin> set s \<Longrightarrow> split_on c s = [s]"
  by (induction s) auto

lemma split_on_append_sep: "c \<notin> set s \<Longrightarrow> split_on c (s @ c # t) = s # split_on c t"
  by (induction s) auto

end
