(* ===== verification/Aes_Bench.thy ===== *)
theory Aes_Bench
  imports Text_Output "HOL-Library.Multiset"
begin

text \<open>
  The micro-benchmark of AES-256-GCM against GMAC-256 (\<open>small_benchmarks/aes-gcm/bench.cpp\<close>). The EVP
  interface of OpenSSL and the clock are a record of operations; what OpenSSL documents about them is
  stated over a view of the state: the phase that each live cipher context is in, and the clock
  readings so far.
\<close>

section \<open>The library and the clock\<close>

text \<open>
  Calls return their status, which the code drops. An update or a final call may also store a length
  in \<open>*outl\<close>, and write bytes at its output pointer; the flag of \<open>ev_update\<close> tells whether there is
  one. \<open>ev_now\<close> reads the clock in nanoseconds; nothing is said about its readings.
\<close>

record ('g, 'c) evp =
  ev_setup :: "('g, unit) prog"
  ev_new :: "('g, 'c) prog"
  ev_init_cipher :: "'c \<Rightarrow> ('g, int) prog"
  ev_set_ivlen :: "'c \<Rightarrow> nat \<Rightarrow> ('g, int) prog"
  ev_init_key :: "'c \<Rightarrow> bytes \<Rightarrow> bytes \<Rightarrow> ('g, int) prog"
  ev_update :: "'c \<Rightarrow> bool \<Rightarrow> bytes \<Rightarrow> int \<Rightarrow> ('g, int \<times> int option \<times> bytes) prog"
  ev_final :: "'c \<Rightarrow> ('g, int \<times> int option \<times> bytes) prog"
  ev_get_tag :: "'c \<Rightarrow> nat \<Rightarrow> ('g, int \<times> bytes) prog"
  ev_free :: "'c \<Rightarrow> ('g, unit) prog"
  ev_cleanup :: "('g, unit) prog"
  ev_now :: "('g, int) prog"

datatype gcm_phase =
    Fresh
  | Chosen nat
  | Keyed bytes bytes bytes bytes
  | Finished bytes bytes bytes bytes

record ('g, 'c) evp_view =
  ew_phase :: "'g \<Rightarrow> 'c \<Rightarrow> gcm_phase option"
  ew_readings :: "'g \<Rightarrow> int list"
  ew_gcm :: "bytes \<Rightarrow> bytes \<Rightarrow> bytes \<Rightarrow> bytes \<Rightarrow> bytes"
  ew_tag :: "bytes \<Rightarrow> bytes \<Rightarrow> bytes \<Rightarrow> bytes \<Rightarrow> bytes"

text \<open>
  \<open>moves V g c p g'\<close>: the context \<open>c\<close> is in phase \<open>p\<close> now, and nothing else has changed; \<open>quiet V g g'\<close>:
  nothing has changed.
\<close>

definition moves :: "('g, 'c) evp_view \<Rightarrow> 'g \<Rightarrow> 'c \<Rightarrow> gcm_phase option \<Rightarrow> 'g \<Rightarrow> bool" where
  "moves V g c p g' \<longleftrightarrow> ew_phase V g' = (ew_phase V g)(c := p) \<and> ew_readings V g' = ew_readings V g"

text \<open>
  The documented protocol: choose the cipher, which sets the length of the initialisation vector to
  12, set the length, set key and vector, feed the additional data without an output pointer and then
  the text with one, finish, read the tag, free. AES-256 has keys of 32 bytes; tags have 16.
\<close>

definition quiet :: "('g, 'c) evp_view \<Rightarrow> 'g \<Rightarrow> 'g \<Rightarrow> bool" where
  "quiet V g g' \<longleftrightarrow> ew_phase V g' = ew_phase V g \<and> ew_readings V g' = ew_readings V g"

definition evp_works :: "('g, 'c) evp \<Rightarrow> ('g, 'c) evp_view \<Rightarrow> bool" where
  "evp_works L V \<longleftrightarrow>
     (\<forall>g. runs (ev_setup L) g (\<lambda>_. quiet V g)) \<and> (\<forall>g. runs (ev_cleanup L) g (\<lambda>_. quiet V g)) \<and>
     (\<forall>g. runs (ev_new L) g (\<lambda>c g'. ew_phase V g c = None \<and> moves V g c (Some Fresh) g')) \<and>
     (\<forall>g c. ew_phase V g c = Some Fresh \<longrightarrow>
        runs (ev_init_cipher L c) g (\<lambda>_ g'. moves V g c (Some (Chosen 12)) g')) \<and>
     (\<forall>g c n m. ew_phase V g c = Some (Chosen m) \<longrightarrow> 0 < n \<longrightarrow>
        runs (ev_set_ivlen L c n) g (\<lambda>_ g'. moves V g c (Some (Chosen n)) g')) \<and>
     (\<forall>g c n key iv. ew_phase V g c = Some (Chosen n) \<longrightarrow> length key = 32 \<longrightarrow> length iv = n \<longrightarrow>
        runs (ev_init_key L c key iv) g (\<lambda>_ g'. moves V g c (Some (Keyed key iv [] [])) g')) \<and>
     (\<forall>g c key iv a buf n. ew_phase V g c = Some (Keyed key iv a []) \<longrightarrow> 0 \<le> n \<longrightarrow> n \<le> int (length buf) \<longrightarrow>
        runs (ev_update L c False buf n) g (\<lambda>(r, outl, w) g'. outl = Some n \<and> w = [] \<and>
          moves V g c (Some (Keyed key iv (a @ take (nat n) buf) [])) g')) \<and>
     (\<forall>g c key iv a buf n. ew_phase V g c = Some (Keyed key iv a []) \<longrightarrow> 0 \<le> n \<longrightarrow> n \<le> int (length buf) \<longrightarrow>
        runs (ev_update L c True buf n) g (\<lambda>(r, outl, w) g'. outl = Some n \<and>
          w = ew_gcm V key iv a (take (nat n) buf) \<and>
          moves V g c (Some (Keyed key iv a (take (nat n) buf))) g')) \<and>
     (\<forall>g c key iv a t. ew_phase V g c = Some (Keyed key iv a t) \<longrightarrow>
        runs (ev_final L c) g (\<lambda>(r, outl, w) g'. outl = Some 0 \<and> w = [] \<and>
          moves V g c (Some (Finished key iv a t)) g')) \<and>
     (\<forall>g c key iv a t. ew_phase V g c = Some (Finished key iv a t) \<longrightarrow>
        runs (ev_get_tag L c 16) g (\<lambda>(r, w) g'. w = ew_tag V key iv a t \<and>
          moves V g c (Some (Finished key iv a t)) g')) \<and>
     (\<forall>g c p. ew_phase V g c = Some p \<longrightarrow> runs (ev_free L c) g (\<lambda>_ g'. moves V g c None g')) \<and>
     (\<forall>g. runs (ev_now L) g (\<lambda>t g'. ew_phase V g' = ew_phase V g \<and>
        ew_readings V g' = ew_readings V g @ [t])) \<and>
     (\<forall>key iv a t. length (ew_gcm V key iv a t) = length t \<and> length (ew_tag V key iv a t) = 16)"

lemma evp_worksD:
  assumes "evp_works L V"
  shows ev_setup: "runs (ev_setup L) g (\<lambda>_. quiet V g)"
    and ev_cleanup: "runs (ev_cleanup L) g (\<lambda>_. quiet V g)"
    and ev_new: "runs (ev_new L) g (\<lambda>c g'. ew_phase V g c = None \<and> moves V g c (Some Fresh) g')"
    and ev_init_cipher: "ew_phase V g c = Some Fresh \<Longrightarrow>
      runs (ev_init_cipher L c) g (\<lambda>_ g'. moves V g c (Some (Chosen 12)) g')"
    and ev_set_ivlen: "ew_phase V g c = Some (Chosen m) \<Longrightarrow> 0 < n \<Longrightarrow>
      runs (ev_set_ivlen L c n) g (\<lambda>_ g'. moves V g c (Some (Chosen n)) g')"
    and ev_init_key: "ew_phase V g c = Some (Chosen n) \<Longrightarrow> length key = 32 \<Longrightarrow> length iv = n \<Longrightarrow>
      runs (ev_init_key L c key iv) g (\<lambda>_ g'. moves V g c (Some (Keyed key iv [] [])) g')"
    and ev_update_aad: "ew_phase V g c = Some (Keyed key iv a []) \<Longrightarrow> 0 \<le> k \<Longrightarrow> k \<le> int (length buf) \<Longrightarrow>
      runs (ev_update L c False buf k) g (\<lambda>(r, outl, w) g'. outl = Some k \<and> w = [] \<and>
        moves V g c (Some (Keyed key iv (a @ take (nat k) buf) [])) g')"
    and ev_update_text: "ew_phase V g c = Some (Keyed key iv a []) \<Longrightarrow> 0 \<le> k \<Longrightarrow> k \<le> int (length buf) \<Longrightarrow>
      runs (ev_update L c True buf k) g (\<lambda>(r, outl, w) g'. outl = Some k \<and>
        w = ew_gcm V key iv a (take (nat k) buf) \<and> moves V g c (Some (Keyed key iv a (take (nat k) buf))) g')"
    and ev_final: "ew_phase V g c = Some (Keyed key iv a t) \<Longrightarrow>
      runs (ev_final L c) g (\<lambda>(r, outl, w) g'. outl = Some 0 \<and> w = [] \<and>
        moves V g c (Some (Finished key iv a t)) g')"
    and ev_get_tag: "ew_phase V g c = Some (Finished key iv a t) \<Longrightarrow>
      runs (ev_get_tag L c 16) g (\<lambda>(r, w) g'. w = ew_tag V key iv a t \<and>
        moves V g c (Some (Finished key iv a t)) g')"
    and ev_free: "ew_phase V g c = Some p \<Longrightarrow> runs (ev_free L c) g (\<lambda>_ g'. moves V g c None g')"
    and ev_now: "runs (ev_now L) g (\<lambda>t g'. ew_phase V g' = ew_phase V g \<and>
      ew_readings V g' = ew_readings V g @ [t])"
    and ev_lengths: "length (ew_gcm V key iv a t) = length t" "length (ew_tag V key iv a t) = 16"
  using assms unfolding evp_works_def by simp_all

section \<open>One operation\<close>

text \<open>Writing at an offset of a buffer, and \<open>ciphertext.data() + len\<close>, for a \<open>len\<close> that may not be set.\<close>

definition put_at :: "bytes \<Rightarrow> nat \<Rightarrow> bytes \<Rightarrow> bytes result" where
  "put_at buf off w = (if off + length w \<le> length buf
     then Inr (take off buf @ w @ drop (off + length w) buf)
     else Inl (Ub ''write outside of a buffer''))"

definition null_out :: "bytes \<Rightarrow> unit result" where
  "null_out w = (if w = [] then Inr () else Inl (Ub ''write through a null pointer''))"

definition offset_in :: "bytes \<Rightarrow> int option \<Rightarrow> nat result" where
  "offset_in buf len = (case len of
      None \<Rightarrow> Inl (Ub ''read of an uninitialised variable'')
    | Some n \<Rightarrow> if 0 \<le> n \<and> n \<le> int (length buf) then Inr (nat n)
                else Inl (Ub ''pointer outside of a buffer''))"

text \<open>A \<open>size_t\<close> as an argument of type \<open>int\<close>.\<close>

definition as_int :: "nat \<Rightarrow> int" where
  "as_int n = sint (word_of_nat n :: 32 word)"

definition stored :: "int option \<Rightarrow> int option \<Rightarrow> int option" where
  "stored len outl = (case outl of None \<Rightarrow> len | Some n \<Rightarrow> Some n)"

definition start_context :: "('g, 'c) evp \<Rightarrow> bytes \<Rightarrow> bytes \<Rightarrow> ('g, 'c) prog" where
  "start_context L key iv =
     bind_p (ev_new L) (\<lambda>ctx.
     bind_p (ev_init_cipher L ctx) (\<lambda>_.
     bind_p (ev_set_ivlen L ctx 12) (\<lambda>_.
     bind_p (ev_init_key L ctx key iv) (\<lambda>_. ret ctx))))"

definition feed_aad :: "('g, 'c) evp \<Rightarrow> 'c \<Rightarrow> bytes \<Rightarrow> nat \<Rightarrow> ('g, int option) prog" where
  "feed_aad L ctx aad aad_len =
     (if 0 < aad_len
      then bind_p (ev_update L ctx False aad (as_int aad_len)) (\<lambda>(_, outl, w).
           bind_p (lift_p (null_out w)) (\<lambda>_. ret (stored None outl)))
      else ret None)"

definition feed_text :: "('g, 'c) evp \<Rightarrow> 'c \<Rightarrow> bytes \<Rightarrow> nat \<Rightarrow> int option \<Rightarrow> bytes \<Rightarrow>
    ('g, int option \<times> bytes) prog" where
  "feed_text L ctx plaintext pt_len len ciphertext =
     (if 0 < pt_len
      then bind_p (ev_update L ctx True plaintext (as_int pt_len)) (\<lambda>(_, outl, w).
           bind_p (lift_p (put_at ciphertext 0 w)) (\<lambda>ct. ret (stored len outl, ct)))
      else ret (len, ciphertext))"

definition finish_tag :: "('g, 'c) evp \<Rightarrow> 'c \<Rightarrow> bytes \<Rightarrow> ('g, bytes) prog" where
  "finish_tag L ctx tag =
     bind_p (ev_get_tag L ctx 16) (\<lambda>(_, w).
     bind_p (lift_p (put_at tag 0 w)) (\<lambda>tag'.
     bind_p (ev_free L ctx) (\<lambda>_. ret tag')))"

definition gcm_pass :: "('g, 'c) evp \<Rightarrow> bytes \<Rightarrow> bytes \<Rightarrow> bytes \<Rightarrow> nat \<Rightarrow> bytes \<Rightarrow> nat \<Rightarrow>
    bytes \<times> bytes \<Rightarrow> ('g, bytes \<times> bytes) prog" where
  "gcm_pass L key iv aad aad_len plaintext pt_len bufs = (case bufs of (ciphertext, tag) \<Rightarrow>
     bind_p (start_context L key iv) (\<lambda>ctx.
     bind_p (feed_aad L ctx aad aad_len) (\<lambda>len.
     bind_p (feed_text L ctx plaintext pt_len len ciphertext) (\<lambda>(len1, ciphertext1).
     bind_p (lift_p (offset_in ciphertext1 len1)) (\<lambda>off.
     bind_p (ev_final L ctx) (\<lambda>(_, _, w).
     bind_p (lift_p (put_at ciphertext1 off w)) (\<lambda>ciphertext2.
     bind_p (finish_tag L ctx tag) (\<lambda>tag1. ret (ciphertext2, tag1)))))))))"

definition gmac_pass :: "('g, 'c) evp \<Rightarrow> bytes \<Rightarrow> bytes \<Rightarrow> bytes \<Rightarrow> nat \<Rightarrow> bytes \<Rightarrow> ('g, bytes) prog" where
  "gmac_pass L key iv aad aad_len tag =
     bind_p (start_context L key iv) (\<lambda>ctx.
     bind_p (feed_aad L ctx aad aad_len) (\<lambda>_.
     bind_p (ev_final L ctx) (\<lambda>(_, _, w).
     bind_p (lift_p (null_out w)) (\<lambda>_. finish_tag L ctx tag))))"

section \<open>Measuring\<close>

text \<open>
  What both benchmarks do with their operation: three passes that are not measured, then the measured
  ones, and the entry in the middle of the sorted times. Times are seconds; the operation works on
  buffers that it keeps from one pass to the next.
\<close>

definition timed :: "('g, 'c) evp \<Rightarrow> ('b \<Rightarrow> ('g, 'b) prog) \<Rightarrow> 'b \<times> real list \<Rightarrow> ('g, 'b \<times> real list) prog" where
  "timed L pass acc = (case acc of (bufs, samples) \<Rightarrow>
     bind_p (ev_now L) (\<lambda>t0.
     bind_p (pass bufs) (\<lambda>bufs1.
     bind_p (ev_now L) (\<lambda>t1. ret (bufs1, samples @ [of_int (t1 - t0) / 10 ^ 9])))))"

definition middle :: "real list \<Rightarrow> real result" where
  "middle samples = (let ts = sort samples in
     if length ts div 2 < length ts then Inr (ts ! (length ts div 2))
     else Inl (Ub ''read outside of a vector''))"

definition measure_op :: "('g, 'c) evp \<Rightarrow> ('b \<Rightarrow> ('g, 'b) prog) \<Rightarrow> 'b \<Rightarrow> int \<Rightarrow> ('g, real) prog" where
  "measure_op L pass bufs iterations =
     bind_p (fold_p (\<lambda>_. pass) [0..<3::nat] bufs) (\<lambda>bufs1.
     if iterations < 0 then raise (Throw (Length_error ''vector::reserve''))
     else bind_p (fold_p (\<lambda>_. timed L pass) [0..<nat iterations] (bufs1, [])) (\<lambda>(_, samples).
          lift_p (middle samples)))"

definition bench_aes_gcm :: "('g, 'c) evp \<Rightarrow> bytes \<Rightarrow> bytes \<Rightarrow> bytes \<Rightarrow> nat \<Rightarrow> bytes \<Rightarrow> nat \<Rightarrow> int \<Rightarrow> ('g, real) prog" where
  "bench_aes_gcm L key iv aad aad_len plaintext pt_len iterations =
     measure_op L (gcm_pass L key iv aad aad_len plaintext pt_len) (replicate pt_len 0, replicate 16 0) iterations"

definition bench_gmac :: "('g, 'c) evp \<Rightarrow> bytes \<Rightarrow> bytes \<Rightarrow> bytes \<Rightarrow> nat \<Rightarrow> int \<Rightarrow> ('g, real) prog" where
  "bench_gmac L key iv aad aad_len iterations =
     measure_op L (gmac_pass L key iv aad aad_len) (replicate 16 0) iterations"

text \<open>
  From the median of ten operations, the number of iterations that take about \<open>target_sec\<close>.
\<close>

definition clamp_iterations :: "real \<Rightarrow> real \<Rightarrow> int" where
  "clamp_iterations target_sec t =
     (let t1 = (if t \<le> 1 / 10 ^ 12 then 1 / 10 ^ 12 else t);
          est = target_sec / t1;
          est1 = (if est > 100000 then 100000 else est);
          est2 = (if est1 < 5 then 5 else est1)
      in \<lfloor>est2\<rfloor>)"

definition calibrate_iterations :: "('g, 'c) evp \<Rightarrow> bytes \<Rightarrow> bytes \<Rightarrow> bytes \<Rightarrow> nat \<Rightarrow> bytes \<Rightarrow> nat \<Rightarrow> real \<Rightarrow>
    ('g, int) prog" where
  "calibrate_iterations L key iv aad aad_len plaintext pt_len target_sec =
     bind_p (bench_aes_gcm L key iv aad aad_len plaintext pt_len 10) (\<lambda>t.
     ret (clamp_iterations target_sec t))"

definition calibrate_gmac_iterations :: "('g, 'c) evp \<Rightarrow> bytes \<Rightarrow> bytes \<Rightarrow> bytes \<Rightarrow> nat \<Rightarrow> real \<Rightarrow> ('g, int) prog" where
  "calibrate_gmac_iterations L key iv aad aad_len target_sec =
     bind_p (bench_gmac L key iv aad aad_len 10) (\<lambda>t. ret (clamp_iterations target_sec t))"


section \<open>What one pass does\<close>

lemma as_int_small: "n < 2 ^ 31 \<Longrightarrow> as_int n = int n"
  by (simp add: as_int_def signed_of_nat signed_take_bit_int_eq_self)

lemma start_context_runs:
  assumes "evp_works L V" "length key = 32" "length iv = 12"
  shows "runs (start_context L key iv) g (\<lambda>c g'. ew_phase V g c = None \<and>
    moves V g c (Some (Keyed key iv [] [])) g')"
  unfolding start_context_def
  using assms
  by (auto simp: moves_def intro!: runs_bind [OF ev_new] runs_bind [OF ev_init_cipher]
      runs_bind [OF ev_set_ivlen] runs_bind [OF ev_init_key])

declare prog_run [simp del]

lemma bind_known [simp]: "bind_p (lift_p (Inr x)) f = f x" "bind_p (ret x) f = f x"
  by (simp_all add: bind_p_def lift_p_def ret_def)

lemma feed_aad_runs:
  assumes "evp_works L V" "ew_phase V g c = Some (Keyed key iv [] [])"
    and "aad_len \<le> length aad" "aad_len < 2 ^ 31"
  shows "runs (feed_aad L c aad aad_len) g (\<lambda>len g'. len = (if 0 < aad_len then Some (int aad_len) else None) \<and>
    moves V g c (Some (Keyed key iv (take aad_len aad) [])) g')"
  using assms
  by (auto simp: feed_aad_def moves_def stored_def null_out_def as_int_small fun_upd_idem
      intro!: runs_bind [OF ev_update_aad] split: prod.split)

lemma finish_tag_runs:
  assumes "evp_works L V" "ew_phase V g c = Some (Finished key iv a t)" "length tag = 16"
  shows "runs (finish_tag L c tag) g (\<lambda>tag' g'. tag' = ew_tag V key iv a t \<and> moves V g c None g')"
  using assms
  by (auto simp: finish_tag_def moves_def put_at_def ev_lengths
      intro!: runs_bind [OF ev_get_tag] runs_bind [OF ev_free] split: prod.split)

lemma put_at_fits: "length buf = n \<Longrightarrow> length w = n \<Longrightarrow> put_at buf 0 w = Inr w"
  "off \<le> length buf \<Longrightarrow> put_at buf off [] = Inr buf"
  by (simp_all add: put_at_def)

lemma feed_text_runs:
  assumes "evp_works L V" "ew_phase V g c = Some (Keyed key iv a [])"
    and "0 < pt_len" "pt_len \<le> length pt" "pt_len < 2 ^ 31" "length ct = pt_len"
  shows "runs (feed_text L c pt pt_len len ct) g (\<lambda>r g'. r = (Some (int pt_len), ew_gcm V key iv a (take pt_len pt)) \<and>
    moves V g c (Some (Keyed key iv a (take pt_len pt))) g')"
  using assms
  by (auto simp: feed_text_def moves_def stored_def put_at_fits as_int_small ev_lengths
      intro!: runs_bind [OF ev_update_text] split: prod.split)

text \<open>
  A pass leaves ciphertext and tag of the input in the buffers, and its context is released. It needs
  a text: see \<open>gcm_pass_without_text\<close>.
\<close>

lemma gcm_pass_runs:
  assumes "evp_works L V" "length key = 32" "length iv = 12"
    and "aad_len \<le> length aad" "aad_len < 2 ^ 31" "0 < pt_len" "pt_len \<le> length pt" "pt_len < 2 ^ 31"
    and "length ct = pt_len" "length tag = 16"
  shows "runs (gcm_pass L key iv aad aad_len pt pt_len (ct, tag)) g (\<lambda>bufs g'. quiet V g g' \<and>
    bufs = (ew_gcm V key iv (take aad_len aad) (take pt_len pt), ew_tag V key iv (take aad_len aad) (take pt_len pt)))"
  unfolding gcm_pass_def
  using assms(2-)
  by (auto simp: moves_def quiet_def stored_def offset_in_def put_at_fits as_int_small ev_lengths [OF assms(1)] fun_upd_idem
      intro!: runs_bind [OF start_context_runs [OF assms(1)]] runs_bind [OF feed_aad_runs [OF assms(1)]] runs_bind [OF feed_text_runs [OF assms(1)]]
        runs_bind [OF ev_final [OF assms(1), where key = key and iv = iv and a = "take aad_len aad" and t = "take (length ct) pt"]]
        runs_bind [OF finish_tag_runs [OF assms(1), where key = key and iv = iv and a = "take aad_len aad" and t = "take (length ct) pt"]] split: prod.split)

lemma gmac_pass_runs:
  assumes "evp_works L V" "length key = 32" "length iv = 12"
    and "aad_len \<le> length aad" "aad_len < 2 ^ 31" "length tag = 16"
  shows "runs (gmac_pass L key iv aad aad_len tag) g (\<lambda>tag' g'. quiet V g g' \<and>
    tag' = ew_tag V key iv (take aad_len aad) [])"
  unfolding gmac_pass_def
  using assms(2-)
  by (auto simp: moves_def quiet_def null_out_def fun_upd_idem
      intro!: runs_bind [OF start_context_runs [OF assms(1)]] runs_bind [OF feed_aad_runs [OF assms(1)]]
        runs_bind [OF ev_final [OF assms(1), where key = key and iv = iv and a = "take aad_len aad" and t = "[]"]]
        runs_mono [OF finish_tag_runs [OF assms(1), where key = key and iv = iv and a = "take aad_len aad" and t = "[]"]] split: prod.split)


section \<open>The median\<close>

definition upper_median :: "'a::linorder \<Rightarrow> 'a list \<Rightarrow> bool" where
  "upper_median m xs \<longleftrightarrow> m \<in> set xs \<and>
     2 * length (filter (\<lambda>x. x < m) xs) \<le> length xs \<and> 2 * length (filter (\<lambda>x. m < x) xs) < length xs"

lemma length_filter_sort: "length (filter P (sort xs)) = length (filter P xs)"
  by (metis mset_filter mset_sort size_mset)

lemma sorted_around:
  assumes "sorted ys" and "i < length ys"
  shows "length (filter (\<lambda>x. x < ys ! i) ys) \<le> i"
    and "length (filter (\<lambda>x. ys ! i < x) ys) \<le> length ys - Suc i"
proof -
  have "{j. j < length ys \<and> ys ! j < ys ! i} \<subseteq> {..<i}"
    using assms by (auto simp: not_le [symmetric] dest: sorted_nth_mono)
  then have "card {j. j < length ys \<and> ys ! j < ys ! i} \<le> card {..<i}"
    by (rule card_mono [OF finite_lessThan])
  then show "length (filter (\<lambda>x. x < ys ! i) ys) \<le> i"
    by (simp add: length_filter_conv_card)
  have "{j. j < length ys \<and> ys ! i < ys ! j} \<subseteq> {Suc i..<length ys}"
    using assms by (auto simp: not_le [symmetric] Suc_le_eq dest: sorted_nth_mono)
  then have "card {j. j < length ys \<and> ys ! i < ys ! j} \<le> card {Suc i..<length ys}"
    by (rule card_mono [OF finite_atLeastLessThan])
  then show "length (filter (\<lambda>x. ys ! i < x) ys) \<le> length ys - Suc i"
    by (simp add: length_filter_conv_card)
qed

lemma middle_median:
  assumes "samples \<noteq> []"
  shows "\<exists>m. middle samples = Inr m \<and> upper_median m samples"
proof -
  let ?i = "length samples div 2"
  let ?m = "sort samples ! ?i"
  have i: "?i < length (sort samples)" "2 * ?i \<le> length samples" "length samples \<le> 2 * ?i + 1"
    using assms by auto
  have "?m \<in> set (sort samples)"
    by (rule nth_mem) (rule i)
  moreover have "length (filter (\<lambda>x. x < ?m) samples) \<le> ?i"
    and "length (filter (\<lambda>x. ?m < x) samples) \<le> length samples - Suc ?i"
    using sorted_around [OF sorted_sort i(1)] by (simp_all only: length_filter_sort length_sort)
  moreover have "middle samples = Inr ?m"
    using i(1) by (simp add: middle_def Let_def)
  ultimately show ?thesis
    using i unfolding upper_median_def by (intro exI [of _ ?m] conjI) simp_all
qed

section \<open>Measured time\<close>

text \<open>The op_durations that a list of clock readings measures, in seconds.\<close>

fun op_durations :: "int list \<Rightarrow> real list" where
  "op_durations (a # b # rs) = of_int (b - a) / 10 ^ 9 # op_durations rs"
| "op_durations _ = []"

lemma op_durations_append:
  "even (length rs) \<Longrightarrow> op_durations (rs @ rs') = op_durations rs @ op_durations rs'"
  by (induction rs rule: op_durations.induct) auto

lemma length_op_durations: "length (op_durations rs) = length rs div 2"
  by (induction rs rule: op_durations.induct) auto

text \<open>
  \<open>measured V n t g g'\<close>: between the two states contexts are as before, the clock was read twice for
  each of \<open>n\<close> operations, and \<open>t\<close> is the median of these op_durations.
\<close>

definition measured :: "('g, 'c) evp_view \<Rightarrow> nat \<Rightarrow> real \<Rightarrow> 'g \<Rightarrow> 'g \<Rightarrow> bool" where
  "measured V n t g g' \<longleftrightarrow> ew_phase V g' = ew_phase V g \<and>
     (\<exists>rs. ew_readings V g' = ew_readings V g @ rs \<and> length rs = 2 * n \<and> upper_median t (op_durations rs))"

lemma measure_op_runs:
  assumes L: "evp_works L V"
    and pass: "\<And>b g. I b \<Longrightarrow> runs (pass b) g (\<lambda>b' g'. quiet V g g' \<and> I b')"
    and "I bufs" and n: "0 < iterations"
  shows "runs (measure_op L pass bufs iterations) g (\<lambda>t g'. measured V (nat iterations) t g g')"
proof -
  have warm: "runs (fold_p (\<lambda>_. pass) [0..<3::nat] bufs) g (\<lambda>b g'. quiet V g g' \<and> I b)"
    by (rule runs_fold [where I = "\<lambda>_ b g'. quiet V g g' \<and> I b"])
      (use \<open>I bufs\<close> in \<open>auto simp: quiet_def intro!: runs_mono [OF pass]\<close>)
  let ?J = "\<lambda>ys (b, samples) g'. I b \<and> ew_phase V g' = ew_phase V g \<and>
      (\<exists>rs. ew_readings V g' = ew_readings V g @ rs \<and> length rs = 2 * length (ys :: nat list) \<and> samples = op_durations rs)"
  have loop: "runs (fold_p (\<lambda>_. timed L pass) [0..<nat iterations] (b, [])) g1 (?J [0..<nat iterations])"
    if "quiet V g g1" "I b" for b g1
    by (rule runs_fold [where I = ?J])
      (use that in \<open>auto simp: timed_def quiet_def op_durations_append
          intro!: runs_bind [OF ev_now [OF L]] runs_bind [OF pass]\<close>)
  show ?thesis
    unfolding measure_op_def
  proof (rule runs_bind [OF warm])
    fix b g1
    assume b: "quiet V g g1 \<and> I b"
    show "runs (if iterations < 0 then raise (Throw (Length_error ''vector::reserve''))
        else bind_p (fold_p (\<lambda>_. timed L pass) [0..<nat iterations] (b, [])) (\<lambda>(_, samples).
          lift_p (middle samples))) g1 (\<lambda>t g'. measured V (nat iterations) t g g')"
    proof -
      have "runs (bind_p (fold_p (\<lambda>_. timed L pass) [0..<nat iterations] (b, [])) (\<lambda>(_, samples).
          lift_p (middle samples))) g1 (\<lambda>t g'. measured V (nat iterations) t g g')"
      proof (rule runs_bind [OF loop])
        fix r g2
        assume "?J [0..<nat iterations] r g2"
        then obtain b2 rs where r: "r = (b2, op_durations rs)" and g2: "ew_phase V g2 = ew_phase V g"
            "ew_readings V g2 = ew_readings V g @ rs" "length rs = 2 * nat iterations"
          by (cases r) auto
        have "op_durations rs \<noteq> []"
          using n g2(3) length_op_durations [of rs] by (metis length_0_conv nonzero_mult_div_cancel_left
              zero_less_nat_eq less_numeral_extra(3) zero_neq_numeral)
        then obtain m where "middle (op_durations rs) = Inr m" "upper_median m (op_durations rs)"
          using middle_median by blast
        with g2 show "runs (case r of (_, samples) \<Rightarrow> lift_p (middle samples)) g2
            (\<lambda>t g'. measured V (nat iterations) t g g')"
          by (auto simp: r measured_def runs_def lift_p_def)
      qed (use b in auto)
      then show ?thesis
        using n by simp
    qed
  qed
qed

lemma bench_aes_gcm_runs:
  assumes "evp_works L V" "length key = 32" "length iv = 12"
    and "aad_len \<le> length aad" "aad_len < 2 ^ 31" "0 < pt_len" "pt_len \<le> length pt" "pt_len < 2 ^ 31"
    and "0 < iterations"
  shows "runs (bench_aes_gcm L key iv aad aad_len pt pt_len iterations) g
    (\<lambda>t g'. measured V (nat iterations) t g g')"
  unfolding bench_aes_gcm_def
  by (rule measure_op_runs [where I = "\<lambda>(ct, tag). length ct = pt_len \<and> length tag = 16"])
    (use assms in \<open>auto simp: ev_lengths [OF assms(1)] intro!: runs_mono [OF gcm_pass_runs]\<close>)

lemma bench_gmac_runs:
  assumes "evp_works L V" "length key = 32" "length iv = 12"
    and "aad_len \<le> length aad" "aad_len < 2 ^ 31" "0 < iterations"
  shows "runs (bench_gmac L key iv aad aad_len iterations) g (\<lambda>t g'. measured V (nat iterations) t g g')"
  unfolding bench_gmac_def
  by (rule measure_op_runs [where I = "\<lambda>tag. length tag = 16"])
    (use assms in \<open>auto simp: ev_lengths [OF assms(1)] intro!: runs_mono [OF gmac_pass_runs]\<close>)

text \<open>
  Without a text \<open>len\<close> is not set, or it is the length of the additional data and the pointer
  \<open>ciphertext.data() + len\<close> is outside of the empty buffer.
\<close>

definition undefined_run :: "('g, 'a) prog \<Rightarrow> 'g \<Rightarrow> bool" where
  "undefined_run p g \<longleftrightarrow> (\<exists>u g'. p g = (Inl (Ub u), g'))"

lemma undefined_bind_first: "undefined_run p g \<Longrightarrow> undefined_run (bind_p p f) g"
  by (auto simp: undefined_run_def bind_p_def)

lemma undefined_bind:
  assumes "runs p g P" and "\<And>x g'. P x g' \<Longrightarrow> undefined_run (f x) g'"
  shows "undefined_run (bind_p p f) g"
  using assms by (auto simp: undefined_run_def bind_p_def elim!: runsE)

lemma undefined_bind_Ub [simp]: "undefined_run (bind_p (lift_p (Inl (Ub u))) f) g"
  by (simp add: undefined_run_def bind_p_def lift_p_def)

lemma gcm_pass_without_text:
  assumes "evp_works L V" "length key = 32" "length iv = 12" "aad_len \<le> length aad" "aad_len < 2 ^ 31"
  shows "undefined_run (gcm_pass L key iv aad aad_len pt 0 ([], tag)) g"
  unfolding gcm_pass_def prod.case
proof (rule undefined_bind [OF start_context_runs [OF assms(1-3)]], elim conjE)
  fix c g1
  assume "moves V g c (Some (Keyed key iv [] [])) g1"
  then have "ew_phase V g1 c = Some (Keyed key iv [] [])"
    by (simp add: moves_def)
  then show "undefined_run (bind_p (feed_aad L c aad aad_len) (\<lambda>len.
      bind_p (feed_text L c pt 0 len []) (\<lambda>(len1, ciphertext1).
      bind_p (lift_p (offset_in ciphertext1 len1)) (\<lambda>off.
      bind_p (ev_final L c) (\<lambda>(_, _, w).
      bind_p (lift_p (put_at ciphertext1 off w)) (\<lambda>ciphertext2.
      bind_p (finish_tag L c tag) (\<lambda>tag1. ret (ciphertext2, tag1)))))))) g1"
    by (rule undefined_bind [OF feed_aad_runs [OF assms(1) _ assms(4,5)]])
      (auto simp: feed_text_def offset_in_def)
qed

lemma bench_without_text:
  assumes "evp_works L V" "length key = 32" "length iv = 12" "aad_len \<le> length aad" "aad_len < 2 ^ 31"
  shows "undefined_run (bench_aes_gcm L key iv aad aad_len pt 0 iterations) g"
proof -
  have "[0..<3::nat] = [0, 1, 2]"
    by (simp add: upt_rec)
  then show ?thesis
    using gcm_pass_without_text [OF assms] unfolding bench_aes_gcm_def measure_op_def
    by (auto intro!: undefined_bind_first)
qed

section \<open>Calibration\<close>

lemma clamp_bounds: "5 \<le> clamp_iterations target t" "clamp_iterations target t \<le> 100000"
  by (auto simp: clamp_iterations_def Let_def le_floor_iff floor_le_iff)

text \<open>Between the limits, one operation more would exceed the target.\<close>

lemma clamp_on_target:
  assumes "1 / 10 ^ 12 < t" "5 * t \<le> target" "target \<le> 100000 * t"
  shows "of_int (clamp_iterations target t) * t \<le> target" "target < (of_int (clamp_iterations target t) + 1) * t"
proof -
  have t: "0 < t"
    using assms(1) by (rule less_trans [rotated]) simp
  have "clamp_iterations target t = \<lfloor>target / t\<rfloor>"
    using assms t by (simp add: clamp_iterations_def Let_def field_simps)
  moreover have "of_int \<lfloor>target / t\<rfloor> \<le> target / t" "target / t < of_int \<lfloor>target / t\<rfloor> + 1"
    by linarith+
  ultimately show "of_int (clamp_iterations target t) * t \<le> target"
      "target < (of_int (clamp_iterations target t) + 1) * t"
    using t by (simp_all only: pos_le_divide_eq [symmetric] pos_divide_less_eq [symmetric])
qed

end
