(* ===== verification/Aes_Report.thy ===== *)
theory Aes_Report
  imports Aes_Bench
begin

text \<open>
  The report of the AES-GCM benchmark and its \<open>main\<close>: units of sizes, rates and times, the two kinds
  of table, and the loop over the sizes. Standard output is a stream with its format flags.
\<close>

section \<open>Units\<close>

function scale_bytes :: "real \<Rightarrow> nat \<Rightarrow> real \<times> nat" where
  "scale_bytes n idx = (if 1024 \<le> n \<and> idx < 3 then scale_bytes (n / 1024) (idx + 1) else (n, idx))"
  by pat_completeness auto
termination by (relation "measure (\<lambda>(n, idx). 3 - idx)") auto

declare scale_bytes.simps [simp del]

definition fmt_bytes :: "real \<Rightarrow> string" where
  "fmt_bytes n = (case scale_bytes n 0 of (v, idx) \<Rightarrow>
     snprintf 32 (fixed_text 2 v @ '' '' @ [''B'', ''KB'', ''MB'', ''GB''] ! idx))"

definition fmt_throughput :: "double \<Rightarrow> string" where
  "fmt_throughput bytes_per_sec =
     (let gb = bytes_per_sec div Fin (10 ^ 9)
      in if Fin 1 \<le> gb then snprintf 32 (double_text (fixed_text 2) gb @ '' GB/s'')
         else let mb = bytes_per_sec div Fin (10 ^ 6)
              in snprintf 32 (double_text (fixed_text 2) mb @ '' MB/s''))"

definition fmt_time :: "real \<Rightarrow> string" where
  "fmt_time seconds =
     (if 1 \<le> seconds then snprintf 32 (fixed_text 3 seconds @ '' s'')
      else if 1 / 10 ^ 3 \<le> seconds then snprintf 32 (fixed_text 3 (seconds * 10 ^ 3) @ '' ms'')
      else if 1 / 10 ^ 6 \<le> seconds then snprintf 32 (fixed_text 2 (seconds * 10 ^ 6) @ '' us'')
      else snprintf 32 (fixed_text 2 (seconds * 10 ^ 9) @ '' ns''))"

section \<open>The two tables\<close>

definition newline :: string where
  "newline = [CHR 0x0A]"

definition rate :: "nat \<Rightarrow> real \<Rightarrow> double" where
  "rate sz t = Fin (real sz) div Fin t"

definition csv_header :: "out_item list" where
  "csv_header =
     [Put (''size_bytes,size_human,'' @ ''gcm_time_s,gcm_throughput_bps,gcm_throughput_human,'' @
           ''gmac_time_s,gmac_throughput_bps,gmac_throughput_human,'' @ ''speedup'' @ newline)]"

definition csv_row :: "nat \<Rightarrow> real \<Rightarrow> real \<Rightarrow> out_item list" where
  "csv_row sz gcm_time gmac_time =
     [Put_nat sz, Put '','', Put (fmt_bytes (real sz)), Put '','',
      Fmt Scientific_float, Setprecision 6, Put_double (Fin gcm_time), Put '','',
      Fmt Default_float, Setprecision 6, Put_double (rate sz gcm_time), Put '','',
      Put (fmt_throughput (rate sz gcm_time)), Put '','',
      Fmt Scientific_float, Setprecision 6, Put_double (Fin gmac_time), Put '','',
      Fmt Default_float, Setprecision 6, Put_double (rate sz gmac_time), Put '','',
      Put (fmt_throughput (rate sz gmac_time)), Put '','',
      Fmt Fixed_float, Setprecision 2, Put_double (Fin gcm_time div Fin gmac_time), Put newline]"

definition table_rule :: string where
  "table_rule = ''+------------+----------------+--------------------+'' @
     ''----------------+--------------------+-----------------------------+'' @ newline"

definition table_header :: "out_item list" where
  "table_header =
     [Put table_rule,
      Put (''| input size | aes-gcm time   | aes-gcm throughput |'' @
        '' gmac time      | gmac throughput    | speedup of gmac over aes-gcm |'' @ newline),
      Put table_rule]"

definition table_row :: "nat \<Rightarrow> real \<Rightarrow> real \<Rightarrow> out_item list" where
  "table_row sz gcm_time gmac_time =
     [Put ''| '', Left_adjust, Setw 10, Put (fmt_bytes (real sz)), Put '' | '',
      Right_adjust, Setw 14, Put (fmt_time gcm_time), Put '' | '',
      Left_adjust, Setw 18, Put (fmt_throughput (rate sz gcm_time)), Put '' | '',
      Right_adjust, Setw 14, Put (fmt_time gmac_time), Put '' | '',
      Left_adjust, Setw 18, Put (fmt_throughput (rate sz gmac_time)), Put '' | '',
      Right_adjust, Setw 27, Fmt Fixed_float, Setprecision 2,
      Put_double (Fin gcm_time div Fin gmac_time), Put (''x |'' @ newline)]"

definition table_notes :: "real \<Rightarrow> out_item list" where
  "table_notes target_sec =
     [Put table_rule, Put (newline @ ''Notes:'' @ newline),
      Put (''  - AES-GCM-256: encrypt <input_size> bytes of plaintext '' @ ''with 16-byte AAD and 12-byte IV.'' @ newline),
      Put (''  - GMAC-256: authenticate <input_size> bytes of AAD '' @ ''with zero plaintext and 12-byte IV.'' @ newline),
      Put (''  - Timings are median per operation over calibrated iterations '' @ ''(targeting ~''),
      Put_double (Fin target_sec), Put ('' s total).'' @ newline),
      Put (''  - AES-NI is used automatically by OpenSSL.'' @ newline)]"

section \<open>The program\<close>

fun aes_parse_args :: "string list \<Rightarrow> bool \<times> bool \<Rightarrow> bool \<times> bool" where
  "aes_parse_args [] flags = flags"
| "aes_parse_args (a # rest) (csv_mode, do_warmup) =
     (if a = ''--csv'' then aes_parse_args rest (True, do_warmup)
      else if a = ''--warmup'' then aes_parse_args rest (csv_mode, True)
      else aes_parse_args rest (csv_mode, do_warmup))"

definition aes_key :: bytes where
  "aes_key = [0x00, 0x01, 0x02, 0x03, 0x04, 0x05, 0x06, 0x07,
              0x08, 0x09, 0x0a, 0x0b, 0x0c, 0x0d, 0x0e, 0x0f,
              0x10, 0x11, 0x12, 0x13, 0x14, 0x15, 0x16, 0x17,
              0x18, 0x19, 0x1a, 0x1b, 0x1c, 0x1d, 0x1e, 0x1f]"

definition aes_iv :: bytes where
  "aes_iv = [0x00, 0x01, 0x02, 0x03, 0x04, 0x05, 0x06, 0x07, 0x08, 0x09, 0x0a, 0x0b]"

definition fixed_aad :: bytes where
  "fixed_aad = [0xfe, 0xed, 0xfa, 0xce, 0xde, 0xad, 0xbe, 0xef,
                0xca, 0xfe, 0xba, 0xbe, 0x12, 0x34, 0x56, 0x78]"

definition aes_sizes :: "nat list" where
  "aes_sizes = [256, 1024, 4096, 16384, 65536, 262144, 1048576, 4194304, 16777216, 67108864, 268435456]"

definition target_sec :: real where
  "target_sec = 2"

definition data_pattern :: "nat \<Rightarrow> bytes" where
  "data_pattern max_size = map (\<lambda>i. ucast ((word_of_nat i :: u64) AND 0xFF)) [0..<max_size]"

definition aes_warmup :: "('g, 'c) evp \<Rightarrow> bytes \<Rightarrow> ('g, unit) prog" where
  "aes_warmup L data_buffer =
     bind_p (bench_aes_gcm L aes_key aes_iv fixed_aad (length fixed_aad) data_buffer 65536 50) (\<lambda>_.
     bind_p (bench_gmac L aes_key aes_iv data_buffer 65536 50) (\<lambda>_. ret ()))"

definition bench_size :: "('g, 'c) evp \<Rightarrow> bytes \<Rightarrow> bool \<Rightarrow> nat \<Rightarrow> ostream \<Rightarrow> ('g, ostream) prog" where
  "bench_size L data_buffer csv_mode sz cout =
     bind_p (calibrate_iterations L aes_key aes_iv fixed_aad (length fixed_aad) data_buffer sz target_sec)
       (\<lambda>gcm_iters.
     bind_p (bench_aes_gcm L aes_key aes_iv fixed_aad (length fixed_aad) data_buffer sz gcm_iters) (\<lambda>gcm_time.
     bind_p (calibrate_gmac_iterations L aes_key aes_iv data_buffer sz target_sec) (\<lambda>gmac_iters.
     bind_p (bench_gmac L aes_key aes_iv data_buffer sz gmac_iters) (\<lambda>gmac_time.
     ret (os_items (if csv_mode then csv_row sz gcm_time gmac_time else table_row sz gcm_time gmac_time) cout)))))"

definition aes_bench_main :: "('g, 'c) evp \<Rightarrow> string list \<Rightarrow> ('g, int \<times> string) prog" where
  "aes_bench_main L argv = (case aes_parse_args argv (False, False) of (csv_mode, do_warmup) \<Rightarrow>
     bind_p (ev_setup L) (\<lambda>_.
     let max_size = aes_sizes ! (length aes_sizes - 1);
         data_buffer = data_pattern max_size in
     bind_p (if do_warmup then aes_warmup L data_buffer else ret ()) (\<lambda>_.
     let cout = os_items (if csv_mode then csv_header else table_header) cout_init in
     bind_p (fold_p (bench_size L data_buffer csv_mode) aes_sizes cout) (\<lambda>cout1.
     let cout2 = (if csv_mode then cout1 else os_items (table_notes target_sec) cout1) in
     bind_p (ev_cleanup L) (\<lambda>_. ret (0, os_text cout2))))))"

section \<open>What the program does\<close>

lemma aes_parse_args:
  "aes_parse_args argv (c, w) = (c \<or> ''--csv'' \<in> set argv, w \<or> ''--warmup'' \<in> set argv)"
  by (induction argv arbitrary: c w) auto

lemma aes_constants:
  "length aes_key = 32" "length aes_iv = 12" "length fixed_aad = 16" "length aes_sizes = 11"
  "length (data_pattern n) = n"
  by (simp_all add: aes_key_def aes_iv_def fixed_aad_def aes_sizes_def data_pattern_def)

lemma sizes_fit:
  "sz \<in> set aes_sizes \<Longrightarrow> 0 < sz \<and> sz \<le> 268435456"
  "aes_sizes ! (length aes_sizes - 1) = 268435456"
  by (auto simp: aes_sizes_def)

text \<open>A line of the CSV table, as it is appended to a stream without a pending field width.\<close>

definition csv_fields :: "nat \<Rightarrow> real \<Rightarrow> real \<Rightarrow> string list" where
  "csv_fields sz tg tm =
     [dec_str sz, fmt_bytes (real sz),
      sci_text 6 tg, double_text (general_text 6) (rate sz tg), fmt_throughput (rate sz tg),
      sci_text 6 tm, double_text (general_text 6) (rate sz tm), fmt_throughput (rate sz tm),
      double_text (fixed_text 2) (Fin tg div Fin tm)]"

fun joined :: "string \<Rightarrow> string list \<Rightarrow> string" where
  "joined sep [] = []"
| "joined sep [s] = s"
| "joined sep (s # t # ss) = s @ sep @ joined sep (t # ss)"

lemma csv_row_text:
  assumes "os_width os = 0"
  shows "os_text (os_items (csv_row sz tg tm) os) = os_text os @ joined '','' (csv_fields sz tg tm) @ newline"
    and "os_width (os_items (csv_row sz tg tm) os) = 0"
  using assms by (simp_all add: csv_row_def csv_fields_def stream_double_def)

lemma split_on_joined:
  "ss \<noteq> [] \<Longrightarrow> \<forall>s\<in>set ss. c \<notin> set s \<Longrightarrow> split_on c (joined [c] ss) = ss"
  by (induction "[c]" ss rule: joined.induct) (auto simp: split_on_plain split_on_append_sep)

lemma scale_bytes_unit: "idx \<le> 3 \<Longrightarrow> snd (scale_bytes n idx) \<le> 3"
proof (induction n idx rule: scale_bytes.induct)
  case (1 n idx)
  then show ?case
    by (subst scale_bytes.simps) simp
qed

lemma plain_units: "idx \<le> 3 \<Longrightarrow> plain ([''B'', ''KB'', ''MB'', ''GB''] ! idx)"
  by (auto simp: le_Suc_eq numeral_eq_Suc)

lemma plain_fmt: "plain (fmt_bytes n)" "plain (fmt_throughput d)"
  using scale_bytes_unit [of 0 n]
  by (cases "scale_bytes n 0", simp_all add: fmt_bytes_def plain_units fmt_throughput_def Let_def)

lemma plain_csv_fields: "s \<in> set (csv_fields sz tg tm) \<Longrightarrow> plain s"
  unfolding csv_fields_def by (auto simp: plain_fmt simp del: divide_double.simps)

definition csv_line :: "nat \<Rightarrow> real \<Rightarrow> real \<Rightarrow> string" where
  "csv_line sz tg tm = joined '','' (csv_fields sz tg tm)"

lemma joined_no_newline:
  "\<forall>s\<in>set ss. CHR 0x0A \<notin> set s \<Longrightarrow> CHR 0x0A \<notin> set (joined '','' ss)"
  by (induction "'',''" ss rule: joined.induct) auto

lemma csv_line: "split_on (CHR '','') (csv_line sz tg tm) = csv_fields sz tg tm"
  "CHR 0x0A \<notin> set (csv_line sz tg tm)"
proof -
  have "csv_fields sz tg tm \<noteq> []"
    by (simp add: csv_fields_def)
  moreover have "\<forall>s\<in>set (csv_fields sz tg tm). plain s"
    by (simp add: plain_csv_fields)
  ultimately show "split_on (CHR '','') (csv_line sz tg tm) = csv_fields sz tg tm"
      "CHR 0x0A \<notin> set (csv_line sz tg tm)"
    unfolding csv_line_def plain_def by (simp_all add: split_on_joined joined_no_newline)
qed

lemma split_lines:
  assumes "\<forall>l\<in>set ls. CHR 0x0A \<notin> set l"
  shows "split_on (CHR 0x0A) (concat (map (\<lambda>l. l @ newline) ls)) = ls @ [[]]"
  using assms by (induction ls) (simp_all add: newline_def split_on_append_sep)

section \<open>The benchmark of one size\<close>

text \<open>
  What the clock readings of one size are: ten operations that calibrate and the calibrated number of
  measured ones, for AES-GCM and then for GMAC; the times of the row are the medians of the latter.
\<close>

definition op_measured :: "int list \<Rightarrow> real \<Rightarrow> bool" where
  "op_measured rs t \<longleftrightarrow> (\<exists>trial runs t0. rs = trial @ runs \<and> length trial = 20 \<and>
     upper_median t0 (op_durations trial) \<and> length runs = 2 * nat (clamp_iterations target_sec t0) \<and>
     upper_median t (op_durations runs))"

definition size_measured :: "int list \<Rightarrow> real \<times> real \<Rightarrow> bool" where
  "size_measured rs ts \<longleftrightarrow> (\<exists>gcm gmac. rs = gcm @ gmac \<and> op_measured gcm (fst ts) \<and> op_measured gmac (snd ts))"

lemma measured_twice:
  assumes "measured V 10 t0 g g1" and "measured V (nat (clamp_iterations target_sec t0)) t g1 g2"
  shows "ew_phase V g2 = ew_phase V g \<and> (\<exists>rs. ew_readings V g2 = ew_readings V g @ rs \<and> op_measured rs t)"
proof -
  obtain r1 r2 where "ew_readings V g1 = ew_readings V g @ r1" "length r1 = 20" "upper_median t0 (op_durations r1)"
      "ew_readings V g2 = ew_readings V g1 @ r2" "length r2 = 2 * nat (clamp_iterations target_sec t0)"
      "upper_median t (op_durations r2)"
    using assms by (auto simp: measured_def)
  moreover have "ew_phase V g2 = ew_phase V g"
    using assms by (simp add: measured_def)
  ultimately have "ew_readings V g2 = ew_readings V g @ (r1 @ r2)" "op_measured (r1 @ r2) t"
    unfolding op_measured_def by (simp, blast)
  with \<open>ew_phase V g2 = ew_phase V g\<close> show ?thesis
    by blast
qed

lemma calibrate_gcm_runs:
  assumes "evp_works L V" "0 < sz" "sz \<le> length data" "sz < 2 ^ 31"
  shows "runs (calibrate_iterations L aes_key aes_iv fixed_aad (length fixed_aad) data sz target) g
    (\<lambda>n g'. \<exists>t. measured V 10 t g g' \<and> n = clamp_iterations target t)"
  unfolding calibrate_iterations_def
  by (rule runs_bind [OF bench_aes_gcm_runs [OF assms(1)]]) (use assms in \<open>auto simp: aes_constants\<close>)

lemma calibrate_gmac_runs:
  assumes "evp_works L V" "sz \<le> length data" "sz < 2 ^ 31"
  shows "runs (calibrate_gmac_iterations L aes_key aes_iv data sz target) g
    (\<lambda>n g'. \<exists>t. measured V 10 t g g' \<and> n = clamp_iterations target t)"
  unfolding calibrate_gmac_iterations_def
  by (rule runs_bind [OF bench_gmac_runs [OF assms(1)]]) (use assms in \<open>auto simp: aes_constants\<close>)

lemma gcm_measured:
  assumes "evp_works L V" "0 < sz" "sz \<le> length data" "sz < 2 ^ 31"
    and k: "\<And>t g'. ew_phase V g' = ew_phase V g \<Longrightarrow>
      \<exists>rs. ew_readings V g' = ew_readings V g @ rs \<and> op_measured rs t \<Longrightarrow> runs (k t) g' Q"
  shows "runs (bind_p (calibrate_iterations L aes_key aes_iv fixed_aad (length fixed_aad) data sz target_sec)
    (\<lambda>n. bind_p (bench_aes_gcm L aes_key aes_iv fixed_aad (length fixed_aad) data sz n) k)) g Q"
proof (rule runs_bind [OF calibrate_gcm_runs [OF assms(1-4)]], elim exE conjE)
  fix n g1 t0
  assume t0: "measured V 10 t0 g g1" and n: "n = clamp_iterations target_sec t0"
  have "0 < n"
    using clamp_bounds(1) [of target_sec t0] n by simp
  show "runs (bind_p (bench_aes_gcm L aes_key aes_iv fixed_aad (length fixed_aad) data sz n) k) g1 Q"
  proof (rule runs_bind [OF bench_aes_gcm_runs [OF assms(1)]])
    fix t g2
    assume "measured V (nat n) t g1 g2"
    with measured_twice [OF t0] n show "runs (k t) g2 Q"
      by (intro k) blast+
  qed (use assms \<open>0 < n\<close> in \<open>simp_all add: aes_constants\<close>)
qed

lemma gmac_measured:
  assumes "evp_works L V" "sz \<le> length data" "sz < 2 ^ 31"
    and k: "\<And>t g'. ew_phase V g' = ew_phase V g \<Longrightarrow>
      \<exists>rs. ew_readings V g' = ew_readings V g @ rs \<and> op_measured rs t \<Longrightarrow> runs (k t) g' Q"
  shows "runs (bind_p (calibrate_gmac_iterations L aes_key aes_iv data sz target_sec)
    (\<lambda>n. bind_p (bench_gmac L aes_key aes_iv data sz n) k)) g Q"
proof (rule runs_bind [OF calibrate_gmac_runs [OF assms(1-3)]], elim exE conjE)
  fix n g1 t0
  assume t0: "measured V 10 t0 g g1" and n: "n = clamp_iterations target_sec t0"
  have "0 < n"
    using clamp_bounds(1) [of target_sec t0] n by simp
  show "runs (bind_p (bench_gmac L aes_key aes_iv data sz n) k) g1 Q"
  proof (rule runs_bind [OF bench_gmac_runs [OF assms(1)]])
    fix t g2
    assume "measured V (nat n) t g1 g2"
    with measured_twice [OF t0] n show "runs (k t) g2 Q"
      by (intro k) blast+
  qed (use assms \<open>0 < n\<close> in \<open>simp_all add: aes_constants\<close>)
qed

definition print_row :: "bool \<Rightarrow> nat \<Rightarrow> real \<times> real \<Rightarrow> ostream \<Rightarrow> ostream" where
  "print_row csv_mode sz ts cout =
     os_items (if csv_mode then csv_row sz (fst ts) (snd ts) else table_row sz (fst ts) (snd ts)) cout"

lemma bench_size_runs:
  assumes "evp_works L V" "0 < sz" "sz \<le> length data" "sz < 2 ^ 31"
  shows "runs (bench_size L data csv_mode sz cout) g (\<lambda>cout' g'. ew_phase V g' = ew_phase V g \<and>
    (\<exists>rs ts. ew_readings V g' = ew_readings V g @ rs \<and> size_measured rs ts \<and> cout' = print_row csv_mode sz ts cout))"
  unfolding bench_size_def
proof (rule gcm_measured [OF assms], elim exE conjE)
  fix tg g1 r1
  assume g1: "ew_phase V g1 = ew_phase V g" "ew_readings V g1 = ew_readings V g @ r1" "op_measured r1 tg"
  show "runs (bind_p (calibrate_gmac_iterations L aes_key aes_iv data sz target_sec) (\<lambda>gmac_iters.
      bind_p (bench_gmac L aes_key aes_iv data sz gmac_iters) (\<lambda>gmac_time.
      ret (os_items (if csv_mode then csv_row sz tg gmac_time else table_row sz tg gmac_time) cout)))) g1
      (\<lambda>cout' g'. ew_phase V g' = ew_phase V g \<and>
    (\<exists>rs ts. ew_readings V g' = ew_readings V g @ rs \<and> size_measured rs ts \<and> cout' = print_row csv_mode sz ts cout))"
  proof (rule gmac_measured [OF assms(1,3,4)], elim exE conjE)
    fix tm g2 r2
    assume g2: "ew_phase V g2 = ew_phase V g1" "ew_readings V g2 = ew_readings V g1 @ r2" "op_measured r2 tm"
    with g1 have "size_measured (r1 @ r2) (tg, tm)"
      by (auto simp: size_measured_def)
    with g1 g2 show "runs (ret (os_items (if csv_mode then csv_row sz tg tm else table_row sz tg tm) cout)) g2
        (\<lambda>cout' g'. ew_phase V g' = ew_phase V g \<and>
      (\<exists>rs ts. ew_readings V g' = ew_readings V g @ rs \<and> size_measured rs ts \<and> cout' = print_row csv_mode sz ts cout))"
      unfolding runs_ret
      by (intro conjI exI [of _ "r1 @ r2"] exI [of _ "(tg, tm)"]) (simp_all add: print_row_def)
  qed
qed

section \<open>The loop over the sizes\<close>

definition print_rows :: "bool \<Rightarrow> nat list \<Rightarrow> (real \<times> real) list \<Rightarrow> ostream \<Rightarrow> ostream" where
  "print_rows csv_mode szs tss cout = fold (\<lambda>(sz, ts). print_row csv_mode sz ts) (zip szs tss) cout"

lemma sizes_run:
  assumes "evp_works L V" "\<forall>sz\<in>set szs. 0 < sz \<and> sz \<le> length data \<and> sz < 2 ^ 31"
  shows "runs (fold_p (bench_size L data csv_mode) szs cout) g (\<lambda>cout' g'. ew_phase V g' = ew_phase V g \<and>
    (\<exists>rss tss. ew_readings V g' = ew_readings V g @ concat rss \<and> list_all2 size_measured rss tss \<and>
      length tss = length szs \<and> cout' = print_rows csv_mode szs tss cout))"
proof (rule runs_fold [where I = "\<lambda>ys cout' g'. ew_phase V g' = ew_phase V g \<and>
    (\<exists>rss tss. ew_readings V g' = ew_readings V g @ concat rss \<and> list_all2 size_measured rss tss \<and>
      length tss = length ys \<and> cout' = print_rows csv_mode ys tss cout)"], goal_cases)
  case (1 ys sz zs cout1 g1)
  then obtain rss tss where g1: "ew_phase V g1 = ew_phase V g" "ew_readings V g1 = ew_readings V g @ concat rss"
      "list_all2 size_measured rss tss" "length tss = length ys" "cout1 = print_rows csv_mode ys tss cout"
    by blast
  have "runs (bench_size L data csv_mode sz cout1) g1 (\<lambda>cout' g'. ew_phase V g' = ew_phase V g1 \<and>
    (\<exists>rs ts. ew_readings V g' = ew_readings V g1 @ rs \<and> size_measured rs ts \<and> cout' = print_row csv_mode sz ts cout1))"
    by (rule bench_size_runs) (use assms 1(1) in auto)
  then show ?case
  proof (rule runs_mono, elim exE conjE, intro conjI)
    fix cout2 g2 rs ts
    assume g2: "ew_phase V g2 = ew_phase V g1" "ew_readings V g2 = ew_readings V g1 @ rs"
      "size_measured rs ts" "cout2 = print_row csv_mode sz ts cout1"
    show "ew_phase V g2 = ew_phase V g"
      using g1 g2 by simp
    have "list_all2 size_measured (rss @ [rs]) (tss @ [ts])"
      using g1(3) g2(3) by (simp add: list_all2_appendI)
    moreover have "cout2 = print_rows csv_mode (ys @ [sz]) (tss @ [ts]) cout"
      using g1 g2 by (simp add: print_rows_def)
    ultimately show "\<exists>rss tss. ew_readings V g2 = ew_readings V g @ concat rss \<and> list_all2 size_measured rss tss \<and>
        length tss = length (ys @ [sz]) \<and> cout2 = print_rows csv_mode (ys @ [sz]) tss cout"
      using g1 g2 by (intro exI [of _ "rss @ [rs]"] exI [of _ "tss @ [ts]"]) simp
  qed
qed (auto simp: print_rows_def intro!: exI [of _ "[]"])

definition csv_lines :: "nat list \<Rightarrow> (real \<times> real) list \<Rightarrow> string list" where
  "csv_lines szs tss = map (\<lambda>(sz, ts). csv_line sz (fst ts) (snd ts)) (zip szs tss)"

lemma print_rows_csv:
  "os_width cout = 0 \<Longrightarrow> os_text (print_rows True szs tss cout) =
    os_text cout @ concat (map (\<lambda>l. l @ newline) (csv_lines szs tss))"
proof (induction szs arbitrary: tss cout)
  case (Cons sz szs)
  then show ?case
    by (cases tss) (simp_all add: print_rows_def csv_lines_def print_row_def csv_row_text csv_line_def)
qed (simp add: print_rows_def csv_lines_def)

definition csv_names :: "string list" where
  "csv_names = [''size_bytes'', ''size_human'', ''gcm_time_s'', ''gcm_throughput_bps'', ''gcm_throughput_human'',
     ''gmac_time_s'', ''gmac_throughput_bps'', ''gmac_throughput_human'', ''speedup'']"

lemma csv_header_text:
  "os_text (os_items csv_header cout_init) = joined '','' csv_names @ newline"
  "os_width (os_items csv_header cout_init) = 0"
  by (simp_all add: csv_header_def cout_init_def csv_names_def)

text \<open>The CSV output, read back line by line and field by field.\<close>

lemma csv_output:
  assumes "length tss = length szs"
  shows "map (split_on (CHR '','')) (split_on (CHR 0x0A)
      (os_text (print_rows True szs tss (os_items csv_header cout_init)))) =
    csv_names # map2 (\<lambda>sz ts. csv_fields sz (fst ts) (snd ts)) szs tss @ [[[]]]"
proof -
  let ?ls = "joined '','' csv_names # csv_lines szs tss"
  have "os_text (print_rows True szs tss (os_items csv_header cout_init)) = concat (map (\<lambda>l. l @ newline) ?ls)"
    by (simp add: print_rows_csv csv_header_text)
  moreover have "\<forall>l\<in>set ?ls. CHR 0x0A \<notin> set l"
    by (auto simp: csv_lines_def csv_line(2) csv_names_def)
  then have "split_on (CHR 0x0A) (concat (map (\<lambda>l. l @ newline) ?ls)) = ?ls @ [[]]"
    by (rule split_lines)
  moreover have "split_on (CHR '','') (joined '','' csv_names) = csv_names"
    by (rule split_on_joined) (simp_all add: csv_names_def)
  moreover have "map (split_on (CHR '','')) (csv_lines szs tss) =
      map2 (\<lambda>sz ts. csv_fields sz (fst ts) (snd ts)) szs tss"
    by (auto simp: csv_lines_def csv_line(1))
  ultimately show ?thesis
    by simp
qed

lemma warmup_runs:
  assumes "evp_works L V" "65536 \<le> length data"
  shows "runs (aes_warmup L data) g (\<lambda>_ g'. ew_phase V g' = ew_phase V g \<and>
    (\<exists>rs. ew_readings V g' = ew_readings V g @ rs \<and> length rs = 200))"
  unfolding aes_warmup_def
  by (rule runs_bind [OF bench_aes_gcm_runs [OF assms(1)]], (simp add: aes_constants assms(2))+,
      rule runs_bind [OF bench_gmac_runs [OF assms(1)]])
    (use assms(2) in \<open>auto simp: aes_constants measured_def\<close>)

text \<open>The whole program.\<close>

lemma aes_bench_main_runs:
  assumes L: "evp_works L V" and flags: "aes_parse_args argv (False, False) = (csv_mode, do_warmup)"
  shows "runs (aes_bench_main L argv) g (\<lambda>(code, txt) g'. code = 0 \<and> ew_phase V g' = ew_phase V g \<and>
    (\<exists>warm rss tss. ew_readings V g' = ew_readings V g @ warm @ concat rss \<and>
      length warm = (if do_warmup then 200 else 0) \<and> list_all2 size_measured rss tss \<and> length tss = 11 \<and>
      txt = os_text ((if csv_mode then id else os_items (table_notes target_sec))
        (print_rows csv_mode aes_sizes tss (os_items (if csv_mode then csv_header else table_header) cout_init)))))"
proof -
  define data where "data = data_pattern (aes_sizes ! (length aes_sizes - 1))"
  have data: "length data = 268435456"
    using sizes_fit(2) by (simp only: data_def aes_constants(5))
  let ?cout = "os_items (if csv_mode then csv_header else table_header) cout_init"
  have start: "runs (if do_warmup then aes_warmup L data else ret ()) g1 (\<lambda>_ g'. ew_phase V g' = ew_phase V g \<and>
      (\<exists>warm. ew_readings V g' = ew_readings V g @ warm \<and> length warm = (if do_warmup then 200 else 0)))"
    if "quiet V g g1" for g1
    using that warmup_runs [OF L, of data g1] data by (auto simp: quiet_def)
  have loop: "runs (fold_p (bench_size L data csv_mode) aes_sizes ?cout) g1 (\<lambda>cout' g'. ew_phase V g' = ew_phase V g1 \<and>
      (\<exists>rss tss. ew_readings V g' = ew_readings V g1 @ concat rss \<and> list_all2 size_measured rss tss \<and>
        length tss = 11 \<and> cout' = print_rows csv_mode aes_sizes tss ?cout))" for g1
  proof -
    have "\<forall>sz\<in>set aes_sizes. 0 < sz \<and> sz \<le> length data \<and> sz < 2 ^ 31"
      using data by (auto dest: sizes_fit(1))
    from sizes_run [OF L this] show ?thesis
      by (simp only: aes_constants(4))
  qed
  show ?thesis
    unfolding aes_bench_main_def flags prod.case Let_def data_def [symmetric]
    by (rule runs_bind [OF ev_setup [OF L]], rule runs_bind [OF start], assumption,
        rule runs_bind [OF loop], rule runs_bind [OF ev_cleanup [OF L]])
      (auto simp: quiet_def, blast+)
qed

end
