(* ===== verification/Trace_Benches.thy ===== *)
theory Trace_Benches
  imports Text_Output Ckks
begin

text \<open>
  The four micro-benchmarks of the simulator (\<open>simulate/trace\<close>): programs that set up a CKKS context on
  the GPU, run one operation between two synchronisations for the profiler, and decrypt the result.
  FIDESlib is a parameter: its CKKS operations, and what goes beyond them.
\<close>

section \<open>The library\<close>

text \<open>
  \<open>tl_gen\<close> makes a context on a list of devices, \<open>tl_load_context\<close> uploads the keys, \<open>tl_decrypt\<close>
  decrypts and reads the real parts, up to the given length if there is one, and \<open>tl_synchronize\<close> is
  \<open>cudaDeviceSynchronize\<close>. The two calls of the profiler are functions of the repository: they do
  nothing.
\<close>

record ('g, 'cc, 'ct, 'pt, 'sk) trace_lib =
  tl_api :: "('g, 'cc, 'ct, 'pt, 'sk) ckks"
  tl_gen :: "cc_params \<Rightarrow> int list \<Rightarrow> ('g, 'cc) prog"
  tl_load_context :: "'cc \<Rightarrow> 'sk \<Rightarrow> ('g, unit) prog"
  tl_bootstrap :: "'cc \<Rightarrow> 'ct \<Rightarrow> ('g, 'ct) prog"
  tl_decrypt :: "'cc \<Rightarrow> 'sk \<Rightarrow> 'ct \<Rightarrow> nat option \<Rightarrow> ('g, double list) prog"
  tl_synchronize :: "('g, unit) prog"

definition cudaProfilerStart :: "('g, unit) prog" where
  "cudaProfilerStart = ret ()"

definition cudaProfilerStop :: "('g, unit) prog" where
  "cudaProfilerStop = ret ()"

section \<open>Contexts and data\<close>

definition kDevices :: "int list" where
  "kDevices = [0]"

definition light_params :: cc_params where
  "light_params = (set_params 4 50 (2 ^ 13) FLEXIBLEAUTO HEStd_NotSet)\<lparr>cp_ring_dim := Some (2 ^ 14),
     cp_first_mod := Some 60, cp_key_switch := Some HYBRID, cp_digits := Some 3,
     cp_secret_dist := Some UNIFORM_TERNARY\<rparr>"

definition build_light_context :: "('g, 'cc, 'ct, 'pt, 'sk) trace_lib \<Rightarrow> ('g, 'cc) prog" where
  "build_light_context T =
     bind_p (tl_gen T light_params kDevices) (\<lambda>cc.
     bind_p (for_p (ck_enable (tl_api T) cc) [PKE, KEYSWITCH, LEVELEDSHE]) (\<lambda>_. ret cc))"

text \<open>No batch size is set here: the library takes half of the ring dimension.\<close>

definition bootstrap_params :: cc_params where
  "bootstrap_params = (set_params 25 59 (2 ^ 16 div 2) FLEXIBLEAUTO HEStd_NotSet)\<lparr>cp_ring_dim := Some (2 ^ 16),
     cp_first_mod := Some 60, cp_key_switch := Some HYBRID, cp_digits := Some 3,
     cp_secret_dist := Some SPARSE_TERNARY\<rparr>"

definition build_bootstrap_context :: "('g, 'cc, 'ct, 'pt, 'sk) trace_lib \<Rightarrow> ('g, 'cc) prog" where
  "build_bootstrap_context T =
     bind_p (tl_gen T bootstrap_params kDevices) (\<lambda>cc.
     bind_p (for_p (ck_enable (tl_api T) cc) [PKE, KEYSWITCH, LEVELEDSHE, ADVANCEDSHE, FHE]) (\<lambda>_. ret cc))"

text \<open>The generator of the inputs works modulo \<open>2 ^ 64\<close> and keeps the upper 53 bits.\<close>

definition lcg :: "u64 \<Rightarrow> u64" where
  "lcg s = s * 6364136223846793005 + 1442695040888963407"

fun lcg_values :: "nat \<Rightarrow> u64 \<Rightarrow> real list" where
  "lcg_values 0 s = []"
| "lcg_values (Suc n) s = (let s1 = lcg s in real (unat (drop_bit 11 s1)) / 2 ^ 53 # lcg_values n s1)"

definition seeded_vector :: "nat \<Rightarrow> u32 \<Rightarrow> real list" where
  "seeded_vector n seed = lcg_values n (if seed \<noteq> 0 then ucast seed else 1)"

section \<open>The programs\<close>

fun keymode_arg :: "string list \<Rightarrow> string \<Rightarrow> string" where
  "keymode_arg (a # b # rest) keymode =
     (if a = ''--keymode'' then keymode_arg rest b else keymode_arg (b # rest) keymode)"
| "keymode_arg _ keymode = keymode"

definition keymode_of :: "string list \<Rightarrow> string" where
  "keymode_of argv = keymode_arg argv ''cold''"

definition profiled :: "('g, 'cc, 'ct, 'pt, 'sk) trace_lib \<Rightarrow> bool \<Rightarrow> ('g, 'ct) prog \<Rightarrow> ('g, 'ct) prog" where
  "profiled T warm op =
     bind_p (if warm then bind_p (tl_synchronize T) (\<lambda>_. cudaProfilerStart) else ret ()) (\<lambda>_.
     bind_p op (\<lambda>c.
     bind_p (tl_synchronize T) (\<lambda>_.
     bind_p (if warm then cudaProfilerStop else ret ()) (\<lambda>_. ret c))))"

text \<open>What a program has in hand when the measured operation is done: context, keys and result.\<close>

definition trace_add :: "('g, 'cc, 'ct, 'pt, 'sk) trace_lib \<Rightarrow> bool \<Rightarrow> ('g, 'cc \<times> 'sk \<times> 'ct) prog" where
  "trace_add T warm =
     bind_p (build_light_context T) (\<lambda>cc.
     bind_p (ck_keygen (tl_api T) cc) (\<lambda>keys.
     bind_p (ck_mult_keygen (tl_api T) cc keys) (\<lambda>_.
     bind_p (tl_load_context T cc keys) (\<lambda>_.
     bind_p (ck_pack (tl_api T) cc (seeded_vector (2 ^ 13) 1)) (\<lambda>p1.
     bind_p (ck_pack (tl_api T) cc (seeded_vector (2 ^ 13) 2)) (\<lambda>p2.
     bind_p (ck_encrypt (tl_api T) cc keys p1) (\<lambda>c1.
     bind_p (ck_encrypt (tl_api T) cc keys p2) (\<lambda>c2.
     bind_p (profiled T warm (ck_add (tl_api T) cc c1 c2)) (\<lambda>cAdd. ret (cc, keys, cAdd))))))))))"

definition trace_mult :: "('g, 'cc, 'ct, 'pt, 'sk) trace_lib \<Rightarrow> bool \<Rightarrow> ('g, 'cc \<times> 'sk \<times> 'ct) prog" where
  "trace_mult T warm =
     bind_p (build_light_context T) (\<lambda>cc.
     bind_p (ck_keygen (tl_api T) cc) (\<lambda>keys.
     bind_p (ck_mult_keygen (tl_api T) cc keys) (\<lambda>_.
     bind_p (tl_load_context T cc keys) (\<lambda>_.
     bind_p (ck_pack (tl_api T) cc (seeded_vector (2 ^ 13) 1)) (\<lambda>pt1.
     bind_p (ck_pack (tl_api T) cc (seeded_vector (2 ^ 13) 2)) (\<lambda>pt2.
     bind_p (ck_encrypt (tl_api T) cc keys pt1) (\<lambda>c1.
     bind_p (ck_encrypt (tl_api T) cc keys pt2) (\<lambda>c2.
     bind_p (profiled T warm (bind_p (ck_mult (tl_api T) cc c1 c2) (ck_rescale (tl_api T) cc))) (\<lambda>cRs.
     ret (cc, keys, cRs))))))))))"

definition trace_rotate :: "('g, 'cc, 'ct, 'pt, 'sk) trace_lib \<Rightarrow> bool \<Rightarrow> ('g, 'cc \<times> 'sk \<times> 'ct) prog" where
  "trace_rotate T warm =
     bind_p (build_light_context T) (\<lambda>cc.
     bind_p (ck_keygen (tl_api T) cc) (\<lambda>keys.
     bind_p (ck_mult_keygen (tl_api T) cc keys) (\<lambda>_.
     bind_p (ck_rotate_keygen (tl_api T) cc keys [1]) (\<lambda>_.
     bind_p (tl_load_context T cc keys) (\<lambda>_.
     bind_p (ck_pack (tl_api T) cc (seeded_vector (2 ^ 13) 1)) (\<lambda>pt1.
     bind_p (ck_encrypt (tl_api T) cc keys pt1) (\<lambda>c1.
     bind_p (profiled T warm (ck_rotate (tl_api T) cc c1 1)) (\<lambda>cRot. ret (cc, keys, cRot)))))))))"

definition numSlots :: nat where
  "numSlots = 2 ^ 15"

definition trace_bootstrap :: "('g, 'cc, 'ct, 'pt, 'sk) trace_lib \<Rightarrow> bool \<Rightarrow> ('g, 'cc \<times> 'sk \<times> 'ct) prog" where
  "trace_bootstrap T warm =
     bind_p (build_bootstrap_context T) (\<lambda>cc.
     bind_p (ck_keygen (tl_api T) cc) (\<lambda>keys.
     bind_p (ck_mult_keygen (tl_api T) cc keys) (\<lambda>_.
     bind_p (ck_boot_setup (tl_api T) cc [3, 3] [0, 0] numSlots) (\<lambda>_.
     bind_p (ck_boot_keygen (tl_api T) cc keys numSlots) (\<lambda>_.
     bind_p (tl_load_context T cc keys) (\<lambda>_.
     bind_p (ck_pack_slots (tl_api T) cc (seeded_vector numSlots 1) 1 (25 - 1) numSlots) (\<lambda>ptxt.
     bind_p (ck_encrypt (tl_api T) cc keys ptxt) (\<lambda>ciph.
     bind_p (profiled T warm (tl_bootstrap T cc ciph)) (\<lambda>after. ret (cc, keys, after))))))))))"

text \<open>
  The first three programs decrypt and print that they are done. The last one compares: \<open>std::max\<close>
  keeps its first argument unless the second one is greater.
\<close>

definition trace_main :: "('g, 'cc, 'ct, 'pt, 'sk) trace_lib \<Rightarrow>
    (bool \<Rightarrow> ('g, 'cc \<times> 'sk \<times> 'ct) prog) \<Rightarrow> string \<Rightarrow> string list \<Rightarrow> ('g, int \<times> string) prog" where
  "trace_main T run name argv =
     (let keymode = keymode_of argv in
      bind_p (run (keymode = ''warm'')) (\<lambda>(cc, keys, c).
      bind_p (tl_decrypt T cc keys c None) (\<lambda>_. ret (0, name @ ''_OK keymode='' @ keymode))))"

definition add_main :: "('g, 'cc, 'ct, 'pt, 'sk) trace_lib \<Rightarrow> string list \<Rightarrow> ('g, int \<times> string) prog" where
  "add_main T = trace_main T (trace_add T) ''ADD''"

definition mult_main :: "('g, 'cc, 'ct, 'pt, 'sk) trace_lib \<Rightarrow> string list \<Rightarrow> ('g, int \<times> string) prog" where
  "mult_main T = trace_main T (trace_mult T) ''MULT''"

definition rotate_main :: "('g, 'cc, 'ct, 'pt, 'sk) trace_lib \<Rightarrow> string list \<Rightarrow> ('g, int \<times> string) prog" where
  "rotate_main T = trace_main T (trace_rotate T) ''ROTATE''"

definition std_max :: "double \<Rightarrow> double \<Rightarrow> double" where
  "std_max a b = (if a < b then b else a)"

fun abs_difference :: "double \<Rightarrow> real \<Rightarrow> double" where
  "abs_difference (Fin y) x = Fin \<bar>y - x\<bar>"
| "abs_difference (Inf s) x = Inf False"
| "abs_difference NaN x = NaN"

definition max_error :: "double list \<Rightarrow> real list \<Rightarrow> double" where
  "max_error out x = fold (\<lambda>i maxerr. std_max maxerr (abs_difference (out ! i) (x ! i))) [0..<length x] (Fin 0)"

definition bootstrap_verdict :: "string \<Rightarrow> double list \<Rightarrow> real list \<Rightarrow> (int \<times> string) result" where
  "bootstrap_verdict keymode out x =
     (if length out < length x then Inl (Ub ''read outside of a vector'')
      else let maxerr = max_error out x; shown = double_text (general_text 6) maxerr
           in if Fin (1 / 10) \<le> maxerr then Inr (3, ''BOOTSTRAP_FAIL maxerr='' @ shown)
              else Inr (0, ''BOOTSTRAP_OK keymode='' @ keymode @ '' maxerr='' @ shown))"

definition bootstrap_main :: "('g, 'cc, 'ct, 'pt, 'sk) trace_lib \<Rightarrow> string list \<Rightarrow> ('g, int \<times> string) prog" where
  "bootstrap_main T argv =
     (let keymode = keymode_of argv in
      bind_p (trace_bootstrap T (keymode = ''warm'')) (\<lambda>(cc, keys, after).
      bind_p (tl_decrypt T cc keys after (Some numSlots)) (\<lambda>out.
      lift_p (bootstrap_verdict keymode out (seeded_vector numSlots 1)))))"

section \<open>The inputs\<close>

lemma seeded_vector_range:
  "length (seeded_vector n seed) = n"
  "x \<in> set (seeded_vector n seed) \<Longrightarrow> 0 \<le> x \<and> x < 1"
proof -
  have small: "unat (drop_bit 11 s) < 2 ^ 53" for s :: u64
  proof -
    have "unat s < 2 ^ 64"
      using unsigned_less [of s] by simp
    then show ?thesis
      unfolding unsigned_drop_bit_eq
      by (simp add: drop_bit_eq_div div_less_iff_less_mult take_bit_eq_mod)
  qed
  have unit: "0 \<le> real m / 2 ^ 53 \<and> real m / 2 ^ 53 < 1" if "m < 2 ^ 53" for m
    using that by simp
  have "length (lcg_values n s) = n" for n s
    by (induction n arbitrary: s) (simp_all add: Let_def)
  then show "length (seeded_vector n seed) = n"
    by (simp add: seeded_vector_def)
  have "x \<in> set (lcg_values n s) \<Longrightarrow> 0 \<le> x \<and> x < 1" for n s
  proof (induction n arbitrary: s)
    case (Suc n)
    let ?n = "unat (drop_bit 11 (lcg s))"
    have "0 \<le> real ?n / 2 ^ 53 \<and> real ?n / 2 ^ 53 < 1"
      by (rule unit) (rule small)
    moreover have "x = real ?n / 2 ^ 53 \<or> x \<in> set (lcg_values n (lcg s))"
      using Suc.prems by (simp only: lcg_values.simps Let_def list.set insert_iff)
    ultimately show ?case
      using Suc.IH by blast
  qed simp
  then show "x \<in> set (seeded_vector n seed) \<Longrightarrow> 0 \<le> x \<and> x < 1"
    by (simp add: seeded_vector_def)
qed

text \<open>A seed of zero is a seed of one.\<close>

lemma seeded_vector_zero: "seeded_vector n 0 = seeded_vector n 1"
  by (simp add: seeded_vector_def)

section \<open>The verdict\<close>

lemma double_less_simps [simp]:
  "Fin x < Fin y \<longleftrightarrow> x < y" "Fin x < Inf s \<longleftrightarrow> \<not> s" "\<not> d < NaN" "\<not> NaN < d" "Inf False < d \<longleftrightarrow> False"
  by (cases d; auto simp: less_double_def)+

lemma std_max_error:
  assumes "a = Inf False \<or> (\<exists>m\<ge>0. a = Fin m)"
  shows "std_max a (abs_difference y x) = Inf False \<or> (\<exists>m\<ge>0. std_max a (abs_difference y x) = Fin m)"
    and "Fin e \<le> std_max a (abs_difference y x) \<longleftrightarrow> Fin e \<le> a \<or> Fin e \<le> abs_difference y x"
  using assms by (cases y; auto simp: std_max_def)+

text \<open>The largest error reaches a bound when some error does; errors that are not a number do not count.\<close>

lemma max_error_reaches: "0 < e \<Longrightarrow> Fin e \<le> max_error out x \<longleftrightarrow>
    (\<exists>i<length x. Fin e \<le> abs_difference (out ! i) (x ! i))"
proof -
  assume e: "0 < e"
  let ?f = "\<lambda>i m. std_max m (abs_difference (out ! i) (x ! i))"
  have "(fold ?f is a = Inf False \<or> (\<exists>m\<ge>0. fold ?f is a = Fin m)) \<and>
      (Fin e \<le> fold ?f is a \<longleftrightarrow> Fin e \<le> a \<or> (\<exists>i\<in>set is. Fin e \<le> abs_difference (out ! i) (x ! i)))"
    if "a = Inf False \<or> (\<exists>m\<ge>0. a = Fin m)" for a "is"
    using that
  proof (induction "is" arbitrary: a)
    case (Cons i "is")
    from Cons.IH [OF std_max_error(1) [OF Cons.prems]] show ?case
      by (simp add: std_max_error(2) [OF Cons.prems])
  qed simp
  from this [of "Fin 0" "[0..<length x]"] e show ?thesis
    by (auto simp: max_error_def)
qed

section \<open>What the library promises\<close>

text \<open>
  In addition to what holds of every CKKS library: encoding of a full vector, the degree of a product
  and its rescaling, which the library does on request even where it would do it itself later, a
  bootstrapping that returns some approximation, and the length of what is decrypted.
\<close>

definition trace_works :: "('g, 'cc, 'ct, 'pt, 'sk) trace_lib \<Rightarrow> ('g, 'cc, 'ct, 'pt) view \<Rightarrow> bool" where
  "trace_works T V \<longleftrightarrow> ckks_works (tl_api T) V \<and>
     (\<forall>ps ds g. runs (tl_gen T ps ds) g (\<lambda>cc g'. vs_params V cc = ps \<and> keeps V g g')) \<and>
     (\<forall>cc sk g. runs (tl_load_context T cc sk) g (\<lambda>_. keeps V g)) \<and>
     (\<forall>g. runs (tl_synchronize T) g (\<lambda>_. keeps V g)) \<and>
     (\<forall>cc w g. LEVELEDSHE \<in> vs_on V g cc \<longrightarrow> length w = cp_batch (vs_params V cc) \<longrightarrow>
        yields (ck_pack (tl_api T) cc w) g (\<lambda>p. packs V cc p w \<and> vs_plain_level V p = 0)) \<and>
     (\<forall>cc w l m g. LEVELEDSHE \<in> vs_on V g cc \<longrightarrow> length w = m \<longrightarrow> m = cp_batch (vs_params V cc) \<longrightarrow>
        l \<le> cp_depth (vs_params V cc) \<longrightarrow>
        yields (ck_pack_slots (tl_api T) cc w 1 l m) g (\<lambda>p. packs V cc p w \<and> vs_plain_level V p = l)) \<and>
     (\<forall>cc a b g. case ck_mult (tl_api T) cc a b g of (Inr c, g') \<Rightarrow> vs_degree V c = 2 | _ \<Rightarrow> True) \<and>
     (\<forall>cc c v l g. cp_technique (vs_params V cc) = FLEXIBLEAUTO \<longrightarrow> carries V cc c v l \<longrightarrow> vs_degree V c = 2 \<longrightarrow>
        yields (ck_rescale (tl_api T) cc c) g (\<lambda>d. carries V cc d v l)) \<and>
     (\<forall>cc c v l g. FHE \<in> vs_on V g cc \<longrightarrow> vs_mult V g \<longrightarrow> carries V cc c v l \<longrightarrow>
        runs (tl_bootstrap T cc c) g (\<lambda>d g'. keeps V g g' \<and> (\<exists>v' l'. carries V cc d v' l'))) \<and>
     (\<forall>cc sk c g. length (vs_slots V c) = cp_batch (vs_params V cc) \<longrightarrow>
        runs (tl_decrypt T cc sk c None) g (\<lambda>d g'. length d = cp_batch (vs_params V cc))) \<and>
     (\<forall>cc sk c m g. length (vs_slots V c) = cp_batch (vs_params V cc) \<longrightarrow> m \<le> cp_batch (vs_params V cc) \<longrightarrow>
        runs (tl_decrypt T cc sk c (Some m)) g (\<lambda>d g'. length d = m))"

lemma trace_worksD:
  assumes "trace_works T V"
  shows "ckks_works (tl_api T) V"
    and "runs (tl_gen T ps ds) g (\<lambda>cc g'. vs_params V cc = ps \<and> keeps V g g')"
    and "runs (tl_load_context T cc sk) g (\<lambda>_. keeps V g)"
    and "runs (tl_synchronize T) g (\<lambda>_. keeps V g)"
    and "LEVELEDSHE \<in> vs_on V g cc \<Longrightarrow> length w = cp_batch (vs_params V cc) \<Longrightarrow>
      yields (ck_pack (tl_api T) cc w) g (\<lambda>p. packs V cc p w \<and> vs_plain_level V p = 0)"
    and "LEVELEDSHE \<in> vs_on V g cc \<Longrightarrow> length w = m \<Longrightarrow> m = cp_batch (vs_params V cc) \<Longrightarrow>
      l \<le> cp_depth (vs_params V cc) \<Longrightarrow>
      yields (ck_pack_slots (tl_api T) cc w 1 l m) g (\<lambda>p. packs V cc p w \<and> vs_plain_level V p = l)"
    and "case ck_mult (tl_api T) cc a b g of (Inr c, g') \<Rightarrow> vs_degree V c = 2 | _ \<Rightarrow> True"
    and "cp_technique (vs_params V cc) = FLEXIBLEAUTO \<Longrightarrow> carries V cc c v l \<Longrightarrow> vs_degree V c = 2 \<Longrightarrow>
      yields (ck_rescale (tl_api T) cc c) g (\<lambda>d. carries V cc d v l)"
    and "FHE \<in> vs_on V g cc \<Longrightarrow> vs_mult V g \<Longrightarrow> carries V cc c v l \<Longrightarrow>
      runs (tl_bootstrap T cc c) g (\<lambda>d g'. keeps V g g' \<and> (\<exists>v' l'. carries V cc d v' l'))"
    and "length (vs_slots V c) = cp_batch (vs_params V cc) \<Longrightarrow>
      runs (tl_decrypt T cc sk c None) g (\<lambda>d g'. length d = cp_batch (vs_params V cc))"
    and "length (vs_slots V c) = cp_batch (vs_params V cc) \<Longrightarrow> m \<le> cp_batch (vs_params V cc) \<Longrightarrow>
      runs (tl_decrypt T cc sk c (Some m)) g (\<lambda>d g'. length d = m)"
  using assms unfolding trace_works_def by simp_all

text \<open>Contexts and keys: what the programs have before they encrypt.\<close>

lemma build_context_runs:
  assumes "trace_works T V"
  shows "runs (bind_p (tl_gen T ps kDevices) (\<lambda>cc. bind_p (for_p (ck_enable (tl_api T) cc) fs) (\<lambda>_. ret cc))) g
    (\<lambda>cc g'. ready V cc ps fs g')"
proof (rule runs_bind [OF trace_worksD(2) [OF assms]])
  fix cc g1
  assume "vs_params V cc = ps \<and> keeps V g g1"
  then show "runs (bind_p (for_p (ck_enable (tl_api T) cc) fs) (\<lambda>_. ret cc)) g1 (\<lambda>cc g'. ready V cc ps fs g')"
    by (intro runs_bind [OF enable_all_runs [OF ckks_worksD(1) [OF trace_worksD(1) [OF assms]]]])
      (auto simp: ready_def)
qed

definition keyed :: "('g, 'cc, 'ct, 'pt) view \<Rightarrow> 'cc \<Rightarrow> cc_params \<Rightarrow> feature list \<Rightarrow> 'g \<Rightarrow> bool" where
  "keyed V cc ps fs g \<longleftrightarrow> ready V cc ps fs g \<and> vs_mult V g"

lemma keyed_keeps: "keyed V cc ps fs g \<Longrightarrow> keeps V g g' \<Longrightarrow> keyed V cc ps fs g'"
  unfolding keyed_def by (blast intro: ready_keeps dest: keepsD(2))

lemma keyed_flexible:
  assumes "trace_works T V" "keyed V cc ps fs g" "cp_technique ps = FLEXIBLEAUTO" "LEVELEDSHE \<in> set fs"
  shows "flexible_auto (tl_api T) V cc g" "vs_mult V g"
  using assms works_flexible [OF ckks_worksD(1) [OF trace_worksD(1) [OF assms(1)]], of g cc]
  by (auto simp: keyed_def ready_def)

text \<open>Two synchronisations around an operation.\<close>

lemma profiled_runs:
  assumes "trace_works T V" and op: "\<And>g1. keeps V g g1 \<Longrightarrow> runs op g1 (\<lambda>c g'. keeps V g1 g' \<and> Q c)"
  shows "runs (profiled T warm op) g (\<lambda>c g'. keeps V g g' \<and> Q c)"
proof -
  note sync = trace_worksD(4) [OF assms(1)]
  have "runs (if warm then bind_p (tl_synchronize T) (\<lambda>_. cudaProfilerStart) else ret ()) g (\<lambda>_. keeps V g)"
    by (cases warm) (simp_all add: cudaProfilerStart_def runs_bind [OF sync] del: prog_run)
  then show ?thesis
    unfolding profiled_def
  proof (rule runs_bind)
    fix x g1
    assume g1: "keeps V g g1"
    show "runs (bind_p op (\<lambda>c. bind_p (tl_synchronize T) (\<lambda>_.
        bind_p (if warm then cudaProfilerStop else ret ()) (\<lambda>_. ret c)))) g1 (\<lambda>c g'. keeps V g g' \<and> Q c)"
    proof (rule runs_bind [OF op [OF g1]], elim conjE)
      fix c g2
      assume "keeps V g1 g2" "Q c"
      then have "keeps V g g2 \<and> Q c"
        using keeps_trans [OF g1] by simp
      then show "runs (bind_p (tl_synchronize T) (\<lambda>_. bind_p (if warm then cudaProfilerStop else ret ()) (\<lambda>_. ret c)))
          g2 (\<lambda>c g'. keeps V g g' \<and> Q c)"
        by (intro runs_bind [OF sync])
          (simp add: cudaProfilerStop_def bind_p_def ret_def runs_def keeps_trans [of V g g2])
    qed
  qed
qed

text \<open>Without an effect of the synchronisation, the mode of the keys makes no difference.\<close>

lemma profiled_mode:
  assumes "\<And>g. tl_synchronize T g = (Inr (), g)"
  shows "profiled T True op = profiled T False op"
  by (rule ext) (simp add: profiled_def bind_p_def ret_def cudaProfilerStart_def cudaProfilerStop_def assms
      split: prod.split sum.split)

lemma light_context_runs:
  assumes "trace_works T V"
  shows "runs (build_light_context T) g (\<lambda>cc g'. ready V cc light_params [PKE, KEYSWITCH, LEVELEDSHE] g')"
  unfolding build_light_context_def by (rule build_context_runs [OF assms])

text \<open>Keys are made and uploaded.\<close>

lemma light_keys_run:
  assumes "trace_works T V" "ready V cc ps fs g" "PKE \<in> set fs" "KEYSWITCH \<in> set fs"
    and k: "\<And>keys g'. keyed V cc ps fs g' \<Longrightarrow> runs (k keys) g' Q"
  shows "runs (bind_p (ck_keygen (tl_api T) cc) (\<lambda>keys. bind_p (ck_mult_keygen (tl_api T) cc keys) (\<lambda>_. k keys))) g Q"
proof -
  note core = ckks_worksD(1) [OF trace_worksD(1) [OF assms(1)]]
  have "PKE \<in> vs_on V g cc"
    by (rule ready_on [OF assms(2,3)])
  from ck_keygen_runs [OF core this] show ?thesis
  proof (rule runs_bind)
    fix keys g1
    assume g1: "keeps V g g1"
    note r1 = ready_keeps [OF assms(2) g1]
    show "runs (bind_p (ck_mult_keygen (tl_api T) cc keys) (\<lambda>_. k keys)) g1 Q"
    proof (rule runs_bind [OF ck_mult_keygen_runs [OF core ready_on [OF r1 assms(4)]]], elim conjE)
      fix u g2
      assume "vs_mult V g2" "keeps V g1 g2"
      then show "runs (k keys) g2 Q"
        by (intro k) (simp add: keyed_def ready_keeps [OF r1])
    qed
  qed
qed

lemma load_context_keyed:
  assumes "trace_works T V" "keyed V cc ps fs g" and k: "\<And>g'. keyed V cc ps fs g' \<Longrightarrow> keeps V g g' \<Longrightarrow> runs k g' Q"
  shows "runs (bind_p (tl_load_context T cc keys) (\<lambda>_. k)) g Q"
  by (rule runs_bind [OF trace_worksD(3) [OF assms(1)]]) (simp add: k keyed_keeps [OF assms(2)])

text \<open>The inputs of the light programs, encoded and encrypted.\<close>

definition light_keyed :: "('g, 'cc, 'ct, 'pt) view \<Rightarrow> 'cc \<Rightarrow> 'g \<Rightarrow> bool" where
  "light_keyed V cc g \<longleftrightarrow> keyed V cc light_params [PKE, KEYSWITCH, LEVELEDSHE] g"

lemma light_keyedD:
  assumes "trace_works T V" "light_keyed V cc g"
  shows "flexible_auto (tl_api T) V cc g" "vs_mult V g" "LEVELEDSHE \<in> vs_on V g cc"
    and "vs_params V cc = light_params"
  using keyed_flexible [OF assms(1), of cc light_params "[PKE, KEYSWITCH, LEVELEDSHE]" g] assms(2)
  by (auto simp: light_keyed_def keyed_def ready_def light_params_def set_params_def)

lemma light_batch: "cp_batch light_params = 2 ^ 13" "cp_depth light_params = 4"
    "cp_technique light_params = FLEXIBLEAUTO"
  by (simp_all add: light_params_def set_params_def)

lemma pack_seeded:
  assumes "trace_works T V" "light_keyed V cc g"
    and k: "\<And>p. packs V cc p (seeded_vector (2 ^ 13) s) \<Longrightarrow> vs_plain_level V p = 0 \<Longrightarrow> runs (k p) g Q"
  shows "runs (bind_p (ck_pack (tl_api T) cc (seeded_vector (2 ^ 13) s)) k) g Q"
proof -
  have "yields (ck_pack (tl_api T) cc (seeded_vector (2 ^ 13) s)) g
      (\<lambda>p. packs V cc p (seeded_vector (2 ^ 13) s) \<and> vs_plain_level V p = 0)"
    using light_keyedD [OF assms(1,2)]
    by (intro trace_worksD(5) [OF assms(1)]) (simp_all only: seeded_vector_range light_batch)
  then show ?thesis
    by (rule runs_bind [OF yields_runsD]) (auto intro: k)
qed

lemma encrypt_packed:
  assumes "trace_works T V" "light_keyed V cc g" "packs V cc p w" "vs_plain_level V p = 0"
    and k: "\<And>c. carries V cc c w 0 \<Longrightarrow> runs (k c) g Q"
  shows "runs (bind_p (ck_encrypt (tl_api T) cc keys p) k) g Q"
  by (rule runs_bind [OF yields_runsD [OF fa_encrypt [OF light_keyedD(1) [OF assms(1,2)] assms(3)]]])
    (auto simp: assms(4) intro: k)

section \<open>The programs\<close>

definition light_input :: "nat \<Rightarrow> real list" where
  "light_input seed = seeded_vector (2 ^ 13) (of_nat seed)"

lemma light_keyed_keeps: "light_keyed V cc g \<Longrightarrow> keeps V g g' \<Longrightarrow> light_keyed V cc g'"
  unfolding light_keyed_def by (rule keyed_keeps)

lemma light_start:
  assumes W: "trace_works T V"
    and k: "\<And>cc keys g'. light_keyed V cc g' \<Longrightarrow> runs (k cc keys) g' Q"
  shows "runs (bind_p (build_light_context T) (\<lambda>cc. bind_p (ck_keygen (tl_api T) cc) (\<lambda>keys.
    bind_p (ck_mult_keygen (tl_api T) cc keys) (\<lambda>_. k cc keys)))) g Q"
  by (rule runs_bind [OF light_context_runs [OF W]], rule light_keys_run [OF W], assumption, simp, simp)
    (rule k, simp only: light_keyed_def)

lemma light_load:
  assumes W: "trace_works T V" and "light_keyed V cc g"
    and k: "\<And>g'. light_keyed V cc g' \<Longrightarrow> keeps V g g' \<Longrightarrow> runs k g' Q"
  shows "runs (bind_p (tl_load_context T cc keys) (\<lambda>_. k)) g Q"
  by (rule load_context_keyed [OF W assms(2) [unfolded light_keyed_def]]) (simp add: k light_keyed_def)

lemma measured_op:
  assumes W: "trace_works T V" and op: "\<And>g1. keeps V g g1 \<Longrightarrow> yields op g1 R"
    and "\<And>c g'. R c \<Longrightarrow> Q (cc, keys, c) g'"
  shows "runs (bind_p (profiled T warm op) (\<lambda>c. ret (cc, keys, c))) g Q"
  by (rule runs_bind [OF profiled_runs [OF W, of g op R]], rule runs_mono [OF yields_runsD [OF op]])
    (auto simp: assms(3) simp del: prog_run)

lemma trace_add_runs:
  assumes W: "trace_works T V"
  shows "runs (trace_add T warm) g (\<lambda>(cc, keys, c) g'. vs_params V cc = light_params \<and>
    carries V cc c (vadd (light_input 1) (light_input 2)) 0)"
  unfolding trace_add_def light_input_def of_nat_1 of_nat_numeral
  apply (rule light_start [OF W], rule light_load [OF W], assumption)
  apply (rule pack_seeded [OF W], assumption)+
  apply (rule encrypt_packed [OF W], assumption, assumption, assumption)+
  apply (rule measured_op [OF W], rule fa_add [OF light_keyedD(1) [OF W]], erule (1) light_keyed_keeps,
      assumption, assumption)
  apply (simp add: light_keyedD(4) [OF W])
  done

lemma trace_mult_runs:
  assumes W: "trace_works T V"
  shows "runs (trace_mult T warm) g (\<lambda>(cc, keys, c) g'. vs_params V cc = light_params \<and>
    carries V cc c (vmul (light_input 1) (light_input 2)) 1)"
proof -
  have mult: "yields (bind_p (ck_mult (tl_api T) cc a b) (ck_rescale (tl_api T) cc)) g (\<lambda>c. carries V cc c (vmul v w) 1)"
    if "light_keyed V cc g" "carries V cc a v 0" "carries V cc b w 0" for cc a b v w g
  proof -
    note l = light_keyedD [OF W that(1)]
    have "max 0 0 < cp_depth (vs_params V cc)" "cp_technique (vs_params V cc) = FLEXIBLEAUTO"
      by (simp_all add: l(4) light_batch)
    from fa_mult [OF l(1) that(2,3) this(1) l(2)] obtain c
      where c: "ck_mult (tl_api T) cc a b g = (Inr c, g)" "carries V cc c (vmul v w) 1"
      by (auto elim: yieldsE)
    have "vs_degree V c = 2"
      using trace_worksD(7) [OF W, of cc a b g] c(1) by simp
    from trace_worksD(8) [OF W _ c(2) this] \<open>cp_technique (vs_params V cc) = FLEXIBLEAUTO\<close> show ?thesis
      using c(1) by (simp add: yields_def bind_p_def)
  qed
  show ?thesis
    unfolding trace_mult_def light_input_def of_nat_1 of_nat_numeral
    apply (rule light_start [OF W], rule light_load [OF W], assumption)
    apply (rule pack_seeded [OF W], assumption)+
    apply (rule encrypt_packed [OF W], assumption, assumption, assumption)+
    apply (rule measured_op [OF W], rule mult, erule (1) light_keyed_keeps, assumption, assumption)
    apply (simp add: light_keyedD(4) [OF W])
    done
qed

lemma trace_rotate_runs:
  assumes W: "trace_works T V"
  shows "runs (trace_rotate T warm) g (\<lambda>(cc, keys, c) g'. vs_params V cc = light_params \<and>
    carries V cc c (rot 1 (light_input 1)) 0)"
proof -
  note core = ckks_worksD(1) [OF trace_worksD(1) [OF W]]
  have keys: "runs (bind_p (ck_rotate_keygen (tl_api T) cc keys [1]) (\<lambda>_. k)) g Q"
    if "light_keyed V cc g" and k: "\<And>g'. light_keyed V cc g' \<Longrightarrow> 1 \<in> vs_rotations V g' \<Longrightarrow> runs k g' Q"
    for cc keys k g Q
  proof -
    have "KEYSWITCH \<in> vs_on V g cc"
      using that(1) by (simp add: light_keyed_def keyed_def ready_def)
    then show ?thesis
      by (rule runs_bind [OF ck_rotate_keygen_runs [OF core]]) (auto intro: k light_keyed_keeps [OF that(1)])
  qed
  show ?thesis
    unfolding trace_rotate_def light_input_def of_nat_1 of_nat_numeral
    apply (rule light_start [OF W], rule keys, assumption, rule light_load [OF W], assumption)
    apply (rule pack_seeded [OF W], assumption)
    apply (rule encrypt_packed [OF W], assumption, assumption, assumption)
    apply (rule measured_op [OF W], rule fa_rotate [OF light_keyedD(1) [OF W]], erule (1) light_keyed_keeps, assumption)
    apply (blast dest: keepsD(4))
    apply (simp add: light_keyedD(4) [OF W])
    done
qed

text \<open>Bootstrapping: the input is encoded at the last level, and what comes back has as many slots.\<close>

definition boot_features :: "feature list" where
  "boot_features = [PKE, KEYSWITCH, LEVELEDSHE, ADVANCEDSHE, FHE]"

lemma boot_params: "cp_batch bootstrap_params = numSlots" "cp_depth bootstrap_params = 25"
    "cp_technique bootstrap_params = FLEXIBLEAUTO"
  by (simp_all add: bootstrap_params_def set_params_def numSlots_def)

lemma boot_setup_runs:
  assumes W: "trace_works T V" and "keyed V cc ps boot_features g"
    and k: "\<And>g'. keyed V cc ps boot_features g' \<Longrightarrow> runs k g' Q"
  shows "runs (bind_p (ck_boot_setup (tl_api T) cc [3, 3] [0, 0] m) (\<lambda>_.
    bind_p (ck_boot_keygen (tl_api T) cc keys m) (\<lambda>_. k))) g Q"
proof -
  have on: "FHE \<in> vs_on V h cc" if "keyed V cc ps boot_features h" for h
    using that by (simp add: keyed_def ready_def boot_features_def)
  note works = trace_worksD(1) [OF W]
  from on [OF assms(2)] show ?thesis
  proof (rule runs_bind [OF ck_boot_setup_runs [OF ckks_worksD(1) [OF works]]])
    fix u g1
    assume "keeps V g g1"
    note g1 = keyed_keeps [OF assms(2) this]
    from on [OF g1] show "runs (bind_p (ck_boot_keygen (tl_api T) cc keys m) (\<lambda>_. k)) g1 Q"
      by (rule runs_bind [OF ck_boot_keygen_runs [OF works]]) (rule k, rule keyed_keeps [OF g1])
  qed
qed

lemma bootstrap_measured:
  assumes W: "trace_works T V" and keyed: "keyed V cc bootstrap_params boot_features g"
    and c: "carries V cc c w l"
  shows "runs (bind_p (profiled T warm (tl_bootstrap T cc c)) (\<lambda>after. ret (cc, keys, after))) g
    (\<lambda>(cc, keys, c) g'. vs_params V cc = bootstrap_params \<and> length (vs_slots V c) = numSlots)"
proof -
  have "runs (tl_bootstrap T cc c) h (\<lambda>d h'. keeps V h h' \<and> (\<exists>v l. carries V cc d v l))" if "keeps V g h" for h
    using keyed_keeps [OF keyed that]
    by (intro trace_worksD(9) [OF W _ _ c]) (simp_all add: keyed_def ready_def boot_features_def)
  moreover have "vs_params V cc = bootstrap_params"
    using keyed by (simp add: keyed_def ready_def)
  ultimately show ?thesis
    by (intro runs_bind [OF profiled_runs [OF W]]) (auto simp: carries_def boot_params simp del: prog_run)
qed

lemma trace_bootstrap_runs:
  assumes W: "trace_works T V"
  shows "runs (trace_bootstrap T warm) g (\<lambda>(cc, keys, c) g'. vs_params V cc = bootstrap_params \<and>
    length (vs_slots V c) = numSlots)"
proof -
  let ?x = "seeded_vector numSlots 1"
  have boot: "runs (bind_p (ck_pack_slots (tl_api T) cc ?x 1 (25 - 1) numSlots) (\<lambda>ptxt.
      bind_p (ck_encrypt (tl_api T) cc keys ptxt) (\<lambda>ciph.
      bind_p (profiled T warm (tl_bootstrap T cc ciph)) (\<lambda>after. ret (cc, keys, after))))) g
      (\<lambda>(cc, keys, c) g'. vs_params V cc = bootstrap_params \<and> length (vs_slots V c) = numSlots)"
    if keyed: "keyed V cc bootstrap_params boot_features g" for cc keys g
  proof -
    have fa: "flexible_auto (tl_api T) V cc g" and ps: "vs_params V cc = bootstrap_params"
      using keyed_flexible [OF W keyed] keyed by (simp_all add: boot_params boot_features_def keyed_def ready_def)
    have "LEVELEDSHE \<in> vs_on V g cc"
      using keyed by (simp add: keyed_def ready_def boot_features_def)
    then have "yields (ck_pack_slots (tl_api T) cc ?x 1 (25 - 1) numSlots) g
        (\<lambda>p. packs V cc p ?x \<and> vs_plain_level V p = 25 - 1)"
      by (rule trace_worksD(6) [OF W]) (simp_all add: ps boot_params seeded_vector_range)
    then show ?thesis
      by (auto intro!: runs_bind [OF yields_runsD] runs_bind [OF yields_runsD [OF fa_encrypt [OF fa]]]
          bootstrap_measured [OF W keyed])
  qed
  show ?thesis
    unfolding trace_bootstrap_def build_bootstrap_context_def
    apply (rule runs_bind [OF build_context_runs [OF W]])
    apply (rule light_keys_run [OF W], assumption, simp, simp)
    apply (rule boot_setup_runs [OF W], simp only: boot_features_def)
    apply (rule load_context_keyed [OF W], assumption)
    apply (rule boot, assumption)
    done
qed

text \<open>The verdict of the last program, whatever the library returned.\<close>

lemma bootstrap_verdict:
  assumes "length x \<le> length out"
  shows "bootstrap_verdict keymode out x = Inr (3, ''BOOTSTRAP_FAIL maxerr='' @ double_text (general_text 6) (max_error out x))
      \<or> bootstrap_verdict keymode out x = Inr (0, ''BOOTSTRAP_OK keymode='' @ keymode @ '' maxerr='' @
          double_text (general_text 6) (max_error out x))"
    and "(\<exists>line. bootstrap_verdict keymode out x = Inr (3, line)) \<longleftrightarrow>
      (\<exists>i<length x. Fin (1 / 10) \<le> abs_difference (out ! i) (x ! i))"
  using assms max_error_reaches [of "1 / 10" out x] by (auto simp: bootstrap_verdict_def Let_def)

lemma bootstrap_main_runs:
  assumes W: "trace_works T V"
  shows "runs (bootstrap_main T argv) g (\<lambda>(code, line) g'. code = 0 \<or> code = 3)"
  unfolding bootstrap_main_def Let_def
proof (rule runs_bind [OF trace_bootstrap_runs [OF W]], clarify)
  fix cc keys c g1
  assume ps: "vs_params V cc = bootstrap_params" and c: "length (vs_slots V c) = numSlots"
  let ?x = "seeded_vector numSlots 1"
  show "runs (bind_p (tl_decrypt T cc keys c (Some numSlots)) (\<lambda>out.
      lift_p (bootstrap_verdict (keymode_of argv) out ?x))) g1 (\<lambda>(code, line) g'. code = 0 \<or> code = 3)"
  proof (rule runs_bind [OF trace_worksD(11) [OF W, of c cc numSlots keys]])
    fix out :: "double list" and g2
    assume "length out = numSlots"
    then have "length ?x \<le> length out"
      by (simp add: seeded_vector_range)
    from bootstrap_verdict(1) [OF this, of "keymode_of argv"]
    show "runs (lift_p (bootstrap_verdict (keymode_of argv) out ?x)) g2 (\<lambda>(code, line) g'. code = 0 \<or> code = 3)"
      by (auto simp: runs_def)
  qed (simp_all add: ps c boot_params)
qed

lemma trace_main_runs:
  assumes W: "trace_works T V"
    and run: "runs (run (keymode_of argv = ''warm'')) g (\<lambda>(cc, keys, c) g'. length (vs_slots V c) = cp_batch (vs_params V cc))"
  shows "runs (trace_main T run name argv) g (\<lambda>r g'. r = (0, name @ ''_OK keymode='' @ keymode_of argv))"
  unfolding trace_main_def Let_def
  by (rule runs_bind [OF run]) (auto intro!: runs_bind [OF trace_worksD(10) [OF W]] simp del: prog_run)

end
