(* ===== verification/Examples_Tools.thy ===== *)
theory Examples_Tools
  imports Aes_Report Trace_Benches Examples_Ckks
begin

text \<open>
  Concrete libraries for the witnesses of the tools: an EVP library with a list of contexts, a clock
  that advances by a microsecond at each reading, and a cipher that copies the text; and a FIDESlib
  without noise. They do what the hypotheses ask for.
\<close>

section \<open>A cipher library\<close>

type_synonym toy_evp_state = "gcm_phase option list \<times> int list"

definition toy_phase :: "gcm_phase option list \<Rightarrow> nat \<Rightarrow> gcm_phase option" where
  "toy_phase ps c = (if c < length ps then ps ! c else None)"

definition toy_to :: "nat \<Rightarrow> gcm_phase option \<Rightarrow> 'a \<Rightarrow> (toy_evp_state, 'a) prog" where
  "toy_to c p x = (\<lambda>(ps, rs). (Inr x, (ps[c := p], rs)))"

definition toy_evp :: "(toy_evp_state, nat) evp" where
  "toy_evp = \<lparr>
     ev_setup = ret (),
     ev_new = (\<lambda>(ps, rs). (Inr (length ps), (ps @ [Some Fresh], rs))),
     ev_init_cipher = (\<lambda>c. toy_to c (Some (Chosen 12)) 1),
     ev_set_ivlen = (\<lambda>c n. toy_to c (Some (Chosen n)) 1),
     ev_init_key = (\<lambda>c key iv. toy_to c (Some (Keyed key iv [] [])) 1),
     ev_update = (\<lambda>c out buf n g. (case toy_phase (fst g) c of
         Some (Keyed key iv a t) \<Rightarrow>
           if out then toy_to c (Some (Keyed key iv a (take (nat n) buf))) (1, Some n, take (nat n) buf) g
           else toy_to c (Some (Keyed key iv (a @ take (nat n) buf) t)) (1, Some n, []) g
       | _ \<Rightarrow> ret (0, None, []) g)),
     ev_final = (\<lambda>c g. (case toy_phase (fst g) c of
         Some (Keyed key iv a t) \<Rightarrow> toy_to c (Some (Finished key iv a t)) (1, Some 0, []) g
       | _ \<Rightarrow> ret (0, None, []) g)),
     ev_get_tag = (\<lambda>c n. ret (1, replicate n 0)),
     ev_free = (\<lambda>c. toy_to c None ()),
     ev_cleanup = ret (),
     ev_now = (\<lambda>(ps, rs). (Inr (1000 * int (length rs)), (ps, rs @ [1000 * int (length rs)])))\<rparr>"

definition toy_evp_view :: "(toy_evp_state, nat) evp_view" where
  "toy_evp_view = \<lparr>ew_phase = toy_phase \<circ> fst, ew_readings = snd,
     ew_gcm = (\<lambda>key iv a t. t), ew_tag = (\<lambda>key iv a t. replicate 16 0)\<rparr>"

lemma toy_phase_update:
  "toy_phase ps c \<noteq> None \<Longrightarrow> toy_phase (ps[c := p]) = (toy_phase ps)(c := p)"
  "toy_phase (ps @ [p]) = (toy_phase ps)(length ps := p)"
  "toy_phase ps (length ps) = None"
  by (auto simp: toy_phase_def fun_eq_iff nth_append split: if_splits)

lemma toy_evp_works: "evp_works toy_evp toy_evp_view"
  unfolding evp_works_def toy_evp_def toy_evp_view_def
  by (intro conjI allI impI)
    (auto simp: runs_def quiet_def moves_def toy_to_def toy_phase_update prog_run split: prod.split)

section \<open>A GPU library\<close>

text \<open>The CKKS without noise, with the scale of a product raised until it is rescaled.\<close>

definition trace_ckks :: "(ideal_state, cc_params, ideal_ct, real list \<times> nat, unit) ckks" where
  "trace_ckks = ideal_ckks\<lparr>
     ck_mult := (\<lambda>cc a b. ret (ideal_ct (vmul (ic_slots a) (ic_slots b))
       (case cp_technique cc of FIXEDMANUAL \<Rightarrow> ideal_level a b | FLEXIBLEAUTO \<Rightarrow> ideal_level a b + 1) 2)),
     ck_rescale := (\<lambda>cc a. ret (ideal_ct (ic_slots a)
       (case cp_technique cc of FIXEDMANUAL \<Rightarrow> ic_level a + 1 | FLEXIBLEAUTO \<Rightarrow> ic_level a) 1))\<rparr>"

definition ideal_trace :: "(ideal_state, cc_params, ideal_ct, real list \<times> nat, unit) trace_lib" where
  "ideal_trace = \<lparr>
     tl_api = trace_ckks,
     tl_gen = (\<lambda>ps ds. ret ps),
     tl_load_context = (\<lambda>cc sk. ret ()),
     tl_bootstrap = (\<lambda>cc c. ret (ideal_ct (ic_slots c) 10 1)),
     tl_decrypt = (\<lambda>cc sk c n. ret (map Fin (case n of None \<Rightarrow> ic_slots c | Some m \<Rightarrow> take m (ic_slots c)))),
     tl_synchronize = ret ()\<rparr>"

lemma trace_fixed: "cp_technique cc = FIXEDMANUAL \<Longrightarrow> fixed_manual trace_ckks ideal_view cc g"
  unfolding fixed_manual_def Let_def by (intro conjI allI impI; simp add: ideal_defs trace_ckks_def)

lemma trace_flexible: "cp_technique cc = FLEXIBLEAUTO \<Longrightarrow> flexible_auto trace_ckks ideal_view cc g"
  unfolding flexible_auto_def Let_def by (intro conjI allI impI; simp add: ideal_defs trace_ckks_def)

lemma trace_technique: "case cp_technique (vs_params ideal_view cc) of
    FIXEDMANUAL \<Rightarrow> fixed_manual trace_ckks ideal_view cc g
  | FLEXIBLEAUTO \<Rightarrow> flexible_auto trace_ckks ideal_view cc g"
  by (simp add: trace_fixed trace_flexible split: scaling_technique.split)

lemma trace_ckks_works: "ckks_works trace_ckks ideal_view"
  unfolding ckks_works_def ckks_core_def
  by (intro conjI allI impI trace_technique)
    (auto simp: trace_ckks_def ideal_ckks_def ideal_view_def keeps_def keeps_but_rotations_def runs_def)

lemma repeated_full: "length w = n \<Longrightarrow> repeated n n w = w"
  by (rule nth_equalityI) (simp_all add: repeated_def)

lemma ideal_trace_works: "trace_works ideal_trace ideal_view"
  unfolding trace_works_def
proof (intro conjI allI impI)
  show "ckks_works (tl_api ideal_trace) ideal_view"
    by (simp add: ideal_trace_def trace_ckks_works)
next
  fix cc c v l g
  assume "carries ideal_view cc c v l"
  then have "carries ideal_view cc (ideal_ct (ic_slots c) 10 1) v 10"
    by (simp add: carries_def ideal_view_def)
  then show "runs (tl_bootstrap ideal_trace cc c) g (\<lambda>d g'. keeps ideal_view g g' \<and>
      (\<exists>v' l'. carries ideal_view cc d v' l'))"
    by (auto simp: ideal_trace_def runs_def)
qed (auto simp: ideal_trace_def runs_def trace_ckks_def ideal_defs repeated_full)

end
