(* ===== verification/Properties_Tools.thy ===== *)
theory Properties_Tools
  imports Examples_Tools
begin

text \<open>
  Properties of the tools beside the prototypes: the AES-GCM benchmark and the GPU programs of the
  simulator.
\<close>

section \<open>The AES-GCM benchmark\<close>



lemma calibrated:
  assumes "\<exists>t. measured V 10 t g g' \<and> n = clamp_iterations target t"
  shows "5 \<le> n \<and> n \<le> 100000 \<and> ew_phase V g' = ew_phase V g \<and> (\<exists>t. measured V 10 t g g' \<and>
    (1 / 10 ^ 12 < t \<longrightarrow> 5 * t \<le> target \<longrightarrow> target \<le> 100000 * t \<longrightarrow>
      of_int n * t \<le> target \<and> target < (of_int n + 1) * t))"
proof -
  obtain t where t: "measured V 10 t g g'" and n: "n = clamp_iterations target t"
    using assms by blast
  then show ?thesis
    using clamp_bounds [of target t] clamp_on_target [of t target]
    by (intro conjI exI [of _ t] impI) (simp_all add: measured_def)
qed



text \<open>\<open>bench_aes_gcm\<close> guards against a text of length zero, but such a text is undefined
  behaviour: the final call uses \<open>len\<close>, which is not set, or which is the length of the additional data
  and points outside of the empty buffer.\<close>

theorem aes_empty_text_is_undefined:
  assumes "evp_works L V" "length key = 32" "length iv = 12" "aad_len \<le> length aad" "aad_len < 2 ^ 31"
  shows "\<exists>u g'. bench_aes_gcm L key iv aad aad_len pt 0 iterations g = (Inl (Ub u), g')"
  using bench_without_text [OF assms] unfolding undefined_run_def .

lemma aes_empty_text_is_undefined_witness:
  "\<exists>u g'. bench_aes_gcm toy_evp aes_key aes_iv [1, 2] 2 [] 0 5 ([], []) = (Inl (Ub u), g')"
  by (rule aes_empty_text_is_undefined [OF toy_evp_works]) (simp_all add: aes_constants)

section \<open>The GPU programs of the simulator\<close>



text \<open>The modes \<open>cold\<close> and \<open>warm\<close> measure the same: the profiler calls are stubs that do nothing,
  and before the operation everything has been set up in both modes. Only the printed mode differs.\<close>

theorem trace_mode_has_no_effect:
  assumes "\<And>g. tl_synchronize T g = (Inr (), g)"
  shows "trace_add T True = trace_add T False \<and> trace_mult T True = trace_mult T False \<and>
    trace_rotate T True = trace_rotate T False \<and> trace_bootstrap T True = trace_bootstrap T False"
  by (simp add: trace_add_def trace_mult_def trace_rotate_def trace_bootstrap_def profiled_mode [OF assms])

lemma trace_mode_has_no_effect_witness:
  "trace_bootstrap ideal_trace True = trace_bootstrap ideal_trace False"
  using trace_mode_has_no_effect [of ideal_trace] by (simp add: ideal_trace_def)

text \<open>C40: the verdict on a bootstrapping is 3 exactly when some slot is off by a tenth or more. A slot
  that is not a number is off by nothing: a result that consists of them passes.\<close>

theorem bootstrap_check_misses_nan:
  assumes "length x \<le> length out"
  shows "((\<exists>line. bootstrap_verdict keymode out x = Inr (3, line)) \<longleftrightarrow>
      (\<exists>i<length x. Fin (1 / 10) \<le> abs_difference (out ! i) (x ! i))) \<and>
    ((\<forall>i<length x. out ! i = NaN) \<longrightarrow> (\<exists>line. bootstrap_verdict keymode out x = Inr (0, line)))"
  using bootstrap_verdict [OF assms, of keymode] by fastforce

lemma bootstrap_check_misses_nan_witness:
  "\<exists>line. bootstrap_verdict ''cold'' [NaN, NaN] [1 / 2, 1 / 3] = Inr (0, line)"
  using bootstrap_check_misses_nan [of "[1 / 2, 1 / 3]" "[NaN, NaN]" "''cold''"]
  by (simp add: less_Suc_eq numeral_eq_Suc)

end
