(* ===== verification/Spec2Isabelle.thy ===== *)
theory Spec2Isabelle
  imports Properties_Transport Properties_Session Properties_Workloads Properties_Programs Properties_Threads
    Properties_Tools
begin

text \<open>
  \<^bold>\<open>Khipu-vFHE\<close>: verifiable homomorphic evaluation. A client encrypts its inputs, a server evaluates a
  registered circuit on the ciphertexts, and the client decrypts the output only when the answer carries
  evidence of the evaluation. There are four prototypes with the same shape: \<^verbatim>\<open>tee-vfhe\<close> (CKKS, evidence is a
  TDX quote over a transcript), \<^verbatim>\<open>tee-vfhe-bgvrns\<close> (the same with BGV), \<^verbatim>\<open>gpucc-vfhe\<close> (evaluation on a GPU, the
  quote binds the transcript to GPU evidence) and \<^verbatim>\<open>zk-vfhe\<close> (a zkSNARK instead of a quote). Beside them there are
  a benchmark of AES-GCM and the GPU programs whose traces the simulator replays.

  \<^bold>\<open>How the parts interact.\<close> A client (\<^verbatim>\<open>src/client/client_main.cpp\<close>) generates keys and inputs, writes a
  request with \<^verbatim>\<open>BufWriter\<close> and sends it as one frame (\<^verbatim>\<open>src/common/tcp_transport.cpp\<close>). The accept loop of the
  server gives each connection a thread; the thread reads the frame, parses it with \<^verbatim>\<open>BufReader\<close>, loads keys and
  ciphertexts into OpenFHE, calls the circuit of the workload registry (\<^verbatim>\<open>workloads/*.cpp\<close>), hashes what went
  in and out into a transcript (\<^verbatim>\<open>src/common/transcript.cpp\<close>), has the digest quoted (\<^verbatim>\<open>attestation.cpp\<close>) and answers.
  The client recomputes the hashes, verifies transcript and quote (\<^verbatim>\<open>src/client/verifier.cpp\<close>), and decrypts.

  \<^bold>\<open>Theories and sources.\<close>
  \<^item> \<open>Khipu_Prelude\<close>, \<open>Effects\<close>: bytes, results, faults (exceptions and undefined behaviour apart), programs over
    a global state with exceptions, and the two ways to say that a program returns (\<open>runs\<close>, \<open>yields\<close>).
  \<^item> \<open>Tcp_Framing\<close>, \<open>Sockets\<close>: \<^verbatim>\<open>tcp_transport.cpp\<close>. System calls are scripts of events; descriptors are a multiset
    with owners; the accept loop of the servers is a step relation.
  \<^item> \<open>Wire_Format\<close>, \<open>Messages\<close>: \<^verbatim>\<open>BufReader\<close>, \<^verbatim>\<open>BufWriter\<close> with 64-bit positions, requests and responses of the
    prototypes. A locale states that a parser and a printer are inverse; each message format interprets it.
  \<^item> \<open>Hashing_Hex\<close>, \<open>Transcripts\<close>, \<open>Attestation\<close>, \<open>Gpu_Evidence\<close>: \<^verbatim>\<open>hashing.cpp\<close>, \<^verbatim>\<open>transcript.cpp\<close>, \<^verbatim>\<open>attestation.cpp\<close>,
    \<^verbatim>\<open>h100_evidence_adapter.cpp\<close>. \<open>Verifier\<close>: \<^verbatim>\<open>verifier.cpp\<close>.
  \<^item> \<open>Server_Tee\<close>, \<open>Server_Gpu\<close>, \<open>Server_Zk\<close>: the request handlers with every early return; \<open>Proof_System\<close>: the key
    cache and the formats of \<^verbatim>\<open>proof_generation.cpp\<close>.
  \<^item> \<open>Client_Tee\<close>, \<open>Client_Gpu\<close>, \<open>Client_Zk\<close>: inputs, requests and the check of a response; \<open>Client_Main\<close>: the four
    \<^verbatim>\<open>main\<close> functions, from the command line to the exit code, as interpretations of one locale. \<open>Benchmarks\<close>:
    the four \<^verbatim>\<open>benchmark_runner.cpp\<close>. \<open>Session_Training\<close>: the client program and the server handler together.
  \<^item> \<open>Server_Threads\<close>, \<open>Server_Main\<close>: the detached handler threads as resumable computations over the shared state,
    the schedules of a pool of them, and the four server programs from their command line on.
  \<^item> \<open>Ckks\<close>, \<open>Slots\<close>, \<open>Batch_Layout\<close>: the OpenFHE operations that the CKKS circuits use, and vectors of slots.
    \<open>Workloads_Ckks\<close>, \<open>Workloads_Matvec\<close>, \<open>Workload_Logreg\<close>, \<open>Client_Logreg\<close>, \<open>Workloads_Tee\<close>: the circuits of \<^verbatim>\<open>tee-vfhe\<close>
    and the registry. \<open>Accumulate\<close>, \<open>Gpu_Training\<close>: the logistic regression of \<^verbatim>\<open>gpucc-vfhe\<close> with the accumulation
    of FIDESlib. \<open>Workloads_Bgv\<close>: the circuits of the two BGV prototypes.
  \<^item> \<open>Text_Output\<close>: the types \<^verbatim>\<open>double\<close>, \<^verbatim>\<open>ostream\<close> and the formats of numbers. \<open>Aes_Bench\<close>, \<open>Aes_Report\<close>:
    \<^verbatim>\<open>small_benchmarks/aes-gcm/bench.cpp\<close>, the measurements and the tables. \<open>Trace_Benches\<close>: the four programs of
    \<^verbatim>\<open>simulate/trace\<close> and their \<^verbatim>\<open>common.hpp\<close>.
  \<^item> \<open>Examples\<close>, \<open>Examples_Ckks\<close>, \<open>Examples_Circuits\<close>, \<open>Examples_Training\<close>, \<open>Examples_Tools\<close>: concrete libraries for the
    witnesses. \<open>Properties_*\<close>: the properties, each with its witness.

  \<^bold>\<open>What the lemmas show.\<close> Transport: frames survive any segmentation, and each descriptor has one owner.
  Formats: parsers accept exactly what printers print, as far as the counts fit; where the code reads out of bounds
  the model says undefined behaviour, and there are theorems that reach it. Sessions: honest sessions complete, and what a
  client accepts is the output of the enclave's evaluation of its own request unless BLAKE3 collides on the texts at
  hand. Circuits: each one computes its function, within the depth and with the rotation keys that it has. Training:
  two steps of gradient descent, on the CPU and on the GPU. Programs: a client prints only what it accepted, and
  against an honest server it ends and prints the trained weights; a server answers on each connection the request of
  that connection, in every schedule of its threads, and every schedule ends after as many steps as the requests
  have keys and ciphertexts, and a few more. Two schedules show what the static variables without a lock allow.
  Tools: the AES benchmark measures every size, frees every context and prints a table that reads back; its
  calibration stays in its bounds; the traced programs do the operation in their name and end.

  \<^bold>\<open>Parameters.\<close> OpenFHE (\<open>ckks_core\<close>, \<open>ckks_works\<close>, \<open>ckks_replaces\<close>, \<open>bgv_works\<close>), FIDESlib but for its accumulations
  (\<open>gpu_works\<close>), libsnark and zkOpenFHE (\<open>snark\<close>, \<open>proves_along\<close>), the ciphers of OpenSSL with
  the clock (\<open>evp_works\<close>), FIDESlib as the traced programs call it (\<open>trace_works\<close>), BLAKE3, the JSON library, DCAP,
  the TDX driver, the NVAT SDK, the kernel and \<^verbatim>\<open>std::mt19937\<close> are records of operations. What the code relies on
  is a named hypothesis over such a record; it is never more than the documented behaviour of one operation, and the example theories satisfy it.

  \<^bold>\<open>Bounds and idealisations.\<close> Lengths and positions are 64-bit words that wrap, counts are 32-bit words, ports 16-bit
  words. Slots of CKKS ciphertexts are exact reals: the theorems on circuits are about the function that is computed,
  not about the noise. Levels are counted, so that a circuit that exceeded its depth would not return. Loops over the
  network are recursive on the script of events; no fuel is used. A step of a thread is one call on the shared state;
  what happens inside of one call of a library is not interleaved.

  \<^bold>\<open>Not modelled.\<close> The console output, but for what the clients print of a decrypted result, the tables of the AES
  benchmark and the lines of the traced programs; clock readings and peak memory, which are parameters; the rest of the
  simulator (Python, shell and CUDA files); the tests; and the vendored libraries, FIDESlib's accumulation apart. Files
  that the prototypes share up to namespaces and comments (\<^verbatim>\<open>tcp_transport.cpp\<close>, \<^verbatim>\<open>hashing.cpp\<close>, \<^verbatim>\<open>serialization.cpp\<close>,
  most of \<^verbatim>\<open>verifier.cpp\<close>, the workloads that \<^verbatim>\<open>gpucc-vfhe\<close> takes over from \<^verbatim>\<open>tee-vfhe\<close>) are modelled once.
\<close>

end
